theory Spec2Isabelle
  imports Main "HOL-Library.Multiset"
begin

section \<open>JavaScript values and the store\<close>

text \<open>
  The client keeps one resume document in React state (\<^verbatim>\<open>resumeData\<close> in
  \<^verbatim>\<open>src/App.js\<close>). A JavaScript value is a primitive or a reference to an object or an
  array; objects and arrays live in a store and are shared by reference. The document has
  no numeric field, so numbers are left out of the value type. Strings are sequences of
  code units below 256.
\<close>

type_synonym addr = nat

datatype jsval = JUndefined | JNull | JBool bool | JStr string | JRef addr

datatype cell = Obj "string \<rightharpoonup> jsval" | Arr "jsval list"

type_synonym store = "cell list"

definition cell_at :: "store \<Rightarrow> addr \<Rightarrow> cell option" where
  "cell_at h a = (if a < length h then Some (h ! a) else None)"

text \<open>Creating an object or array literal: the new cell gets the next free address.\<close>

definition alloc :: "store \<Rightarrow> cell \<Rightarrow> addr \<times> store" where
  "alloc h c = (length h, h @ [c])"

text \<open>
  The operator \<^verbatim>\<open>===\<close> on these values: primitives compare by value, objects and arrays
  by reference.
\<close>

fun strict_eq :: "jsval \<Rightarrow> jsval \<Rightarrow> bool" where
  "strict_eq JUndefined JUndefined = True"
| "strict_eq JNull JNull = True"
| "strict_eq (JBool a) (JBool b) = (a = b)"
| "strict_eq (JStr s) (JStr t) = (s = t)"
| "strict_eq (JRef a) (JRef b) = (a = b)"
| "strict_eq _ _ = False"

text \<open>Decimal rendering of an array index, as used for the property keys of an array.\<close>

function dec :: "nat \<Rightarrow> string" where
  "dec n = (if n < 10 then [char_of (48 + n)]
            else dec (n div 10) @ [char_of (48 + n mod 10)])"
  by pat_completeness auto
termination
  by (relation "measure id") auto

declare dec.simps [simp del]

definition index_props :: "jsval list \<Rightarrow> (string \<rightharpoonup> jsval)" where
  "index_props xs = map_of (zip (map dec [0..<length xs]) xs)"

text \<open>
  The own enumerable properties of a value, which is what object spread
  \<^verbatim>\<open>{...v}\<close> copies: the property table of an object, the indexed elements of an array
  or of a string, nothing for the other primitives.
\<close>

definition own_props :: "store \<Rightarrow> jsval \<Rightarrow> (string \<rightharpoonup> jsval)" where
  "own_props h v =
     (case v of
        JRef a \<Rightarrow> (case cell_at h a of
                     Some (Obj m) \<Rightarrow> m
                   | Some (Arr xs) \<Rightarrow> index_props xs
                   | None \<Rightarrow> Map.empty)
      | JStr s \<Rightarrow> index_props (map (\<lambda>c. JStr [c]) s)
      | _ \<Rightarrow> Map.empty)"

section \<open>The document and the single update operation (src/App.js)\<close>

text \<open>
  The state of the application: the store and the reference held by the React state
  variable \<^verbatim>\<open>resumeData\<close>.
\<close>

record app =
  heap :: store
  resumeData :: addr

text \<open>
  The property table of the current document (the state variable always refers to an
  object), and a read \<^verbatim>\<open>data.k\<close> of it.
\<close>

definition props :: "app \<Rightarrow> (string \<rightharpoonup> jsval)" where
  "props st =
     (case cell_at (heap st) (resumeData st) of Some (Obj m) \<Rightarrow> m | _ \<Rightarrow> Map.empty)"

definition data_field :: "app \<Rightarrow> string \<Rightarrow> jsval" where
  "data_field st k = (case props st k of Some v \<Rightarrow> v | None \<Rightarrow> JUndefined)"

text \<open>
  \<^verbatim>\<open>setResumeData(prev => ({...}))\<close>: the object literal is a new object, and the state
  variable then refers to it.
\<close>

definition setResumeData :: "(string \<rightharpoonup> jsval) \<Rightarrow> app \<Rightarrow> app" where
  "setResumeData m st =
     (let (a, h) = alloc (heap st) (Obj m) in st\<lparr>heap := h, resumeData := a\<rparr>)"

text \<open>
  \<^verbatim>\<open>updateResumeData(section, data)\<close>, lines 106-120. The section is a string or
  \<^verbatim>\<open>null\<close> (\<open>None\<close>). With \<^verbatim>\<open>null\<close> the properties of \<^verbatim>\<open>data\<close> are spread over
  those of the previous document; otherwise the one property \<^verbatim>\<open>[section]\<close> is set.
\<close>

definition updateResumeData :: "string option \<Rightarrow> jsval \<Rightarrow> app \<Rightarrow> app" where
  "updateResumeData section data st =
     (case section of
        None \<Rightarrow> setResumeData (props st ++ own_props (heap st) data) st
      | Some s \<Rightarrow> setResumeData ((props st)(s \<mapsto> data)) st)"

text \<open>The initial value of \<^verbatim>\<open>resumeData\<close>, lines 25-54.\<close>

definition initial_app :: app where
  "initial_app =
     \<lparr>heap =
        [Arr [JStr ''''],
         Obj [''company'' \<mapsto> JStr '''', ''position'' \<mapsto> JStr '''',
              ''duration'' \<mapsto> JStr '''', ''responsibilities'' \<mapsto> JRef 0],
         Arr [JRef 1],
         Obj [''institution'' \<mapsto> JStr '''', ''degree'' \<mapsto> JStr '''', ''year'' \<mapsto> JStr ''''],
         Arr [JRef 3],
         Arr [],
         Obj [''name'' \<mapsto> JStr '''', ''title'' \<mapsto> JStr '''', ''phone'' \<mapsto> JStr '''',
              ''email'' \<mapsto> JStr '''', ''location'' \<mapsto> JStr '''', ''website'' \<mapsto> JStr '''',
              ''summary'' \<mapsto> JStr '''', ''experiences'' \<mapsto> JRef 2,
              ''education'' \<mapsto> JRef 4, ''skills'' \<mapsto> JRef 5]],
      resumeData = 6\<rparr>"

section \<open>Reading the document in the section editors\<close>

text \<open>
  A handler of a section editor either returns the new state or throws. The editors read
  \<^verbatim>\<open>data.experiences\<close>, \<^verbatim>\<open>data.education\<close> and \<^verbatim>\<open>data.skills\<close> as arrays and the
  elements of \<^verbatim>\<open>data.experiences\<close> as objects. On \<^verbatim>\<open>undefined\<close> and \<^verbatim>\<open>null\<close> such a
  read throws a \<^verbatim>\<open>TypeError\<close>. What JavaScript does when the value has another type
  (a string, a boolean, an object where an array is expected) depends on its coercion
  rules and is not modelled: the result is \<open>Unmodelled\<close>, about which nothing is claimed.
\<close>

datatype error = TypeError | Unmodelled

definition as_array :: "store \<Rightarrow> jsval \<Rightarrow> error + jsval list" where
  "as_array h v =
     (case v of
        JUndefined \<Rightarrow> Inl TypeError
      | JNull \<Rightarrow> Inl TypeError
      | JRef a \<Rightarrow> (case cell_at h a of Some (Arr xs) \<Rightarrow> Inr xs | _ \<Rightarrow> Inl Unmodelled)
      | _ \<Rightarrow> Inl Unmodelled)"

definition as_object :: "store \<Rightarrow> jsval \<Rightarrow> error + addr \<times> (string \<rightharpoonup> jsval)" where
  "as_object h v =
     (case v of
        JUndefined \<Rightarrow> Inl TypeError
      | JNull \<Rightarrow> Inl TypeError
      | JRef a \<Rightarrow> (case cell_at h a of Some (Obj m) \<Rightarrow> Inr (a, m) | _ \<Rightarrow> Inl Unmodelled)
      | _ \<Rightarrow> Inl Unmodelled)"

text \<open>The same read of an array that is then changed in place: its address is kept.\<close>

definition as_array_ref :: "store \<Rightarrow> jsval \<Rightarrow> error + addr \<times> jsval list" where
  "as_array_ref h v =
     (case v of
        JUndefined \<Rightarrow> Inl TypeError
      | JNull \<Rightarrow> Inl TypeError
      | JRef a \<Rightarrow> (case cell_at h a of Some (Arr xs) \<Rightarrow> Inr (a, xs) | _ \<Rightarrow> Inl Unmodelled)
      | _ \<Rightarrow> Inl Unmodelled)"

text \<open>An element read \<^verbatim>\<open>xs[i]\<close>: \<^verbatim>\<open>undefined\<close> out of range.\<close>

definition elem :: "jsval list \<Rightarrow> nat \<Rightarrow> jsval" where
  "elem xs i = (if i < length xs then xs ! i else JUndefined)"

text \<open>A property read \<^verbatim>\<open>o.k\<close> on the property table of an object.\<close>

definition obj_get :: "(string \<rightharpoonup> jsval) \<Rightarrow> string \<Rightarrow> jsval" where
  "obj_get m k = (case m k of Some v \<Rightarrow> v | None \<Rightarrow> JUndefined)"

text \<open>
  \<^verbatim>\<open>xs.filter((_, i) => i !== index)\<close>: the elements whose position is not \<open>index\<close>, in
  order. The first argument is the position of the head of the list.
\<close>

fun drop_index :: "nat \<Rightarrow> nat \<Rightarrow> 'a list \<Rightarrow> 'a list" where
  "drop_index i index [] = []"
| "drop_index i index (x # xs) =
     (if i \<noteq> index then x # drop_index (Suc i) index xs else drop_index (Suc i) index xs)"

text \<open>
  An element assignment \<^verbatim>\<open>xs[i] = v\<close>: beyond the end the array grows, and the
  positions in between are holes, which read as \<^verbatim>\<open>undefined\<close>.
\<close>

definition set_elem :: "jsval list \<Rightarrow> nat \<Rightarrow> jsval \<Rightarrow> jsval list" where
  "set_elem xs i v =
     (if i < length xs then xs[i := v]
      else xs @ replicate (i - length xs) JUndefined @ [v])"

section \<open>The experience editor (src/components/Experience.jsx)\<close>

text \<open>
  The handlers read the document of the current state (\<^verbatim>\<open>data\<close> is \<^verbatim>\<open>resumeData\<close> of
  the last render) and hand a new section to \<^verbatim>\<open>updateData\<close>, which is
  \<^verbatim>\<open>updateResumeData\<close>. Indices are the positions the list rendering passes to the
  handlers, hence natural numbers.
\<close>

text \<open>
  \<^verbatim>\<open>handleExperienceChange(index, e)\<close>, lines 21-26, with \<^verbatim>\<open>name\<close> and \<^verbatim>\<open>value\<close>
  of \<^verbatim>\<open>e.target\<close>. The array is a shallow copy, the entry is changed in place.
\<close>

definition handleExperienceChange :: "nat \<Rightarrow> string \<Rightarrow> string \<Rightarrow> app \<Rightarrow> error + app" where
  "handleExperienceChange index name value st =
     (case as_array (heap st) (data_field st ''experiences'') of
        Inl e \<Rightarrow> Inl e
      | Inr experiences \<Rightarrow>
          (let (newExperiences, h1) = alloc (heap st) (Arr experiences) in
           case as_object h1 (elem experiences index) of
             Inl e \<Rightarrow> Inl e
           | Inr (entry, m) \<Rightarrow>
               (let h2 = h1[entry := Obj (m(name \<mapsto> JStr value))]
                in Inr (updateResumeData (Some ''experiences'') (JRef newExperiences)
                          (st\<lparr>heap := h2\<rparr>)))))"

text \<open>\<^verbatim>\<open>handleResponsibilityChange(expIndex, respIndex, e)\<close>, lines 34-38.\<close>

definition handleResponsibilityChange :: "nat \<Rightarrow> nat \<Rightarrow> string \<Rightarrow> app \<Rightarrow> error + app" where
  "handleResponsibilityChange expIndex respIndex value st =
     (case as_array (heap st) (data_field st ''experiences'') of
        Inl e \<Rightarrow> Inl e
      | Inr experiences \<Rightarrow>
          (let (newExperiences, h1) = alloc (heap st) (Arr experiences) in
           case as_object h1 (elem experiences expIndex) of
             Inl e \<Rightarrow> Inl e
           | Inr (entry, m) \<Rightarrow>
               (case as_array_ref h1 (obj_get m ''responsibilities'') of
                  Inl e \<Rightarrow> Inl e
                | Inr (r, responsibilities) \<Rightarrow>
                    (let h2 = h1[r := Arr (set_elem responsibilities respIndex (JStr value))]
                     in Inr (updateResumeData (Some ''experiences'') (JRef newExperiences)
                               (st\<lparr>heap := h2\<rparr>))))))"

text \<open>\<^verbatim>\<open>addExperience()\<close>, lines 43-53.\<close>

definition addExperience :: "app \<Rightarrow> error + app" where
  "addExperience st =
     (case as_array (heap st) (data_field st ''experiences'') of
        Inl e \<Rightarrow> Inl e
      | Inr experiences \<Rightarrow>
          (let (r, h1) = alloc (heap st) (Arr [JStr '''']);
               (entry, h2) = alloc h1
                  (Obj [''company'' \<mapsto> JStr '''', ''position'' \<mapsto> JStr '''',
                        ''duration'' \<mapsto> JStr '''', ''responsibilities'' \<mapsto> JRef r]);
               (newExperiences, h3) = alloc h2 (Arr (experiences @ [JRef entry]))
           in Inr (updateResumeData (Some ''experiences'') (JRef newExperiences)
                     (st\<lparr>heap := h3\<rparr>))))"

text \<open>\<^verbatim>\<open>addResponsibility(index)\<close>, lines 59-63: \<^verbatim>\<open>push\<close> extends the array in place.\<close>

definition addResponsibility :: "nat \<Rightarrow> app \<Rightarrow> error + app" where
  "addResponsibility index st =
     (case as_array (heap st) (data_field st ''experiences'') of
        Inl e \<Rightarrow> Inl e
      | Inr experiences \<Rightarrow>
          (let (newExperiences, h1) = alloc (heap st) (Arr experiences) in
           case as_object h1 (elem experiences index) of
             Inl e \<Rightarrow> Inl e
           | Inr (entry, m) \<Rightarrow>
               (case as_array_ref h1 (obj_get m ''responsibilities'') of
                  Inl e \<Rightarrow> Inl e
                | Inr (r, responsibilities) \<Rightarrow>
                    (let h2 = h1[r := Arr (responsibilities @ [JStr ''''])]
                     in Inr (updateResumeData (Some ''experiences'') (JRef newExperiences)
                               (st\<lparr>heap := h2\<rparr>))))))"

text \<open>\<^verbatim>\<open>removeExperience(index)\<close>, lines 69-74.\<close>

definition removeExperience :: "nat \<Rightarrow> app \<Rightarrow> error + app" where
  "removeExperience index st =
     (case as_array (heap st) (data_field st ''experiences'') of
        Inl e \<Rightarrow> Inl e
      | Inr experiences \<Rightarrow>
          if length experiences > 1 then
            (let (newExperiences, h) = alloc (heap st) (Arr (drop_index 0 index experiences))
             in Inr (updateResumeData (Some ''experiences'') (JRef newExperiences)
                       (st\<lparr>heap := h\<rparr>)))
          else Inr st)"

text \<open>
  \<^verbatim>\<open>removeResponsibility(expIndex, respIndex)\<close>, lines 81-87. The array
  \<^verbatim>\<open>newExperiences\<close> is a shallow copy, so its elements are the experience objects of
  the document themselves, and the assignment to \<^verbatim>\<open>.responsibilities\<close> changes such an
  object in place.
\<close>

definition removeResponsibility :: "nat \<Rightarrow> nat \<Rightarrow> app \<Rightarrow> error + app" where
  "removeResponsibility expIndex respIndex st =
     (case as_array (heap st) (data_field st ''experiences'') of
        Inl e \<Rightarrow> Inl e
      | Inr experiences \<Rightarrow>
          (let (newExperiences, h1) = alloc (heap st) (Arr experiences) in
           case as_object h1 (elem experiences expIndex) of
             Inl e \<Rightarrow> Inl e
           | Inr (entry, m) \<Rightarrow>
               (case as_array h1 (obj_get m ''responsibilities'') of
                  Inl e \<Rightarrow> Inl e
                | Inr responsibilities \<Rightarrow>
                    if length responsibilities > 1 then
                      (let (filtered, h2) =
                             alloc h1 (Arr (drop_index 0 respIndex responsibilities));
                           h3 = h2[entry := Obj (m(''responsibilities'' \<mapsto> JRef filtered))]
                       in Inr (updateResumeData (Some ''experiences'') (JRef newExperiences)
                                 (st\<lparr>heap := h3\<rparr>)))
                    else Inr (st\<lparr>heap := h1\<rparr>))))"

section \<open>The education editor (src/components/Education.jsx)\<close>

text \<open>\<^verbatim>\<open>removeEducation(index)\<close>, lines 46-51.\<close>

definition removeEducation :: "nat \<Rightarrow> app \<Rightarrow> error + app" where
  "removeEducation index st =
     (case as_array (heap st) (data_field st ''education'') of
        Inl e \<Rightarrow> Inl e
      | Inr education \<Rightarrow>
          if length education > 1 then
            (let (newEducation, h) = alloc (heap st) (Arr (drop_index 0 index education))
             in Inr (updateResumeData (Some ''education'') (JRef newEducation)
                       (st\<lparr>heap := h\<rparr>)))
          else Inr st)"

section \<open>The skills editor (Skills component)\<close>

text \<open>
  \<^verbatim>\<open>String.prototype.trim\<close> removes white space and line terminators at both ends;
  among the code units below 256 these are TAB, LF, VT, FF, CR, SP and NBSP.
\<close>

definition js_space :: "char \<Rightarrow> bool" where
  "js_space c = ((of_char c :: nat) \<in> {9, 10, 11, 12, 13, 32, 160})"

definition trim :: "string \<Rightarrow> string" where
  "trim s = rev (dropWhile js_space (rev (dropWhile js_space s)))"

text \<open>The local state of the component: the text of the input and the suggestion panel.\<close>

record skills_ui =
  newSkill :: string
  showSuggestions :: bool

text \<open>
  \<^verbatim>\<open>handleAddSkill()\<close>, lines 50-58. The conjunction is evaluated left to right, so
  \<^verbatim>\<open>data.skills\<close> is read only when the trimmed text is not empty.
  \<^verbatim>\<open>includes\<close> compares a string with the elements by value.
\<close>

definition handleAddSkill :: "skills_ui \<Rightarrow> app \<Rightarrow> error + skills_ui \<times> app" where
  "handleAddSkill ui st =
     (let trimmedSkill = trim (newSkill ui) in
      if trimmedSkill \<noteq> '''' then
        (case as_array (heap st) (data_field st ''skills'') of
           Inl e \<Rightarrow> Inl e
         | Inr skills \<Rightarrow>
             if JStr trimmedSkill \<notin> set skills then
               (let (a, h) = alloc (heap st) (Arr (skills @ [JStr trimmedSkill]))
                in Inr (ui\<lparr>newSkill := '''', showSuggestions := False\<rparr>,
                        updateResumeData (Some ''skills'') (JRef a) (st\<lparr>heap := h\<rparr>)))
             else Inr (ui, st))
      else Inr (ui, st))"

text \<open>\<^verbatim>\<open>handleRemoveSkill(index)\<close>, lines 64-67.\<close>

definition handleRemoveSkill :: "nat \<Rightarrow> app \<Rightarrow> error + app" where
  "handleRemoveSkill index st =
     (case as_array (heap st) (data_field st ''skills'') of
        Inl e \<Rightarrow> Inl e
      | Inr skills \<Rightarrow>
          (let (newSkills, h) = alloc (heap st) (Arr (drop_index 0 index skills))
           in Inr (updateResumeData (Some ''skills'') (JRef newSkills) (st\<lparr>heap := h\<rparr>))))"

text \<open>\<^verbatim>\<open>addSuggestion(skill)\<close>, lines 73-77: the suggestion is taken as it is.\<close>

definition addSuggestion :: "string \<Rightarrow> app \<Rightarrow> error + app" where
  "addSuggestion skill st =
     (case as_array (heap st) (data_field st ''skills'') of
        Inl e \<Rightarrow> Inl e
      | Inr skills \<Rightarrow>
          if JStr skill \<notin> set skills then
            (let (a, h) = alloc (heap st) (Arr (skills @ [JStr skill]))
             in Inr (updateResumeData (Some ''skills'') (JRef a) (st\<lparr>heap := h\<rparr>)))
          else Inr st)"

text \<open>The suggestions offered by the component, lines 19-44, in the order of the source.\<close>

definition skillCategories :: "(string \<times> string list) list" where
  "skillCategories =
     [(''Programming Languages'',
        [''JavaScript'', ''Python'', ''Java'', ''C++'', ''TypeScript'', ''Go'', ''Rust'',
         ''PHP'', ''Swift'', ''Kotlin'']),
      (''Web Development'',
        [''React'', ''Vue.js'', ''Angular'', ''Node.js'', ''Express.js'', ''HTML5'', ''CSS3'',
         ''SASS'', ''Bootstrap'', ''jQuery'']),
      (''Mobile Development'',
        [''React Native'', ''Flutter'', ''iOS Development'', ''Android Development'',
         ''Xamarin'']),
      (''Databases'',
        [''MongoDB'', ''MySQL'', ''PostgreSQL'', ''Redis'', ''Firebase'', ''SQLite'',
         ''Oracle'']),
      (''Cloud & DevOps'',
        [''AWS'', ''Azure'', ''Google Cloud'', ''Docker'', ''Kubernetes'', ''Jenkins'', ''Git'',
         ''Linux'']),
      (''Design & Creative'',
        [''Adobe Photoshop'', ''Adobe Illustrator'', ''Figma'', ''Sketch'', ''UI/UX Design'',
         ''Graphic Design'']),
      (''Data Science'',
        [''Machine Learning'', ''Data Analysis'', ''TensorFlow'', ''PyTorch'', ''Pandas'',
         ''NumPy'', ''R'']),
      (''Soft Skills'',
        [''Team Leadership'', ''Project Management'', ''Communication'', ''Problem Solving'',
         ''Critical Thinking''])]"

definition suggestions :: "string list" where
  "suggestions = concat (map snd skillCategories)"

section \<open>The sections of a document\<close>

text \<open>
  The sequence held by a section of the current document, and the responsibilities of its
  \<open>i\<close>-th experience entry; both are \<open>Inl\<close> when the document has no such array.
\<close>

definition section_array :: "app \<Rightarrow> string \<Rightarrow> error + jsval list" where
  "section_array st k = as_array (heap st) (data_field st k)"

definition responsibilities_of :: "app \<Rightarrow> nat \<Rightarrow> error + jsval list" where
  "responsibilities_of st i =
     (case section_array st ''experiences'' of
        Inl e \<Rightarrow> Inl e
      | Inr experiences \<Rightarrow>
          (case as_object (heap st) (elem experiences i) of
             Inl e \<Rightarrow> Inl e
           | Inr (entry, m) \<Rightarrow> as_array (heap st) (obj_get m ''responsibilities'')))"

text \<open>Both list-shaped sections of the document are arrays with at least one entry.\<close>

definition nonempty_sections :: "app \<Rightarrow> bool" where
  "nonempty_sections st =
     ((case section_array st ''experiences'' of Inr xs \<Rightarrow> xs \<noteq> [] | Inl e \<Rightarrow> False)
      \<and> (case section_array st ''education'' of Inr ys \<Rightarrow> ys \<noteq> [] | Inl e \<Rightarrow> False))"

text \<open>The states that a run of remove operations of the editors leads to.\<close>

inductive removals :: "app \<Rightarrow> app \<Rightarrow> bool" where
  removals_none: "removals st st"
| removals_experience:
    "removals st st1 \<Longrightarrow> removeExperience i st1 = Inr st2 \<Longrightarrow> removals st st2"
| removals_education:
    "removals st st1 \<Longrightarrow> removeEducation i st1 = Inr st2 \<Longrightarrow> removals st st2"
| removals_responsibility:
    "removals st st1 \<Longrightarrow> removeResponsibility i j st1 = Inr st2 \<Longrightarrow> removals st st2"
| removals_skill:
    "removals st st1 \<Longrightarrow> handleRemoveSkill i st1 = Inr st2 \<Longrightarrow> removals st st2"

text \<open>The state after the assignment and the update in \<^verbatim>\<open>removeResponsibility\<close>.\<close>

definition removed :: "app \<Rightarrow> jsval list \<Rightarrow> addr \<Rightarrow> (string \<rightharpoonup> jsval) \<Rightarrow> jsval list \<Rightarrow> app" where
  "removed st exps entry m filt =
     updateResumeData (Some ''experiences'') (JRef (length (heap st)))
       (st\<lparr>heap := (heap st @ [Arr exps, Arr filt])
          [entry := Obj (m(''responsibilities'' \<mapsto> JRef (Suc (length (heap st)))))]\<rparr>)"

text \<open>
  Every experience entry of the document is an object whose \<^verbatim>\<open>responsibilities\<close> is an
  array with at least one element.
\<close>

definition responsibilities_nonempty :: "app \<Rightarrow> bool" where
  "responsibilities_nonempty st =
     (case section_array st ''experiences'' of
        Inl e \<Rightarrow> False
      | Inr experiences \<Rightarrow>
          (\<forall>i < length experiences.
             case responsibilities_of st i of Inr rs \<Rightarrow> rs \<noteq> [] | Inl e \<Rightarrow> False))"

text \<open>The states that a run of handlers of the experience editor leads to. The change
  handler is called by the three inputs of an entry, whose names are fixed.\<close>

inductive experience_edits :: "app \<Rightarrow> app \<Rightarrow> bool" where
  edits_none: "experience_edits st st"
| edits_change:
    "experience_edits st st1 \<Longrightarrow> name \<in> {''company'', ''position'', ''duration''} \<Longrightarrow>
     handleExperienceChange i name value st1 = Inr st2 \<Longrightarrow> experience_edits st st2"
| edits_responsibility:
    "experience_edits st st1 \<Longrightarrow> handleResponsibilityChange i j value st1 = Inr st2 \<Longrightarrow>
     experience_edits st st2"
| edits_add: "experience_edits st st1 \<Longrightarrow> addExperience st1 = Inr st2 \<Longrightarrow> experience_edits st st2"
| edits_add_responsibility:
    "experience_edits st st1 \<Longrightarrow> addResponsibility i st1 = Inr st2 \<Longrightarrow> experience_edits st st2"
| edits_remove:
    "experience_edits st st1 \<Longrightarrow> removeExperience i st1 = Inr st2 \<Longrightarrow> experience_edits st st2"
| edits_remove_responsibility:
    "experience_edits st st1 \<Longrightarrow> removeResponsibility i j st1 = Inr st2 \<Longrightarrow>
     experience_edits st st2"

text \<open>
  For the proofs: an entry whose responsibilities are an array that is not empty, and a
  change of the store that keeps arrays, their being non-empty, and such entries.
\<close>

definition good_entry :: "store \<Rightarrow> jsval \<Rightarrow> bool" where
  "good_entry h v =
     (case as_object h v of
        Inl e \<Rightarrow> False
      | Inr (entry, m) \<Rightarrow>
          (case as_array h (obj_get m ''responsibilities'') of
             Inl e \<Rightarrow> False
           | Inr rs \<Rightarrow> rs \<noteq> []))"

definition evolves :: "store \<Rightarrow> store \<Rightarrow> bool" where
  "evolves h h' \<longleftrightarrow>
     (\<forall>a xs. cell_at h a = Some (Arr xs) \<longrightarrow>
        (\<exists>xs'. cell_at h' a = Some (Arr xs') \<and> (xs \<noteq> [] \<longrightarrow> xs' \<noteq> [])))
     \<and> (\<forall>v. good_entry h v \<longrightarrow> good_entry h' v)"

section \<open>JSON documents at the persistence gateway\<close>

text \<open>
  The preview component and the resume service (\<^verbatim>\<open>resumeService\<close>) see the document
  through property reads and through \<^verbatim>\<open>JSON.stringify\<close>, so there it is the JSON value
  it serialises to. A property that is \<^verbatim>\<open>undefined\<close> is absent from the list of
  properties. Numbers are integers.
\<close>

datatype json =
  JsonNull | JsonBool bool | JsonNum int | JsonStr string
  | JsonArr "json list" | JsonObj "(string \<times> json) list"

type_synonym document = "(string \<times> json) list"

text \<open>The test \<^verbatim>\<open>if (v)\<close> on the result of a property read; \<open>None\<close> is \<^verbatim>\<open>undefined\<close>.\<close>

fun truthy :: "json option \<Rightarrow> bool" where
  "truthy None = False"
| "truthy (Some JsonNull) = False"
| "truthy (Some (JsonBool b)) = b"
| "truthy (Some (JsonNum n)) = (n \<noteq> 0)"
| "truthy (Some (JsonStr s)) = (s \<noteq> '''')"
| "truthy (Some (JsonArr xs)) = True"
| "truthy (Some (JsonObj ps)) = True"

text \<open>
  \<^verbatim>\<open>{...o, [k]: v}\<close> on the properties of an object: an existing property keeps its
  place and takes the new value, a new one comes last.
\<close>

fun set_prop :: "string \<Rightarrow> json \<Rightarrow> document \<Rightarrow> document" where
  "set_prop k v [] = [(k, v)]"
| "set_prop k v (p # ps) = (if fst p = k then (k, v) # ps else p # set_prop k v ps)"

subsection \<open>JSON texts\<close>

text \<open>
  \<^verbatim>\<open>JSON.stringify\<close> and \<^verbatim>\<open>JSON.parse\<close> belong to the runtime; they are written out
  here as ECMA-262 defines them, on the values above. A string is a list of code units
  below 256. The control characters, the quotation mark and the backslash are escaped
  when a string is serialised; the others are written as they are.
\<close>

fun join :: "string \<Rightarrow> string list \<Rightarrow> string" where
  "join sep [] = ''''"
| "join sep [x] = x"
| "join sep (x # y # ys) = x @ sep @ join sep (y # ys)"

definition hex4 :: "nat \<Rightarrow> string" where
  "hex4 n = map (\<lambda>d. ''0123456789abcdef'' ! (n div d mod 16)) [4096, 256, 16, 1]"

definition escape :: "char \<Rightarrow> string" where
  "escape c =
     (if c = CHR 0x22 then [CHR 0x5C, CHR 0x22]
      else if c = CHR 0x5C then [CHR 0x5C, CHR 0x5C]
      else if c = CHR 0x08 then [CHR 0x5C, CHR ''b'']
      else if c = CHR 0x0C then [CHR 0x5C, CHR ''f'']
      else if c = CHR 0x0A then [CHR 0x5C, CHR ''n'']
      else if c = CHR 0x0D then [CHR 0x5C, CHR ''r'']
      else if c = CHR 0x09 then [CHR 0x5C, CHR ''t'']
      else if of_char c < (32 :: nat) then [CHR 0x5C, CHR ''u''] @ hex4 (of_char c)
      else [c])"

definition quote :: "string \<Rightarrow> string" where
  "quote s = CHR 0x22 # concat (map escape s) @ [CHR 0x22]"

definition show_int :: "int \<Rightarrow> string" where
  "show_int n = (if n < 0 then CHR ''-'' # dec (nat (- n)) else dec (nat n))"

text \<open>\<^verbatim>\<open>JSON.stringify(value)\<close>, without indentation.\<close>

fun JSON_stringify :: "json \<Rightarrow> string" where
  "JSON_stringify JsonNull = ''null''"
| "JSON_stringify (JsonBool b) = (if b then ''true'' else ''false'')"
| "JSON_stringify (JsonNum n) = show_int n"
| "JSON_stringify (JsonStr s) = quote s"
| "JSON_stringify (JsonArr xs) = ''['' @ join '','' (map JSON_stringify xs) @ '']''"
| "JSON_stringify (JsonObj ps) =
     ''{'' @ join '','' (map (\<lambda>(k, v). quote k @ '':'' @ JSON_stringify v) ps) @ ''}''"

text \<open>
  The result of reading a text: a value, the \<^verbatim>\<open>SyntaxError\<close> that \<^verbatim>\<open>JSON.parse\<close> throws,
  or \<open>OutOfRange\<close> when the text holds what the values above cannot express (a number
  with a fraction or an exponent, a negative zero or an integer of magnitude \<^verbatim>\<open>2^53\<close> or
  more, a code unit above 255, a property whose name is a numeral, which JavaScript moves
  to the front of the object). What \<^verbatim>\<open>JSON.parse\<close> does with such a text is not modelled.
\<close>

datatype 'a parsed = Parsed 'a | SyntaxError | OutOfRange

definition digit :: "char \<Rightarrow> bool" where
  "digit c = (c \<in> set ''0123456789'')"

definition hex_value :: "char \<Rightarrow> nat option" where
  "hex_value c =
     (if digit c then Some (of_char c - 48)
      else if c \<in> set ''abcdef'' then Some (of_char c - 87)
      else if c \<in> set ''ABCDEF'' then Some (of_char c - 55)
      else None)"

definition unescape :: "char \<Rightarrow> char option" where
  "unescape e =
     map_of [(CHR 0x22, CHR 0x22), (CHR 0x5C, CHR 0x5C), (CHR ''/'', CHR ''/''),
             (CHR ''b'', CHR 0x08), (CHR ''f'', CHR 0x0C), (CHR ''n'', CHR 0x0A),
             (CHR ''r'', CHR 0x0D), (CHR ''t'', CHR 0x09)] e"

text \<open>
  The characters of a string after its opening quotation mark: the string, and the number
  of characters read, the closing quotation mark included.
\<close>

definition consume :: "char \<Rightarrow> nat \<Rightarrow> (string \<times> nat) parsed \<Rightarrow> (string \<times> nat) parsed" where
  "consume c k r = (case r of Parsed (s, n) \<Rightarrow> Parsed (c # s, n + k)
                    | SyntaxError \<Rightarrow> SyntaxError | OutOfRange \<Rightarrow> OutOfRange)"

fun scan_string :: "string \<Rightarrow> (string \<times> nat) parsed" where
  "scan_string [] = SyntaxError"
| "scan_string (c # s) =
     (if c = CHR 0x22 then Parsed ([], 1)
      else if c = CHR 0x5C then
        (case s of
           [] \<Rightarrow> SyntaxError
         | e # s' \<Rightarrow>
             if e = CHR ''u'' then
               (case s' of
                  h1 # h2 # h3 # h4 # s'' \<Rightarrow>
                    (case (hex_value h1, hex_value h2, hex_value h3, hex_value h4) of
                       (Some a, Some b, Some c, Some d) \<Rightarrow>
                         if a = 0 \<and> b = 0 then consume (char_of (16 * c + d)) 6 (scan_string s'')
                         else OutOfRange
                     | _ \<Rightarrow> SyntaxError)
                | _ \<Rightarrow> SyntaxError)
             else
               (case unescape e of
                  None \<Rightarrow> SyntaxError
                | Some d \<Rightarrow> consume d 2 (scan_string s')))
      else if of_char c < (32 :: nat) then SyntaxError
      else consume c 1 (scan_string s))"

text \<open>
  A number at the head of a text: its value and the number of characters read. A sign
  needs a digit after it, and an integer part of several digits does not start with zero.
\<close>

definition digits_value :: "string \<Rightarrow> int" where
  "digits_value ds = foldl (\<lambda>a c. 10 * a + (of_char c - 48)) 0 ds"

definition scan_number :: "string \<Rightarrow> (int \<times> nat) parsed" where
  "scan_number s =
     (let negative = (s \<noteq> [] \<and> hd s = CHR ''-'');
          t = (if negative then tl s else s);
          ds = takeWhile digit t;
          after = dropWhile digit t;
          n = digits_value ds
      in if ds = [] then SyntaxError
         else if hd ds = CHR ''0'' \<and> 1 < length ds then SyntaxError
         else if after \<noteq> [] \<and> hd after \<in> set ''.eE'' then OutOfRange
         else if 2 ^ 53 \<le> n \<or> (negative \<and> n = 0) then OutOfRange
         else Parsed (if negative then - n else n, length ds + (if negative then 1 else 0)))"

text \<open>
  \<^verbatim>\<open>JSON.parse(text)\<close> reads the text from left to right. The state is what the grammar
  expects next and the arrays and objects that are open, innermost first: an array with
  the elements read so far, an object with its properties so far and the name of the
  property whose value is being read. A property that a text names twice keeps its place
  and takes the later value. White space is skipped between the tokens.
\<close>

datatype frame = InArr "json list" | InObj "(string \<times> json) list" string

datatype expect =
  Value | ArrOpen | ObjOpen | Key "(string \<times> json) list"
  | Colon "(string \<times> json) list" string | Done json

definition ws :: "char \<Rightarrow> bool" where
  "ws c = (c \<in> {CHR 0x20, CHR 0x09, CHR 0x0A, CHR 0x0D})"

definition numeral_key :: "string \<Rightarrow> bool" where
  "numeral_key k = (k \<noteq> [] \<and> list_all digit k)"

function parse_json :: "expect \<Rightarrow> frame list \<Rightarrow> string \<Rightarrow> json parsed" where
  "parse_json e fs [] = (case (e, fs) of (Done v, []) \<Rightarrow> Parsed v | _ \<Rightarrow> SyntaxError)"
| "parse_json e fs (c # s) =
     (if ws c then parse_json e fs s
      else case e of
        Done v \<Rightarrow>
          (case fs of
             [] \<Rightarrow> SyntaxError
           | InArr acc # fs' \<Rightarrow>
               if c = CHR '','' then parse_json Value (InArr (acc @ [v]) # fs') s
               else if c = CHR '']'' then parse_json (Done (JsonArr (acc @ [v]))) fs' s
               else SyntaxError
           | InObj acc k # fs' \<Rightarrow>
               if c = CHR '','' then parse_json (Key (set_prop k v acc)) fs' s
               else if c = CHR ''}'' then parse_json (Done (JsonObj (set_prop k v acc))) fs' s
               else SyntaxError)
      | ArrOpen \<Rightarrow>
          if c = CHR '']'' then parse_json (Done (JsonArr [])) fs s
          else parse_json Value (InArr [] # fs) (c # s)
      | ObjOpen \<Rightarrow>
          if c = CHR ''}'' then parse_json (Done (JsonObj [])) fs s
          else parse_json (Key []) fs (c # s)
      | Key acc \<Rightarrow>
          if c = CHR 0x22 then
            (case scan_string s of
               Parsed (k, n) \<Rightarrow>
                 if numeral_key k then OutOfRange else parse_json (Colon acc k) fs (drop n s)
             | SyntaxError \<Rightarrow> SyntaxError
             | OutOfRange \<Rightarrow> OutOfRange)
          else SyntaxError
      | Colon acc k \<Rightarrow>
          if c = CHR '':'' then parse_json Value (InObj acc k # fs) s else SyntaxError
      | Value \<Rightarrow>
          if c = CHR ''['' then parse_json ArrOpen fs s
          else if c = CHR ''{'' then parse_json ObjOpen fs s
          else if c = CHR 0x22 then
            (case scan_string s of
               Parsed (str, n) \<Rightarrow> parse_json (Done (JsonStr str)) fs (drop n s)
             | SyntaxError \<Rightarrow> SyntaxError
             | OutOfRange \<Rightarrow> OutOfRange)
          else if c = CHR ''-'' \<or> digit c then
            (case scan_number (c # s) of
               Parsed (n, k) \<Rightarrow> parse_json (Done (JsonNum n)) fs (drop (k - 1) s)
             | SyntaxError \<Rightarrow> SyntaxError
             | OutOfRange \<Rightarrow> OutOfRange)
          else if take 4 (c # s) = ''true'' then parse_json (Done (JsonBool True)) fs (drop 3 s)
          else if take 5 (c # s) = ''false'' then parse_json (Done (JsonBool False)) fs (drop 4 s)
          else if take 4 (c # s) = ''null'' then parse_json (Done JsonNull) fs (drop 3 s)
          else SyntaxError)"
  by pat_completeness auto
termination
  apply (relation "measures [\<lambda>(e, fs, s). length s,
                             \<lambda>(e, fs, s). case e of ArrOpen \<Rightarrow> 1 | ObjOpen \<Rightarrow> 1 | _ \<Rightarrow> 0]")
  apply auto
  done

declare parse_json.simps [simp del]

definition JSON_parse :: "string \<Rightarrow> json parsed" where
  "JSON_parse text = parse_json Value [] text"

text \<open>
  The values that stand for JavaScript data: an integer is one that JavaScript holds
  exactly, and the names of the properties of an object are distinct and are not numerals.
\<close>

fun proper :: "json \<Rightarrow> bool" where
  "proper (JsonNum n) = (\<bar>n\<bar> < 2 ^ 53)"
| "proper (JsonArr xs) = (\<forall>x \<in> set xs. proper x)"
| "proper (JsonObj ps) =
     (distinct (map fst ps) \<and> (\<forall>p \<in> set ps. \<not> numeral_key (fst p) \<and> proper (snd p)))"
| "proper v = True"

text \<open>What may come after a value inside a text: the end, a comma or a closing bracket.\<close>

definition follow :: "string \<Rightarrow> bool" where
  "follow t = (t = [] \<or> hd t \<in> set '',]}'')"

subsection \<open>Local storage\<close>

text \<open>
  The browser's \<^verbatim>\<open>localStorage\<close>: the stored items, and whether the browser accepts a
  write (it throws when the quota is exceeded or storage is disabled). The service reaches
  \<^verbatim>\<open>JSON.stringify\<close> and \<^verbatim>\<open>JSON.parse\<close> through the global object \<^verbatim>\<open>JSON\<close>, which the
  functions below take as an argument.
\<close>

record local_storage =
  items :: "string \<rightharpoonup> string"
  accepts :: "string \<Rightarrow> string \<Rightarrow> bool"

record json_codec =
  stringify :: "json \<Rightarrow> string"
  parse :: "string \<Rightarrow> json parsed"

definition JSON :: json_codec where
  "JSON = \<lparr>stringify = JSON_stringify, parse = JSON_parse\<rparr>"

definition setItem :: "string \<Rightarrow> string \<Rightarrow> local_storage \<Rightarrow> local_storage option" where
  "setItem k v ls = (if accepts ls k v then Some (ls\<lparr>items := (items ls)(k \<mapsto> v)\<rparr>) else None)"

definition getItem :: "string \<Rightarrow> local_storage \<Rightarrow> string option" where
  "getItem k ls = items ls k"

text \<open>The default parameter \<^verbatim>\<open>key = 'resumeBackup'\<close>; \<open>None\<close> is an omitted argument.\<close>

definition storage_key :: "string option \<Rightarrow> string" where
  "storage_key key = (case key of None \<Rightarrow> ''resumeBackup'' | Some k \<Rightarrow> k)"

text \<open>
  \<^verbatim>\<open>saveToLocalStorage(resumeData, key)\<close>, lines 393-406 of the service; \<open>stamp\<close> is
  \<^verbatim>\<open>new Date().toISOString()\<close>. An exception of \<^verbatim>\<open>setItem\<close> is caught and logged.
\<close>

definition saveToLocalStorage ::
    "json_codec \<Rightarrow> string \<Rightarrow> document \<Rightarrow> string option \<Rightarrow> local_storage \<Rightarrow> local_storage" where
  "saveToLocalStorage codec stamp resume_data key ls =
     (let dataToSave = set_prop ''lastSaved'' (JsonStr stamp) resume_data in
      case setItem (storage_key key) (stringify codec (JsonObj dataToSave)) ls of
        Some ls' \<Rightarrow> ls'
      | None \<Rightarrow> ls)"

text \<open>
  \<^verbatim>\<open>loadFromLocalStorage(key)\<close>, lines 414-427. The result \<^verbatim>\<open>null\<close> is \<open>JsonNull\<close>.
  An empty stored string is falsy; an exception of \<^verbatim>\<open>JSON.parse\<close> is caught. For a
  stored text outside the range of the model the result is \<open>Unmodelled\<close>.
\<close>

definition loadFromLocalStorage ::
    "json_codec \<Rightarrow> string option \<Rightarrow> local_storage \<Rightarrow> error + json" where
  "loadFromLocalStorage codec key ls =
     (case getItem (storage_key key) ls of
        None \<Rightarrow> Inr JsonNull
      | Some saved \<Rightarrow>
          if saved \<noteq> '''' then
            (case parse codec saved of
               Parsed data \<Rightarrow> Inr data
             | SyntaxError \<Rightarrow> Inr JsonNull
             | OutOfRange \<Rightarrow> Inl Unmodelled)
          else Inr JsonNull)"

subsection \<open>Requests to the Store\<close>

text \<open>
  A request issued with \<^verbatim>\<open>fetch\<close>, and what comes back: the promise is rejected (the
  server is unreachable, or the body is not JSON), or there is a status and a body. The
  bodies are those this server sends: an object with \<^verbatim>\<open>success\<close> and the optional
  properties \<^verbatim>\<open>message\<close>, \<^verbatim>\<open>error\<close> and \<^verbatim>\<open>data\<close>. The network is a parameter.

  The property \<^verbatim>\<open>error\<close> is the \<^verbatim>\<open>message\<close> of the exception that the handler caught.
  \<open>Thrown\<close> is an exception with the message given. \<open>ValidationError\<close> is Mongoose's
  validation error: its message is the heading, a colon, and the reports of the failing
  paths separated by commas (\<open>rendered\<close> below). Mongoose lists the required paths that the
  body leaves out first and then the others in the order in which the body has them. A
  request body is a record here, which does not hold the order of its keys, so a
  validation error is kept as its heading and the set of the failing paths, and its
  message is \<open>rendered\<close> for one of the enumerations of this set.
\<close>

record request =
  http_method :: string
  url :: string
  body :: "json option"

datatype failure = Thrown string | ValidationError string "string set"

record 'a response =
  success :: bool
  message :: "string option"
  error :: "failure option"
  data :: "'a option"

datatype reply = Rejected string | Response nat "json response"

definition API_BASE_URL :: string where
  "API_BASE_URL = ''http://localhost:5000/api''"

text \<open>
  \<^verbatim>\<open>apiRequest(endpoint, options)\<close>, lines 251-281. The log of requests grows by the
  request; the result is the body, or the message of the error that is thrown.
\<close>

definition apiRequest ::
    "(request \<Rightarrow> reply) \<Rightarrow> string \<Rightarrow> string \<Rightarrow> json option \<Rightarrow> request list
       \<Rightarrow> request list \<times> (string + json response)" where
  "apiRequest net endpoint meth payload log =
     (let req = \<lparr>http_method = meth, url = API_BASE_URL @ endpoint, body = payload\<rparr> in
      (log @ [req],
       case net req of
         Rejected msg \<Rightarrow> Inl msg
       | Response status env \<Rightarrow>
           if 200 \<le> status \<and> status \<le> 299 then Inr env
           else Inl (case message env of
                       Some m \<Rightarrow> if m \<noteq> '''' then m else ''HTTP error! status: '' @ dec status
                     | None \<Rightarrow> ''HTTP error! status: '' @ dec status)))"

text \<open>
  \<^verbatim>\<open>saveResume(resumeData)\<close>, lines 295-310. After the request the function reads
  \<^verbatim>\<open>response.data._id\<close> for the log message, which throws when \<^verbatim>\<open>data\<close> is missing
  or \<^verbatim>\<open>null\<close>; the message of that exception is the engine's and is written
  \<^verbatim>\<open>TypeError\<close> here.
\<close>

definition saveResume ::
    "(request \<Rightarrow> reply) \<Rightarrow> document \<Rightarrow> request list \<Rightarrow> request list \<times> (string + json)" where
  "saveResume net resume_data log =
     (if \<not> truthy (map_of resume_data ''name'') \<or> \<not> truthy (map_of resume_data ''email'')
      then (log, Inl ''Name and email are required fields'')
      else
        (let (log', r) = apiRequest net ''/resumes'' ''POST'' (Some (JsonObj resume_data)) log in
         case r of
           Inl msg \<Rightarrow> (log', Inl msg)
         | Inr response \<Rightarrow>
             (case data response of
                None \<Rightarrow> (log', Inl ''TypeError'')
              | Some JsonNull \<Rightarrow> (log', Inl ''TypeError'')
              | Some d \<Rightarrow> (log', Inr d))))"

text \<open>\<^verbatim>\<open>updateResume(resumeId, resumeData)\<close>, lines 338-352.\<close>

definition updateResume ::
    "(request \<Rightarrow> reply) \<Rightarrow> string option \<Rightarrow> document \<Rightarrow> request list
       \<Rightarrow> request list \<times> (string + json option)" where
  "updateResume net resumeId resume_data log =
     (case resumeId of
        None \<Rightarrow> (log, Inl ''Resume ID is required'')
      | Some rid \<Rightarrow>
          if rid = '''' then (log, Inl ''Resume ID is required'')
          else
            (let (log', r) = apiRequest net (''/resumes/'' @ rid) ''PUT''
                               (Some (JsonObj resume_data)) log in
             case r of
               Inl msg \<Rightarrow> (log', Inl msg)
             | Inr response \<Rightarrow> (log', Inr (data response))))"

subsection \<open>The save button of the preview (Preview component)\<close>

text \<open>
  The state of the component that \<^verbatim>\<open>handleSave\<close> touches, the requests issued so far and
  the local storage. Messages are written without their leading pictograph; the timers that
  clear the message later are left out.
\<close>

record preview =
  isSaving :: bool
  saveMessage :: string
  resumeId :: "string option"
  requests :: "request list"
  storage :: local_storage

text \<open>The \<^verbatim>\<open>_id\<close> of a saved document, a string in the answers of this server.\<close>

definition id_of :: "json \<Rightarrow> string option" where
  "id_of d = (case d of
                JsonObj ps \<Rightarrow> (case map_of ps ''_id'' of Some (JsonStr s) \<Rightarrow> Some s | _ \<Rightarrow> None)
              | _ \<Rightarrow> None)"

text \<open>The \<^verbatim>\<open>catch\<close> block of \<^verbatim>\<open>handleSave\<close>, lines 81-89.\<close>

definition save_failed :: "json_codec \<Rightarrow> string \<Rightarrow> document \<Rightarrow> string \<Rightarrow> preview \<Rightarrow> preview" where
  "save_failed codec stamp d msg p =
     p\<lparr>saveMessage := ''Save failed: '' @ msg @ '' (Saved locally as backup)'',
       storage := saveToLocalStorage codec stamp d None (storage p)\<rparr>"

text \<open>
  \<^verbatim>\<open>handleSave()\<close>, lines 52-93, for the document \<^verbatim>\<open>data\<close>. The \<^verbatim>\<open>finally\<close> block
  clears \<^verbatim>\<open>isSaving\<close> on every path through the \<^verbatim>\<open>try\<close>.
\<close>

definition handleSave ::
    "json_codec \<Rightarrow> (request \<Rightarrow> reply) \<Rightarrow> string \<Rightarrow> document \<Rightarrow> preview \<Rightarrow> preview" where
  "handleSave codec net stamp d p =
     (if \<not> truthy (map_of d ''name'') \<or> \<not> truthy (map_of d ''email'')
      then p\<lparr>saveMessage := ''Name and email are required to save''\<rparr>
      else
        (let p1 = p\<lparr>isSaving := True, saveMessage := ''''\<rparr>;
             p2 =
               (if (case resumeId p1 of Some rid \<Rightarrow> rid \<noteq> '''' | None \<Rightarrow> False) then
                  (let (log, r) = updateResume net (resumeId p1) d (requests p1) in
                   case r of
                     Inl msg \<Rightarrow> save_failed codec stamp d msg (p1\<lparr>requests := log\<rparr>)
                   | Inr savedResume \<Rightarrow>
                       p1\<lparr>requests := log,
                          saveMessage := ''Resume updated successfully!'',
                          storage := saveToLocalStorage codec stamp d None (storage p1)\<rparr>)
                else
                  (let (log, r) = saveResume net d (requests p1) in
                   case r of
                     Inl msg \<Rightarrow> save_failed codec stamp d msg (p1\<lparr>requests := log\<rparr>)
                   | Inr savedResume \<Rightarrow>
                       p1\<lparr>requests := log,
                          resumeId := id_of savedResume,
                          saveMessage := ''Resume saved! ID: ''
                            @ (case id_of savedResume of Some s \<Rightarrow> s | None \<Rightarrow> ''undefined''),
                          storage := saveToLocalStorage codec stamp d None (storage p1)\<rparr>))
         in p2\<lparr>isSaving := False\<rparr>))"

section \<open>The Store (src/server.js)\<close>

text \<open>
  The handlers of the server call Mongoose, which is not part of the repository; the
  definitions below follow the schema \<^verbatim>\<open>resumeSchema\<close>, lines 45-84, and Mongoose's
  documented behaviour for it. A document has the paths of the schema. In a request body a
  path may be absent (\<open>None\<close>); bodies whose values have other types than the schema's
  are rejected by Mongoose's casting and are not modelled, nor is a body that names
  \<^verbatim>\<open>_id\<close>. An instant is the number of milliseconds \<^verbatim>\<open>Date.now()\<close> returns.
\<close>

record experience =
  company :: "string option"
  position :: "string option"
  duration :: "string option"
  responsibilities :: "string list"

record education_entry =
  institution :: "string option"
  degree :: "string option"
  year :: "string option"

record resume =
  name :: "string option"
  title :: "string option"
  phone :: "string option"
  email :: "string option"
  location :: "string option"
  website :: "string option"
  summary :: "string option"
  experiences :: "experience list option"
  education :: "education_entry list option"
  skills :: "string list option"
  createdAt :: "nat option"
  updatedAt :: "nat option"

text \<open>A stored document: the paths of the schema and the identifier \<^verbatim>\<open>_id\<close>.\<close>

record stored = resume +
  oid :: string

text \<open>Casting: every string path of the schema has \<^verbatim>\<open>trim: true\<close>.\<close>

definition cast_experience :: "experience \<Rightarrow> experience" where
  "cast_experience e =
     \<lparr>company = map_option trim (company e), position = map_option trim (position e),
      duration = map_option trim (duration e), responsibilities = map trim (responsibilities e)\<rparr>"

definition cast_education :: "education_entry \<Rightarrow> education_entry" where
  "cast_education e =
     \<lparr>institution = map_option trim (institution e), degree = map_option trim (degree e),
      year = map_option trim (year e)\<rparr>"

definition cast_resume :: "resume \<Rightarrow> resume" where
  "cast_resume b =
     \<lparr>name = map_option trim (name b), title = map_option trim (title b),
      phone = map_option trim (phone b), email = map_option trim (email b),
      location = map_option trim (location b), website = map_option trim (website b),
      summary = map_option trim (summary b),
      experiences = map_option (map cast_experience) (experiences b),
      education = map_option (map cast_education) (education b),
      skills = map_option (map trim) (skills b),
      createdAt = createdAt b, updatedAt = updatedAt b\<rparr>"

text \<open>
  The validator \<^verbatim>\<open>required: true\<close> of a string path fails on a missing value and on
  the empty string. The result of a validation is an enumeration of the paths that fail,
  the required paths that are left out before those that are set to the empty string, as
  Mongoose lists them. Where Mongoose puts the paths of the entries in its list is not
  modelled: only the set of the members of the enumeration is used.
\<close>

definition missing :: "string option \<Rightarrow> bool" where
  "missing v = (case v of None \<Rightarrow> True | Some s \<Rightarrow> s = '''')"

definition left_out :: "string \<Rightarrow> string option \<Rightarrow> string list" where
  "left_out path v = (case v of None \<Rightarrow> [path] | Some s \<Rightarrow> [])"

definition left_empty :: "string \<Rightarrow> string option \<Rightarrow> string list" where
  "left_empty path v = (case v of None \<Rightarrow> [] | Some s \<Rightarrow> if s = '''' then [path] else [])"

definition experience_errors :: "nat \<Rightarrow> experience \<Rightarrow> string list" where
  "experience_errors i e =
     left_out (''experiences.'' @ dec i @ ''.company'') (company e)
     @ left_out (''experiences.'' @ dec i @ ''.position'') (position e)
     @ left_out (''experiences.'' @ dec i @ ''.duration'') (duration e)
     @ left_empty (''experiences.'' @ dec i @ ''.company'') (company e)
     @ left_empty (''experiences.'' @ dec i @ ''.position'') (position e)
     @ left_empty (''experiences.'' @ dec i @ ''.duration'') (duration e)"

definition education_errors :: "nat \<Rightarrow> education_entry \<Rightarrow> string list" where
  "education_errors i e =
     left_out (''education.'' @ dec i @ ''.institution'') (institution e)
     @ left_out (''education.'' @ dec i @ ''.degree'') (degree e)
     @ left_out (''education.'' @ dec i @ ''.year'') (year e)
     @ left_empty (''education.'' @ dec i @ ''.institution'') (institution e)
     @ left_empty (''education.'' @ dec i @ ''.degree'') (degree e)
     @ left_empty (''education.'' @ dec i @ ''.year'') (year e)"

definition entries_errors :: "(nat \<Rightarrow> 'a \<Rightarrow> string list) \<Rightarrow> 'a list option \<Rightarrow> string list" where
  "entries_errors f xs =
     (case xs of None \<Rightarrow> [] | Some ys \<Rightarrow> concat (map (\<lambda>(i, y). f i y) (enumerate 0 ys)))"

text \<open>Validation of a whole document, as \<^verbatim>\<open>save()\<close> runs it.\<close>

definition validation_errors :: "resume \<Rightarrow> string list" where
  "validation_errors d =
     left_out ''name'' (name d) @ left_out ''email'' (email d)
     @ left_empty ''name'' (name d) @ left_empty ''email'' (email d)
     @ entries_errors experience_errors (experiences d)
     @ entries_errors education_errors (education d)"

text \<open>
  Validation of an update with \<^verbatim>\<open>runValidators: true\<close>: only the paths that the update
  sets are validated; an entry of an array that the update sets is validated as a whole.
\<close>

definition update_errors :: "resume \<Rightarrow> string list" where
  "update_errors u =
     left_empty ''name'' (name u) @ left_empty ''email'' (email u)
     @ entries_errors experience_errors (experiences u)
     @ entries_errors education_errors (education u)"

text \<open>
  The report of a failing path in the message of a validation error: the path, and the
  message of the validator, which names the path inside the schema that declares it (the
  last segment, for a path inside an entry). The heading is
  \<^verbatim>\<open>Resume validation failed\<close> when a document of the model \<^verbatim>\<open>Resume\<close> is validated,
  and \<^verbatim>\<open>Validation failed\<close> when an update is.
\<close>

definition leaf :: "string \<Rightarrow> string" where
  "leaf path = rev (takeWhile (\<lambda>c. c \<noteq> CHR ''.'') (rev path))"

definition report :: "string \<Rightarrow> string" where
  "report path = path @ '': Path `'' @ leaf path @ ''` is required.''"

text \<open>
  The message of a validation error that lists the failing paths in the order \<open>paths\<close>.
\<close>

definition rendered :: "string \<Rightarrow> string list \<Rightarrow> string" where
  "rendered heading paths = heading @ '': '' @ join '', '' (map report paths)"

text \<open>
  A string that Mongoose casts to an \<^verbatim>\<open>ObjectId\<close> is one of 24 hexadecimal digits; the
  identifier is the same whatever the case of the digits. For a string of another form
  \<^verbatim>\<open>findByIdAndUpdate\<close> throws a \<^verbatim>\<open>CastError\<close>. (Older versions of the driver also
  accept the strings of 12 characters.) The identifiers of stored documents are in lower
  case.
\<close>

definition hex_digit :: "char \<Rightarrow> bool" where
  "hex_digit c = (c \<in> set ''0123456789abcdefABCDEF'')"

definition lower :: "char \<Rightarrow> char" where
  "lower c = (case map_of (zip ''ABCDEF'' ''abcdef'') c of Some l \<Rightarrow> l | None \<Rightarrow> c)"

definition to_object_id :: "string \<Rightarrow> string option" where
  "to_object_id s =
     (if length s = 24 \<and> list_all hex_digit s then Some (map lower s) else None)"

definition cast_error_message :: "string \<Rightarrow> string" where
  "cast_error_message v =
     ''Cast to ObjectId failed for value \"'' @ v
     @ ''\" (type string) at path \"_id\" for model \"Resume\"''"

text \<open>
  \<^verbatim>\<open>POST /api/resumes\<close>, lines 93-112. \<^verbatim>\<open>new Resume(req.body)\<close> casts the body,
  applies the defaults \<^verbatim>\<open>Date.now\<close> of \<^verbatim>\<open>createdAt\<close> and \<^verbatim>\<open>updatedAt\<close> where the body
  has no value (at the instant \<open>t_new\<close>), the empty array where it has no array, and a new
  identifier. \<^verbatim>\<open>save()\<close> validates, sets \<^verbatim>\<open>updatedAt\<close> in the hook of line 81 (at the
  instant \<open>t_save\<close>) and inserts the document.
\<close>

definition new_Resume :: "nat \<Rightarrow> string \<Rightarrow> resume \<Rightarrow> stored" where
  "new_Resume t_new new_id b =
     (let c = cast_resume b in
      \<lparr>name = name c, title = title c, phone = phone c, email = email c,
       location = location c, website = website c, summary = summary c,
       experiences = Some (case experiences c of None \<Rightarrow> [] | Some xs \<Rightarrow> xs),
       education = Some (case education c of None \<Rightarrow> [] | Some xs \<Rightarrow> xs),
       skills = Some (case skills c of None \<Rightarrow> [] | Some xs \<Rightarrow> xs),
       createdAt = Some (case createdAt c of None \<Rightarrow> t_new | Some t \<Rightarrow> t),
       updatedAt = Some (case updatedAt c of None \<Rightarrow> t_new | Some t \<Rightarrow> t),
       oid = new_id\<rparr>)"

definition post_resumes ::
    "nat \<Rightarrow> nat \<Rightarrow> string \<Rightarrow> resume \<Rightarrow> stored list
       \<Rightarrow> (nat \<times> stored response) \<times> stored list" where
  "post_resumes t_new t_save new_id b db =
     (let doc = new_Resume t_new new_id b;
          errors = validation_errors (resume.truncate doc) in
      if errors = [] then
        (let saved = doc\<lparr>updatedAt := Some t_save\<rparr> in
         ((201, \<lparr>success = True, message = Some ''Resume saved successfully'',
                 error = None, data = Some saved\<rparr>), db @ [saved]))
      else
        ((400, \<lparr>success = False, message = Some ''Failed to save resume'',
                error = Some (ValidationError ''Resume validation failed'' (set errors)),
                data = None\<rparr>), db))"

text \<open>
  \<^verbatim>\<open>findByIdAndUpdate(id, update, {new: true, runValidators: true})\<close>: the identifier
  is cast and the update is cast and validated before the collection is read; the paths
  that the update holds are set in the document with this identifier, the others are kept.
  The result is the error thrown, or the document after the update (\<open>None\<close> when there is
  none) and the collection.
\<close>

definition set_path :: "'a option \<Rightarrow> 'a option \<Rightarrow> 'a option" where
  "set_path new old = (case new of None \<Rightarrow> old | Some v \<Rightarrow> Some v)"

definition apply_update :: "resume \<Rightarrow> stored \<Rightarrow> stored" where
  "apply_update u d =
     d\<lparr>name := set_path (name u) (name d), title := set_path (title u) (title d),
       phone := set_path (phone u) (phone d), email := set_path (email u) (email d),
       location := set_path (location u) (location d),
       website := set_path (website u) (website d),
       summary := set_path (summary u) (summary d),
       experiences := set_path (experiences u) (experiences d),
       education := set_path (education u) (education d),
       skills := set_path (skills u) (skills d),
       createdAt := set_path (createdAt u) (createdAt d),
       updatedAt := set_path (updatedAt u) (updatedAt d)\<rparr>"

fun update_first :: "string \<Rightarrow> (stored \<Rightarrow> stored) \<Rightarrow> stored list \<Rightarrow> stored option \<times> stored list" where
  "update_first i f [] = (None, [])"
| "update_first i f (d # ds) =
     (if oid d = i then (Some (f d), f d # ds)
      else (let (r, ds') = update_first i f ds in (r, d # ds')))"

definition findByIdAndUpdate ::
    "string \<Rightarrow> resume \<Rightarrow> stored list \<Rightarrow> failure + stored option \<times> stored list" where
  "findByIdAndUpdate ident update db =
     (case to_object_id ident of
        None \<Rightarrow> Inl (Thrown (cast_error_message ident))
      | Some i \<Rightarrow>
          (let u = cast_resume update; errors = update_errors u in
           if errors = [] then Inr (update_first i (apply_update u) db)
           else Inl (ValidationError ''Validation failed'' (set errors))))"

text \<open>\<^verbatim>\<open>PUT /api/resumes/:id\<close>, lines 143-173; \<open>t\<close> is \<^verbatim>\<open>Date.now()\<close>.\<close>

definition put_resume ::
    "nat \<Rightarrow> string \<Rightarrow> resume \<Rightarrow> stored list \<Rightarrow> (nat \<times> stored response) \<times> stored list" where
  "put_resume t ident b db =
     (case findByIdAndUpdate ident (b\<lparr>updatedAt := Some t\<rparr>) db of
        Inl thrown \<Rightarrow>
          ((400, \<lparr>success = False, message = Some ''Failed to update resume'',
                  error = Some thrown, data = None\<rparr>), db)
      | Inr (None, db') \<Rightarrow>
          ((404, \<lparr>success = False, message = Some ''Resume not found'',
                  error = None, data = None\<rparr>), db')
      | Inr (Some doc, db') \<Rightarrow>
          ((200, \<lparr>success = True, message = Some ''Resume updated successfully'',
                  error = None, data = Some doc\<rparr>), db'))"

text \<open>
  The properties of a stored document as JSON, absent paths left out; an instant is
  rendered by its number. \<^verbatim>\<open>__v\<close> is the version key that Mongoose adds.
\<close>

definition opt_field :: "string \<Rightarrow> ('a \<Rightarrow> json) \<Rightarrow> 'a option \<Rightarrow> document" where
  "opt_field k f v = (case v of None \<Rightarrow> [] | Some x \<Rightarrow> [(k, f x)])"

definition experience_json :: "experience \<Rightarrow> json" where
  "experience_json e =
     JsonObj (opt_field ''company'' JsonStr (company e) @ opt_field ''position'' JsonStr (position e)
       @ opt_field ''duration'' JsonStr (duration e)
       @ [(''responsibilities'', JsonArr (map JsonStr (responsibilities e)))])"

definition education_json :: "education_entry \<Rightarrow> json" where
  "education_json e =
     JsonObj (opt_field ''institution'' JsonStr (institution e)
       @ opt_field ''degree'' JsonStr (degree e) @ opt_field ''year'' JsonStr (year e))"

definition stored_fields :: "stored \<Rightarrow> document" where
  "stored_fields d =
     [(''_id'', JsonStr (oid d))]
     @ opt_field ''name'' JsonStr (name d) @ opt_field ''title'' JsonStr (title d)
     @ opt_field ''phone'' JsonStr (phone d) @ opt_field ''email'' JsonStr (email d)
     @ opt_field ''location'' JsonStr (location d) @ opt_field ''website'' JsonStr (website d)
     @ opt_field ''summary'' JsonStr (summary d)
     @ opt_field ''experiences'' (\<lambda>xs. JsonArr (map experience_json xs)) (experiences d)
     @ opt_field ''education'' (\<lambda>xs. JsonArr (map education_json xs)) (education d)
     @ opt_field ''skills'' (\<lambda>xs. JsonArr (map JsonStr xs)) (skills d)
     @ opt_field ''createdAt'' (\<lambda>t. JsonNum (int t)) (createdAt d)
     @ opt_field ''updatedAt'' (\<lambda>t. JsonNum (int t)) (updatedAt d)
     @ [(''__v'', JsonNum 0)]"

text \<open>
  \<^verbatim>\<open>.select('name title email createdAt updatedAt')\<close>: the named paths, and
  \<^verbatim>\<open>_id\<close>, which a selection keeps unless it is excluded.
\<close>

definition select_paths :: "string list \<Rightarrow> stored \<Rightarrow> json" where
  "select_paths paths d =
     JsonObj (filter (\<lambda>(k, v). k = ''_id'' \<or> k \<in> set paths) (stored_fields d))"

text \<open>
  \<^verbatim>\<open>.sort({updatedAt: -1})\<close>: latest first, a document without the path last. The order
  among documents of the same instant is not fixed by the database; here they keep their
  order.
\<close>

definition sort_updatedAt_desc :: "stored list \<Rightarrow> stored list" where
  "sort_updatedAt_desc db =
     sort_key (\<lambda>d. case updatedAt d of Some t \<Rightarrow> - int t | None \<Rightarrow> 1) db"

text \<open>\<^verbatim>\<open>GET /api/resumes\<close>, lines 176-196.\<close>

definition summary_paths :: "string list" where
  "summary_paths = [''name'', ''title'', ''email'', ''createdAt'', ''updatedAt'']"

definition get_resumes :: "stored list \<Rightarrow> nat \<times> json list response" where
  "get_resumes db =
     (200, \<lparr>success = True, message = None, error = None,
            data = Some (map (select_paths summary_paths) (sort_updatedAt_desc db))\<rparr>)"

section \<open>Example values\<close>

text \<open>
  Values for the examples: the body \<^verbatim>\<open>{}\<close>, two bodies that pass validation and the
  documents stored for them, the document of a new session (App.js, lines 25-54) with an
  email filled in, the state of the preview when it is mounted, a browser that
  accepts every write and one that refuses every write, a server that cannot be reached, a
  document with an empty name, and the document of a new session with a name and an email
  filled in.
\<close>

definition empty_body :: resume where
  "empty_body =
     \<lparr>name = None, title = None, phone = None, email = None, location = None, website = None,
      summary = None, experiences = None, education = None, skills = None,
      createdAt = None, updatedAt = None\<rparr>"

definition ada :: resume where
  "ada = empty_body\<lparr>name := Some ''Ada'', email := Some ''ada@example.org''\<rparr>"

definition bob :: resume where
  "bob = empty_body\<lparr>name := Some ''Bob'', email := Some ''bob@example.org'',
           title := Some ''Engineer''\<rparr>"

definition first_draft :: resume where
  "first_draft =
     \<lparr>name = Some '''', title = Some '''', phone = Some '''', email = Some ''a@b.com'',
      location = Some '''', website = Some '''', summary = Some '''',
      experiences = Some [\<lparr>company = Some '''', position = Some '''', duration = Some '''',
                            responsibilities = ['''']\<rparr>],
      education = Some [\<lparr>institution = Some '''', degree = Some '''', year = Some ''''\<rparr>],
      skills = Some [], createdAt = None, updatedAt = None\<rparr>"

definition online :: local_storage where
  "online = \<lparr>items = Map.empty, accepts = (\<lambda>k v. True)\<rparr>"

definition saved_ada :: stored where
  "saved_ada = (new_Resume 1000 ''64b7f0c2a1d3e4f5a6b7c8d9'' ada)\<lparr>updatedAt := Some 1001\<rparr>"

definition saved_bob :: stored where
  "saved_bob = (new_Resume 2000 ''64b7f0c2a1d3e4f5a6b7c8da'' bob)\<lparr>updatedAt := Some 2001\<rparr>"

definition initial_preview :: preview where
  "initial_preview =
     \<lparr>isSaving = False, saveMessage = '''', resumeId = None, requests = [], storage = online\<rparr>"

definition offline :: "request \<Rightarrow> reply" where
  "offline r = Rejected ''Failed to fetch''"

definition nameless :: document where
  "nameless = [(''name'', JsonStr ''''), (''email'', JsonStr ''a@b.com'')]"

definition exhausted :: local_storage where
  "exhausted = \<lparr>items = Map.empty, accepts = (\<lambda>k v. False)\<rparr>"

definition session_document :: document where
  "session_document =
     [(''name'', JsonStr ''Ada''), (''title'', JsonStr ''''), (''phone'', JsonStr ''''),
      (''email'', JsonStr ''ada@example.org''), (''location'', JsonStr ''''),
      (''website'', JsonStr ''''), (''summary'', JsonStr ''''),
      (''experiences'',
         JsonArr [JsonObj [(''company'', JsonStr ''''), (''position'', JsonStr ''''),
                           (''duration'', JsonStr ''''),
                           (''responsibilities'', JsonArr [JsonStr ''''])]]),
      (''education'',
         JsonArr [JsonObj [(''institution'', JsonStr ''''), (''degree'', JsonStr ''''),
                           (''year'', JsonStr '''')]]),
      (''skills'', JsonArr [])]"

section \<open>Properties of the update operation\<close>

lemma cell_at_append:
  "a < length h \<Longrightarrow> cell_at (h @ cs) a = cell_at h a"
  by (simp add: cell_at_def nth_append)

lemma cell_at_fresh: "cell_at (h @ [c]) (length h) = Some c"
  by (simp add: cell_at_def)

lemma props_setResumeData: "props (setResumeData m st) = m"
  by (simp add: props_def setResumeData_def alloc_def cell_at_fresh)

lemma heap_setResumeData: "heap (setResumeData m st) = heap st @ [Obj m]"
  by (simp add: setResumeData_def alloc_def)

lemma strict_eq_refl: "strict_eq v v"
  by (cases v) simp_all

lemma strict_eq_iff: "strict_eq v w \<longleftrightarrow> v = w"
  by (cases v; cases w) simp_all

text \<open>
  C1. The update operation preserves every field it does not target. With a section name
  \<open>S\<close> and a value \<open>V\<close>, the new document has \<open>V\<close> at \<open>S\<close>, and every other own property
  is present exactly when it was and holds the same primitive or the same reference, so it
  is \<^verbatim>\<open>===\<close>-equal to the old one. With \<^verbatim>\<open>null\<close> and a patch object, the properties
  the patch names take the patch's values and all others are kept. In both cases no
  existing object or array of the store is touched.
\<close>

theorem updateResumeData_frame:
  "props (updateResumeData (Some S) V st) S = Some V
   \<and> (\<forall>k. k \<noteq> S \<longrightarrow> props (updateResumeData (Some S) V st) k = props st k)
   \<and> (\<forall>k. k \<noteq> S \<longrightarrow>
          strict_eq (data_field (updateResumeData (Some S) V st) k) (data_field st k))
   \<and> (\<forall>a < length (heap st).
          cell_at (heap (updateResumeData (Some S) V st)) a = cell_at (heap st) a)
   \<and> (cell_at (heap st) p = Some (Obj P) \<longrightarrow>
        (\<forall>k. props (updateResumeData None (JRef p) st) k
               = (case P k of Some v \<Rightarrow> Some v | None \<Rightarrow> props st k))
        \<and> (\<forall>k. P k = None \<longrightarrow>
               strict_eq (data_field (updateResumeData None (JRef p) st) k) (data_field st k))
        \<and> (\<forall>a < length (heap st).
               cell_at (heap (updateResumeData None (JRef p) st)) a = cell_at (heap st) a))"
  by (auto simp: updateResumeData_def props_setResumeData heap_setResumeData
      cell_at_append data_field_def strict_eq_refl own_props_def map_add_def
      split: option.splits)

theorem updateResumeData_frame_witness:
  "props (updateResumeData (Some ''skills'') (JStr ''x'') initial_app) ''skills'' = Some (JStr ''x'')
   \<and> props (updateResumeData (Some ''skills'') (JStr ''x'') initial_app) ''education''
       = Some (JRef 4)
   \<and> strict_eq (data_field (updateResumeData (Some ''skills'') (JStr ''x'') initial_app)
        ''experiences'') (JRef 2)
   \<and> cell_at (heap (updateResumeData (Some ''skills'') (JStr ''x'') initial_app)) 2
       = Some (Arr [JRef 1])
   \<and> props (updateResumeData None (JRef 3) initial_app) ''degree'' = Some (JStr '''')
   \<and> props (updateResumeData None (JRef 3) initial_app) ''skills'' = Some (JRef 5)
   \<and> strict_eq (data_field (updateResumeData None (JRef 3) initial_app) ''skills'') (JRef 5)
   \<and> cell_at (heap (updateResumeData None (JRef 3) initial_app)) 5 = Some (Arr [])"
proof -
  have p: "cell_at (heap initial_app) 3
             = Some (Obj [''institution'' \<mapsto> JStr '''', ''degree'' \<mapsto> JStr '''',
                          ''year'' \<mapsto> JStr ''''])"
    by (simp add: initial_app_def cell_at_def)
  have len: "length (heap initial_app) = 7"
    by (simp add: initial_app_def)
  have init: "props initial_app ''education'' = Some (JRef 4)"
    "data_field initial_app ''experiences'' = JRef 2"
    "props initial_app ''skills'' = Some (JRef 5)"
    "data_field initial_app ''skills'' = JRef 5"
    "cell_at (heap initial_app) 2 = Some (Arr [JRef 1])"
    "cell_at (heap initial_app) 5 = Some (Arr [])"
    by (simp_all add: initial_app_def props_def data_field_def cell_at_def)
  note fr = updateResumeData_frame [of "''skills''" "JStr ''x''" initial_app 3
      "[''institution'' \<mapsto> JStr '''', ''degree'' \<mapsto> JStr '''', ''year'' \<mapsto> JStr '''']"]
  from fr have a1:
    "props (updateResumeData (Some ''skills'') (JStr ''x'') initial_app) ''skills''
       = Some (JStr ''x'')"
    by blast
  from fr have "\<forall>k. k \<noteq> ''skills'' \<longrightarrow>
      props (updateResumeData (Some ''skills'') (JStr ''x'') initial_app) k = props initial_app k"
    by blast
  then have a2:
    "props (updateResumeData (Some ''skills'') (JStr ''x'') initial_app) ''education''
       = Some (JRef 4)"
    using init by simp
  from fr have "\<forall>k. k \<noteq> ''skills'' \<longrightarrow>
      strict_eq (data_field (updateResumeData (Some ''skills'') (JStr ''x'') initial_app) k)
        (data_field initial_app k)"
    by blast
  then have "strict_eq
      (data_field (updateResumeData (Some ''skills'') (JStr ''x'') initial_app) ''experiences'')
      (data_field initial_app ''experiences'')"
    by simp
  then have a3: "strict_eq
      (data_field (updateResumeData (Some ''skills'') (JStr ''x'') initial_app) ''experiences'')
      (JRef 2)"
    using init by simp
  from fr have "\<forall>a < length (heap initial_app).
      cell_at (heap (updateResumeData (Some ''skills'') (JStr ''x'') initial_app)) a
        = cell_at (heap initial_app) a"
    by blast
  then have a4:
    "cell_at (heap (updateResumeData (Some ''skills'') (JStr ''x'') initial_app)) 2
       = Some (Arr [JRef 1])"
    using len init by simp
  from fr p have m1:
    "\<forall>k. props (updateResumeData None (JRef 3) initial_app) k
        = (case [''institution'' \<mapsto> JStr '''', ''degree'' \<mapsto> JStr '''',
                 ''year'' \<mapsto> JStr ''''] k
           of Some v \<Rightarrow> Some v | None \<Rightarrow> props initial_app k)"
    by blast
  from fr p have m2:
    "\<forall>k. [''institution'' \<mapsto> JStr '''', ''degree'' \<mapsto> JStr '''',
           ''year'' \<mapsto> JStr ''''] k = None \<longrightarrow>
        strict_eq (data_field (updateResumeData None (JRef 3) initial_app) k)
          (data_field initial_app k)"
    by blast
  from fr p have m3:
    "\<forall>a < length (heap initial_app).
        cell_at (heap (updateResumeData None (JRef 3) initial_app)) a
          = cell_at (heap initial_app) a"
    by blast
  from m1 have a5:
    "props (updateResumeData None (JRef 3) initial_app) ''degree'' = Some (JStr '''')"
    by simp
  from m1 have a6:
    "props (updateResumeData None (JRef 3) initial_app) ''skills'' = Some (JRef 5)"
    using init by simp
  from m2 have "strict_eq (data_field (updateResumeData None (JRef 3) initial_app) ''skills'')
      (data_field initial_app ''skills'')"
    by simp
  then have a7:
    "strict_eq (data_field (updateResumeData None (JRef 3) initial_app) ''skills'') (JRef 5)"
    using init by simp
  from m3 have a8:
    "cell_at (heap (updateResumeData None (JRef 3) initial_app)) 5 = Some (Arr [])"
    using len init by simp
  show ?thesis
    using a1 a2 a3 a4 a5 a6 a7 a8 by blast
qed

section \<open>Properties of the section editors\<close>

subsection \<open>Removing entries\<close>

lemma length_drop_index:
  "length (drop_index i k xs) = (if i \<le> k \<and> k < i + length xs then length xs - 1 else length xs)"
  by (induction xs arbitrary: i) auto

lemma drop_index_nonempty: "1 < length xs \<Longrightarrow> drop_index i k xs \<noteq> []"
  using length_drop_index [of i k xs] by (auto split: if_splits)

lemma data_field_update:
  "data_field (updateResumeData (Some s) v st) k = (if k = s then v else data_field st k)"
  by (simp add: data_field_def updateResumeData_def props_setResumeData)

lemma heap_update:
  "heap (updateResumeData (Some s) v st) = heap st @ [Obj ((props st)(s \<mapsto> v))]"
  by (simp add: updateResumeData_def heap_setResumeData)

lemma as_array_append: "as_array h v = Inr xs \<Longrightarrow> as_array (h @ cs) v = Inr xs"
  by (auto simp: as_array_def cell_at_def nth_append split: jsval.splits cell.splits if_splits option.splits)

lemma as_array_fresh: "as_array (h @ Arr xs # cs) (JRef (length h)) = Inr xs"
  by (simp add: as_array_def cell_at_def nth_append)

lemma props_heap_append: "props (st\<lparr>heap := heap st @ cs\<rparr>) k = Some v" if "props st k = Some v"
  using that by (auto simp: props_def cell_at_def nth_append split: option.splits cell.splits if_splits)

lemma data_field_heap_append:
  "data_field st k = JRef a \<Longrightarrow> data_field (st\<lparr>heap := heap st @ cs\<rparr>) k = JRef a"
  using props_heap_append [of st k "JRef a" cs]
  by (auto simp: data_field_def split: option.splits)

text \<open>Replacing one section by a new array leaves every other section's array as it was.\<close>

lemma section_array_replace:
  assumes "section_array st k = Inr ys"
  shows "section_array (updateResumeData (Some s) (JRef (length (heap st)))
            (st\<lparr>heap := heap st @ [Arr xs]\<rparr>)) k
         = Inr (if k = s then xs else ys)"
proof (cases "k = s")
  case True
  then show ?thesis
    by (simp add: section_array_def data_field_update heap_update as_array_fresh)
next
  case False
  from assms obtain a where a: "data_field st k = JRef a"
    by (auto simp: section_array_def as_array_def split: jsval.splits)
  from assms a have "as_array (heap st) (JRef a) = Inr ys"
    by (simp add: section_array_def)
  then have "as_array (heap st @ [Arr xs] @ [Obj m]) (JRef a) = Inr ys" for m
    by (rule as_array_append)
  with False a show ?thesis
    by (simp add: section_array_def data_field_update heap_update data_field_heap_append)
qed

lemma removeExperience_single:
  "section_array st ''experiences'' = Inr xs \<Longrightarrow> length xs \<le> 1 \<Longrightarrow> removeExperience i st = Inr st"
  by (simp add: removeExperience_def section_array_def)

lemma removeExperience_many:
  "section_array st ''experiences'' = Inr xs \<Longrightarrow> 1 < length xs \<Longrightarrow>
   removeExperience i st = Inr (updateResumeData (Some ''experiences'') (JRef (length (heap st)))
            (st\<lparr>heap := heap st @ [Arr (drop_index 0 i xs)]\<rparr>))"
  by (simp add: removeExperience_def section_array_def alloc_def)

lemma removeEducation_single:
  "section_array st ''education'' = Inr xs \<Longrightarrow> length xs \<le> 1 \<Longrightarrow> removeEducation i st = Inr st"
  by (simp add: removeEducation_def section_array_def)

lemma removeEducation_many:
  "section_array st ''education'' = Inr xs \<Longrightarrow> 1 < length xs \<Longrightarrow>
   removeEducation i st = Inr (updateResumeData (Some ''education'') (JRef (length (heap st)))
            (st\<lparr>heap := heap st @ [Arr (drop_index 0 i xs)]\<rparr>))"
  by (simp add: removeEducation_def section_array_def alloc_def)

lemma handleRemoveSkill_result:
  "section_array st ''skills'' = Inr xs \<Longrightarrow>
   handleRemoveSkill i st = Inr (updateResumeData (Some ''skills'') (JRef (length (heap st)))
            (st\<lparr>heap := heap st @ [Arr (drop_index 0 i xs)]\<rparr>))"
  by (simp add: handleRemoveSkill_def section_array_def alloc_def)

lemma nonempty_removeExperience:
  assumes "nonempty_sections st" "removeExperience i st = Inr st'"
  shows "nonempty_sections st'"
proof -
  from assms(1) obtain xs ys where
    xs: "section_array st ''experiences'' = Inr xs" "xs \<noteq> []" and
    ys: "section_array st ''education'' = Inr ys" "ys \<noteq> []"
    by (auto simp: nonempty_sections_def split: sum.splits)
  show ?thesis
  proof (cases "1 < length xs")
    case True
    with xs assms(2) have "st' = updateResumeData (Some ''experiences'') (JRef (length (heap st)))
            (st\<lparr>heap := heap st @ [Arr (drop_index 0 i xs)]\<rparr>)"
      by (simp add: removeExperience_many)
    with xs ys True show ?thesis
      by (simp add: nonempty_sections_def section_array_replace drop_index_nonempty)
  next
    case False
    with xs assms have "st' = st" by (simp add: removeExperience_single)
    with assms(1) show ?thesis by simp
  qed
qed

lemma nonempty_removeEducation:
  assumes "nonempty_sections st" "removeEducation i st = Inr st'"
  shows "nonempty_sections st'"
proof -
  from assms(1) obtain xs ys where
    xs: "section_array st ''experiences'' = Inr xs" "xs \<noteq> []" and
    ys: "section_array st ''education'' = Inr ys" "ys \<noteq> []"
    by (auto simp: nonempty_sections_def split: sum.splits)
  show ?thesis
  proof (cases "1 < length ys")
    case True
    with ys assms(2) have "st' = updateResumeData (Some ''education'') (JRef (length (heap st)))
            (st\<lparr>heap := heap st @ [Arr (drop_index 0 i ys)]\<rparr>)"
      by (simp add: removeEducation_many)
    with xs ys True show ?thesis
      by (simp add: nonempty_sections_def section_array_replace drop_index_nonempty)
  next
    case False
    with ys assms have "st' = st" by (simp add: removeEducation_single)
    with assms(1) show ?thesis by simp
  qed
qed

lemma nonempty_handleRemoveSkill:
  assumes "nonempty_sections st" "handleRemoveSkill i st = Inr st'"
  shows "nonempty_sections st'"
proof -
  from assms(1) obtain xs ys where
    xs: "section_array st ''experiences'' = Inr xs" "xs \<noteq> []" and
    ys: "section_array st ''education'' = Inr ys" "ys \<noteq> []"
    by (auto simp: nonempty_sections_def split: sum.splits)
  from assms(2) obtain zs where zs: "section_array st ''skills'' = Inr zs"
    by (auto simp: handleRemoveSkill_def section_array_def split: sum.splits)
  with assms(2) have "st' = updateResumeData (Some ''skills'') (JRef (length (heap st)))
            (st\<lparr>heap := heap st @ [Arr (drop_index 0 i zs)]\<rparr>)"
    by (simp add: handleRemoveSkill_result)
  with xs ys show ?thesis
    by (simp add: nonempty_sections_def section_array_replace)
qed


lemma as_object_append: "as_object h v = Inr r \<Longrightarrow> as_object (h @ cs) v = Inr r"
  by (auto simp: as_object_def cell_at_def nth_append
      split: jsval.splits cell.splits if_splits option.splits)

lemma as_object_cell: "as_object h v = Inr (a, m) \<Longrightarrow> v = JRef a \<and> cell_at h a = Some (Obj m)"
  by (auto simp: as_object_def split: jsval.splits cell.splits option.splits)

lemma as_array_cell: "as_array h v = Inr xs \<Longrightarrow> \<exists>a. v = JRef a \<and> cell_at h a = Some (Arr xs)"
  by (auto simp: as_array_def split: jsval.splits cell.splits option.splits)

lemma cell_at_length: "cell_at h a = Some c \<Longrightarrow> a < length h"
  by (simp add: cell_at_def split: if_splits)

lemma responsibilities_ofD:
  assumes "responsibilities_of st i = Inr rs"
  obtains exps entry m where
    "section_array st ''experiences'' = Inr exps"
    "as_object (heap st) (elem exps i) = Inr (entry, m)"
    "as_array (heap st) (obj_get m ''responsibilities'') = Inr rs"
  using assms by (auto simp: responsibilities_of_def split: sum.splits)

lemma removeResponsibility_single:
  assumes "section_array st ''experiences'' = Inr exps"
    and "responsibilities_of st i = Inr rs" and "length rs \<le> 1"
  shows "removeResponsibility i j st = Inr (st\<lparr>heap := heap st @ [Arr exps]\<rparr>)"
proof -
  from assms(1,2) obtain entry m where
    e: "as_object (heap st) (elem exps i) = Inr (entry, m)" and
    r: "as_array (heap st) (obj_get m ''responsibilities'') = Inr rs"
    by (auto elim: responsibilities_ofD)
  from e have e': "as_object (heap st @ [Arr exps]) (elem exps i) = Inr (entry, m)"
    by (rule as_object_append)
  from r have r': "as_array (heap st @ [Arr exps]) (obj_get m ''responsibilities'') = Inr rs"
    by (rule as_array_append)
  from assms(1,3) e' r' show ?thesis
    by (simp add: removeResponsibility_def section_array_def alloc_def)
qed

lemma removeResponsibility_many:
  assumes "section_array st ''experiences'' = Inr exps"
    and "as_object (heap st) (elem exps i) = Inr (entry, m)"
    and "as_array (heap st) (obj_get m ''responsibilities'') = Inr rs"
    and "1 < length rs"
  shows "removeResponsibility i j st =
     Inr (updateResumeData (Some ''experiences'') (JRef (length (heap st)))
       (st\<lparr>heap := (heap st @ [Arr exps, Arr (drop_index 0 j rs)])
          [entry := Obj (m(''responsibilities'' \<mapsto> JRef (Suc (length (heap st)))))]\<rparr>))"
proof -
  from assms(2) have e': "as_object (heap st @ [Arr exps]) (elem exps i) = Inr (entry, m)"
    by (rule as_object_append)
  from assms(3) have r': "as_array (heap st @ [Arr exps]) (obj_get m ''responsibilities'') = Inr rs"
    by (rule as_array_append)
  from assms(1,4) e' r' show ?thesis
    by (simp add: removeResponsibility_def section_array_def alloc_def)
qed


lemma cell_at_mutated:
  assumes "e < length h"
  shows "cell_at ((h @ [c1, c2])[e := c'] @ cs) a =
     (if a = e then Some c'
      else if a = length h then Some c1
      else if a = Suc (length h) then Some c2
      else if a < length h then cell_at h a
      else cell_at (h @ [c1, c2] @ cs) a)"
  using assms by (auto simp: cell_at_def nth_append nth_list_update less_Suc_eq)

lemma cell_at_beyond: "length h \<le> a \<Longrightarrow> cell_at h a = None"
  by (simp add: cell_at_def)

lemma props_mutated:
  assumes "cell_at (heap st) e = Some (Obj m)" and "k \<noteq> r"
  shows "props (st\<lparr>heap := (heap st @ [Arr xs, Arr ys])[e := Obj (m(r \<mapsto> v))]\<rparr>) k = props st k"
proof -
  let ?h = "heap st" and ?d = "resumeData st"
  from assms(1) have e: "e < length ?h" by (rule cell_at_length)
  have c: "cell_at ((?h @ [Arr xs, Arr ys])[e := Obj (m(r \<mapsto> v))]) ?d =
     (if ?d = e then Some (Obj (m(r \<mapsto> v)))
      else if ?d = length ?h then Some (Arr xs)
      else if ?d = Suc (length ?h) then Some (Arr ys)
      else if ?d < length ?h then cell_at ?h ?d
      else cell_at (?h @ [Arr xs, Arr ys] @ []) ?d)"
    using cell_at_mutated [OF e, of "Arr xs" "Arr ys" "Obj (m(r \<mapsto> v))" "[]" ?d] by simp
  consider "?d = e" | "?d \<noteq> e" "?d < length ?h" | "?d = length ?h" | "?d = Suc (length ?h)"
    | "Suc (length ?h) < ?d"
    by linarith
  then show ?thesis
  proof cases
    case 1
    with assms c show ?thesis by (simp add: props_def)
  next
    case 2
    with c show ?thesis by (simp add: props_def)
  next
    case 3
    with c e show ?thesis by (simp add: props_def cell_at_beyond)
  next
    case 4
    with c e show ?thesis by (simp add: props_def cell_at_beyond)
  next
    case 5
    with c e show ?thesis by (simp add: props_def cell_at_beyond)
  qed
qed


lemma removed_cell:
  assumes "cell_at (heap st) entry = Some (Obj m)" and "a \<le> Suc (length (heap st))"
  shows "cell_at (heap (removed st exps entry m filt)) a =
     (if a = entry then Some (Obj (m(''responsibilities'' \<mapsto> JRef (Suc (length (heap st))))))
      else if a = length (heap st) then Some (Arr exps)
      else if a = Suc (length (heap st)) then Some (Arr filt)
      else cell_at (heap st) a)"
proof -
  from assms(1) have e: "entry < length (heap st)" by (rule cell_at_length)
  show ?thesis
    unfolding removed_def heap_update
    using cell_at_mutated [OF e, of "Arr exps" "Arr filt" _ _ a] assms(2)
    by (simp add: app.simps)
qed

lemma removed_field:
  assumes "cell_at (heap st) entry = Some (Obj m)" and "k \<noteq> ''responsibilities''"
  shows "data_field (removed st exps entry m filt) k =
     (if k = ''experiences'' then JRef (length (heap st)) else data_field st k)"
  using assms by (simp add: removed_def data_field_update) (simp add: data_field_def props_mutated)

lemma removed_array:
  assumes "cell_at (heap st) entry = Some (Obj m)" and "as_array (heap st) v = Inr xs"
  shows "as_array (heap (removed st exps entry m filt)) v = Inr xs"
proof -
  from assms(2) obtain a where a: "v = JRef a" "cell_at (heap st) a = Some (Arr xs)"
    by (auto dest: as_array_cell)
  from a(2) have "a < length (heap st)" by (rule cell_at_length)
  moreover from a(2) assms(1) have "a \<noteq> entry" by auto
  ultimately have "cell_at (heap (removed st exps entry m filt)) a = Some (Arr xs)"
    using removed_cell [OF assms(1), of a exps filt] a(2) by simp
  with a(1) show ?thesis by (simp add: as_array_def)
qed

lemma removed_section:
  assumes "cell_at (heap st) entry = Some (Obj m)" and "section_array st k = Inr ys"
    and "k \<noteq> ''responsibilities''"
  shows "section_array (removed st exps entry m filt) k
         = Inr (if k = ''experiences'' then exps else ys)"
proof (cases "k = ''experiences''")
  case True
  then show ?thesis
    using removed_cell [OF assms(1), of "length (heap st)" exps filt] cell_at_length [OF assms(1)]
    by (simp add: section_array_def removed_field [OF assms(1)] as_array_def)
next
  case False
  with assms show ?thesis
    by (simp add: section_array_def removed_field [OF assms(1)] removed_array)
qed

lemma as_object_fresh_array:
  "as_object (h @ [Arr xs]) v = Inr (a, m) \<Longrightarrow> cell_at h a = Some (Obj m) \<and> v = JRef a"
  by (auto simp: as_object_def cell_at_def nth_append
      split: jsval.splits cell.splits option.splits if_splits)

lemma removeResponsibility_cases:
  assumes "section_array st ''experiences'' = Inr xs" and "removeResponsibility i j st = Inr st'"
  obtains (single) "st' = st\<lparr>heap := heap st @ [Arr xs]\<rparr>"
  | (many) entry m rs where
      "elem xs i = JRef entry" "cell_at (heap st) entry = Some (Obj m)"
      "as_array (heap st @ [Arr xs]) (obj_get m ''responsibilities'') = Inr rs"
      "1 < length rs" "st' = removed st xs entry m (drop_index 0 j rs)"
proof -
  from assms obtain entry m where
    e: "as_object (heap st @ [Arr xs]) (elem xs i) = Inr (entry, m)"
    by (auto simp: removeResponsibility_def section_array_def alloc_def split: sum.splits)
  with assms obtain rs where
    r: "as_array (heap st @ [Arr xs]) (obj_get m ''responsibilities'') = Inr rs"
    by (auto simp: removeResponsibility_def section_array_def alloc_def split: sum.splits)
  from e have c: "cell_at (heap st) entry = Some (Obj m)" "elem xs i = JRef entry"
    by (auto dest: as_object_fresh_array)
  show thesis
  proof (cases "1 < length rs")
    case True
    with assms e r have "st' = removed st xs entry m (drop_index 0 j rs)"
      by (simp add: removeResponsibility_def section_array_def alloc_def removed_def)
    with c r True show thesis by (auto intro: many)
  next
    case False
    with assms e r have "st' = st\<lparr>heap := heap st @ [Arr xs]\<rparr>"
      by (simp add: removeResponsibility_def section_array_def alloc_def)
    then show thesis by (auto intro: single)
  qed
qed

lemma section_array_heap_append:
  assumes "section_array st k = Inr ys"
  shows "section_array (st\<lparr>heap := heap st @ cs\<rparr>) k = Inr ys"
proof -
  from assms obtain a where a: "data_field st k = JRef a"
    by (auto simp: section_array_def dest: as_array_cell)
  with assms show ?thesis
    by (simp add: section_array_def data_field_heap_append as_array_append)
qed

lemma nonempty_removeResponsibility:
  assumes "nonempty_sections st" "removeResponsibility i j st = Inr st'"
  shows "nonempty_sections st'"
proof -
  from assms(1) obtain xs ys where
    xs: "section_array st ''experiences'' = Inr xs" "xs \<noteq> []" and
    ys: "section_array st ''education'' = Inr ys" "ys \<noteq> []"
    by (auto simp: nonempty_sections_def split: sum.splits)
  from xs(1) assms(2) show ?thesis
  proof (cases rule: removeResponsibility_cases)
    case single
    with xs ys show ?thesis
      by (simp add: nonempty_sections_def section_array_heap_append)
  next
    case (many entry m rs)
    with xs ys show ?thesis
      by (simp add: nonempty_sections_def removed_section)
  qed
qed

lemma removals_nonempty: "removals st st' \<Longrightarrow> nonempty_sections st \<Longrightarrow> nonempty_sections st'"
  by (induction rule: removals.induct)
    (auto intro: nonempty_removeExperience nonempty_removeEducation
       nonempty_removeResponsibility nonempty_handleRemoveSkill)


lemma addExperience_result:
  assumes "section_array st ''experiences'' = Inr xs"
  shows "addExperience st =
     Inr (updateResumeData (Some ''experiences'') (JRef (Suc (Suc (length (heap st)))))
       (st\<lparr>heap := heap st @ [Arr [JStr ''''],
          Obj [''company'' \<mapsto> JStr '''', ''position'' \<mapsto> JStr '''',
               ''duration'' \<mapsto> JStr '''', ''responsibilities'' \<mapsto> JRef (length (heap st))],
          Arr (xs @ [JRef (Suc (length (heap st)))])]\<rparr>))"
  using assms by (simp add: addExperience_def section_array_def alloc_def)

lemma initial_sections:
  "section_array initial_app ''experiences'' = Inr [JRef 1]"
  "section_array initial_app ''education'' = Inr [JRef 3]"
  "section_array initial_app ''skills'' = Inr []"
  by (simp_all add: section_array_def initial_app_def data_field_def props_def cell_at_def
      as_array_def)

subsection \<open>The store\<close>

lemma cell_at_append_Some: "cell_at h a = Some c \<Longrightarrow> cell_at (h @ cs) a = Some c"
  by (simp add: cell_at_def nth_append split: if_splits)

lemma cell_at_update:
  "cell_at (h[a := c]) b = (if b = a \<and> a < length h then Some c else cell_at h b)"
  by (simp add: cell_at_def)

lemma as_array_iff: "as_array h v = Inr xs \<longleftrightarrow> (\<exists>a. v = JRef a \<and> cell_at h a = Some (Arr xs))"
  by (auto simp: as_array_def split: jsval.splits cell.splits option.splits)

lemma as_array_ref_iff:
  "as_array_ref h v = Inr (a, xs) \<longleftrightarrow> v = JRef a \<and> cell_at h a = Some (Arr xs)"
  by (auto simp: as_array_ref_def split: jsval.splits cell.splits option.splits)

lemma as_object_iff:
  "as_object h v = Inr (a, m) \<longleftrightarrow> v = JRef a \<and> cell_at h a = Some (Obj m)"
  by (auto simp: as_object_def split: jsval.splits cell.splits option.splits)

lemma as_object_fresh_array_iff:
  "as_object (h @ [Arr xs]) v = Inr (a, m) \<longleftrightarrow> as_object h v = Inr (a, m)"
  by (auto simp: as_object_iff cell_at_def nth_append split: if_splits)

subsection \<open>Entries and their responsibilities\<close>

lemma obj_get_ref: "obj_get m k = JRef r \<longleftrightarrow> m k = Some (JRef r)"
  by (simp add: obj_get_def split: option.splits)

lemma good_entry_iff:
  "good_entry h v \<longleftrightarrow>
     (\<exists>e m r rs. v = JRef e \<and> cell_at h e = Some (Obj m) \<and> m ''responsibilities'' = Some (JRef r)
        \<and> cell_at h r = Some (Arr rs) \<and> rs \<noteq> [])"
proof (cases "as_object h v")
  case (Inl e)
  then have "\<not> (\<exists>e m. v = JRef e \<and> cell_at h e = Some (Obj m))"
    using as_object_iff [of h v] by auto
  with Inl show ?thesis by (auto simp: good_entry_def)
next
  case (Inr p)
  obtain e m where p: "p = (e, m)" by (cases p)
  with Inr have em: "v = JRef e" "cell_at h e = Some (Obj m)"
    by (simp_all add: as_object_iff)
  show ?thesis
  proof (cases "as_array h (obj_get m ''responsibilities'')")
    case (Inl x)
    then have "\<not> (\<exists>r rs. m ''responsibilities'' = Some (JRef r) \<and> cell_at h r = Some (Arr rs))"
      using as_array_iff [of h "obj_get m ''responsibilities''"] by (auto simp: obj_get_ref)
    with Inl Inr p em show ?thesis by (auto simp: good_entry_def)
  next
    case (Inr rs)
    then obtain r where "m ''responsibilities'' = Some (JRef r)" "cell_at h r = Some (Arr rs)"
      by (auto simp: as_array_iff obj_get_ref)
    with Inr \<open>as_object h v = Inr p\<close> p em show ?thesis by (auto simp: good_entry_def)
  qed
qed

lemma evolves_refl: "evolves h h"
  by (simp add: evolves_def)

lemma evolvesI:
  assumes "\<And>a xs. cell_at h a = Some (Arr xs) \<Longrightarrow>
             \<exists>xs'. cell_at h' a = Some (Arr xs') \<and> (xs \<noteq> [] \<longrightarrow> xs' \<noteq> [])"
    and "\<And>v. good_entry h v \<Longrightarrow> good_entry h' v"
  shows "evolves h h'"
  using assms unfolding evolves_def by blast

lemma evolves_array:
  "evolves h h' \<Longrightarrow> cell_at h a = Some (Arr xs) \<Longrightarrow>
   \<exists>xs'. cell_at h' a = Some (Arr xs') \<and> (xs \<noteq> [] \<longrightarrow> xs' \<noteq> [])"
  unfolding evolves_def by blast

lemma evolves_entry: "evolves h h' \<Longrightarrow> good_entry h v \<Longrightarrow> good_entry h' v"
  unfolding evolves_def by blast

lemma evolves_trans:
  assumes "evolves h1 h2" and "evolves h2 h3"
  shows "evolves h1 h3"
proof (rule evolvesI)
  fix a xs assume "cell_at h1 a = Some (Arr xs)"
  with assms(1) obtain ys where ys: "cell_at h2 a = Some (Arr ys)" "xs \<noteq> [] \<longrightarrow> ys \<noteq> []"
    by (blast dest: evolves_array)
  with assms(2) obtain zs where "cell_at h3 a = Some (Arr zs)" "ys \<noteq> [] \<longrightarrow> zs \<noteq> []"
    by (blast dest: evolves_array)
  with ys show "\<exists>xs'. cell_at h3 a = Some (Arr xs') \<and> (xs \<noteq> [] \<longrightarrow> xs' \<noteq> [])"
    by blast
next
  fix v assume "good_entry h1 v"
  with assms show "good_entry h3 v"
    by (blast dest: evolves_entry)
qed

lemma evolves_append: "evolves h (h @ cs)"
proof (rule evolvesI)
  fix a xs assume "cell_at h a = Some (Arr xs)"
  then have "cell_at (h @ cs) a = Some (Arr xs)" by (rule cell_at_append_Some)
  then show "\<exists>xs'. cell_at (h @ cs) a = Some (Arr xs') \<and> (xs \<noteq> [] \<longrightarrow> xs' \<noteq> [])"
    by blast
next
  fix v assume "good_entry h v"
  then obtain e m r rs where g: "v = JRef e" "cell_at h e = Some (Obj m)"
    "m ''responsibilities'' = Some (JRef r)" "cell_at h r = Some (Arr rs)" "rs \<noteq> []"
    unfolding good_entry_iff by blast
  from g(2) have "cell_at (h @ cs) e = Some (Obj m)" by (rule cell_at_append_Some)
  moreover from g(4) have "cell_at (h @ cs) r = Some (Arr rs)" by (rule cell_at_append_Some)
  ultimately show "good_entry (h @ cs) v"
    unfolding good_entry_iff using g by blast
qed

lemma evolves_set_obj:
  assumes "cell_at h e = Some (Obj m)"
    and "good_entry h (JRef e) \<Longrightarrow>
          \<exists>r rs. m' ''responsibilities'' = Some (JRef r) \<and> cell_at h r = Some (Arr rs) \<and> rs \<noteq> []"
  shows "evolves h (h[e := Obj m'])"
proof (rule evolvesI)
  fix a xs assume a: "cell_at h a = Some (Arr xs)"
  with assms(1) have "a \<noteq> e" by auto
  with a have "cell_at (h[e := Obj m']) a = Some (Arr xs)" by (simp add: cell_at_update)
  then show "\<exists>xs'. cell_at (h[e := Obj m']) a = Some (Arr xs') \<and> (xs \<noteq> [] \<longrightarrow> xs' \<noteq> [])"
    by blast
next
  fix v assume v: "good_entry h v"
  then obtain e' m1 r rs where g: "v = JRef e'" "cell_at h e' = Some (Obj m1)"
    "m1 ''responsibilities'' = Some (JRef r)" "cell_at h r = Some (Arr rs)" "rs \<noteq> []"
    unfolding good_entry_iff by blast
  from assms(1) have le: "e < length h" by (rule cell_at_length)
  show "good_entry (h[e := Obj m']) v"
  proof (cases "e' = e")
    case True
    with v g(1) assms(2) obtain r' rs' where
      r': "m' ''responsibilities'' = Some (JRef r')" "cell_at h r' = Some (Arr rs')" "rs' \<noteq> []"
      by blast
    from r'(2) assms(1) have "r' \<noteq> e" by auto
    with r'(2) have "cell_at (h[e := Obj m']) r' = Some (Arr rs')" by (simp add: cell_at_update)
    moreover from le have "cell_at (h[e := Obj m']) e = Some (Obj m')" by (simp add: cell_at_update)
    ultimately show ?thesis
      unfolding good_entry_iff using True g(1) r' by blast
  next
    case False
    with g(2) have 1: "cell_at (h[e := Obj m']) e' = Some (Obj m1)" by (simp add: cell_at_update)
    from g(4) assms(1) have "r \<noteq> e" by auto
    with g(4) have "cell_at (h[e := Obj m']) r = Some (Arr rs)" by (simp add: cell_at_update)
    with 1 show ?thesis
      unfolding good_entry_iff using g by blast
  qed
qed

lemma evolves_set_arr:
  assumes "cell_at h r = Some (Arr rs)" and "rs \<noteq> [] \<Longrightarrow> rs' \<noteq> []"
  shows "evolves h (h[r := Arr rs'])"
proof -
  from assms(1) have le: "r < length h" by (rule cell_at_length)
  have arr: "\<exists>xs'. cell_at (h[r := Arr rs']) a = Some (Arr xs') \<and> (xs \<noteq> [] \<longrightarrow> xs' \<noteq> [])"
    if "cell_at h a = Some (Arr xs)" for a xs
  proof (cases "a = r")
    case True
    with that assms le show ?thesis by (simp add: cell_at_update)
  next
    case False
    with that show ?thesis by (simp add: cell_at_update)
  qed
  show ?thesis
  proof (rule evolvesI)
    fix a xs assume "cell_at h a = Some (Arr xs)"
    then show "\<exists>xs'. cell_at (h[r := Arr rs']) a = Some (Arr xs') \<and> (xs \<noteq> [] \<longrightarrow> xs' \<noteq> [])"
      by (rule arr)
  next
    fix v assume "good_entry h v"
    then obtain e m r1 rs1 where g: "v = JRef e" "cell_at h e = Some (Obj m)"
      "m ''responsibilities'' = Some (JRef r1)" "cell_at h r1 = Some (Arr rs1)" "rs1 \<noteq> []"
      unfolding good_entry_iff by blast
    from g(2) assms(1) have "e \<noteq> r" by auto
    with g(2) have 1: "cell_at (h[r := Arr rs']) e = Some (Obj m)" by (simp add: cell_at_update)
    from arr [OF g(4)] g(5) obtain xs' where "cell_at (h[r := Arr rs']) r1 = Some (Arr xs')" "xs' \<noteq> []"
      by blast
    with 1 show "good_entry (h[r := Arr rs']) v"
      unfolding good_entry_iff using g by blast
  qed
qed


subsection \<open>The document\<close>

lemma responsibilities_nonempty_iff:
  "responsibilities_nonempty st \<longleftrightarrow>
     (\<exists>exps. section_array st ''experiences'' = Inr exps \<and> (\<forall>x \<in> set exps. good_entry (heap st) x))"
proof (cases "section_array st ''experiences''")
  case (Inl e)
  then show ?thesis by (simp add: responsibilities_nonempty_def)
next
  case (Inr exps)
  have "(case responsibilities_of st i of Inr rs \<Rightarrow> rs \<noteq> [] | Inl e \<Rightarrow> False)
          = good_entry (heap st) (exps ! i)" if "i < length exps" for i
    using that Inr
    by (simp add: responsibilities_of_def good_entry_def elem_def split: sum.splits prod.splits)
  with Inr have "responsibilities_nonempty st
      \<longleftrightarrow> (\<forall>i < length exps. good_entry (heap st) (exps ! i))"
    by (simp add: responsibilities_nonempty_def)
  also have "\<dots> \<longleftrightarrow> (\<forall>x \<in> set exps. good_entry (heap st) x)"
    by (simp add: all_set_conv_all_nth)
  finally show ?thesis using Inr by simp
qed

lemma responsibilities_nonempty_update:
  assumes "cell_at h' a = Some (Arr exps')" and "\<forall>x \<in> set exps'. good_entry h' x"
  shows "responsibilities_nonempty
           (updateResumeData (Some ''experiences'') (JRef a) (st\<lparr>heap := h'\<rparr>))"
proof -
  let ?st' = "updateResumeData (Some ''experiences'') (JRef a) (st\<lparr>heap := h'\<rparr>)"
  have h: "heap ?st' = h' @ [Obj ((props (st\<lparr>heap := h'\<rparr>))(''experiences'' \<mapsto> JRef a))]"
    by (simp add: heap_update)
  from assms(1) have "cell_at (heap ?st') a = Some (Arr exps')"
    unfolding h by (rule cell_at_append_Some)
  then have 1: "section_array ?st' ''experiences'' = Inr exps'"
    by (simp add: section_array_def data_field_update as_array_iff)
  have "evolves h' (heap ?st')" unfolding h by (rule evolves_append)
  with assms(2) have "\<forall>x \<in> set exps'. good_entry (heap ?st') x"
    by (blast dest: evolves_entry)
  with 1 show ?thesis
    unfolding responsibilities_nonempty_iff by blast
qed

lemma responsibilities_nonempty_append:
  assumes "responsibilities_nonempty st"
  shows "responsibilities_nonempty (st\<lparr>heap := heap st @ cs\<rparr>)"
proof -
  from assms obtain exps where
    e: "section_array st ''experiences'' = Inr exps" "\<forall>x \<in> set exps. good_entry (heap st) x"
    unfolding responsibilities_nonempty_iff by blast
  from e(1) obtain a where a: "data_field st ''experiences'' = JRef a"
    "cell_at (heap st) a = Some (Arr exps)"
    by (auto simp: section_array_def as_array_iff)
  from a(1) have "props st ''experiences'' = Some (JRef a)"
    by (simp add: data_field_def split: option.splits)
  then obtain P where P: "cell_at (heap st) (resumeData st) = Some (Obj P)"
    "P ''experiences'' = Some (JRef a)"
    by (auto simp: props_def split: option.splits cell.splits)
  from P(1) have "cell_at (heap st @ cs) (resumeData st) = Some (Obj P)"
    by (rule cell_at_append_Some)
  with P(2) have "data_field (st\<lparr>heap := heap st @ cs\<rparr>) ''experiences'' = JRef a"
    by (simp add: data_field_def props_def)
  moreover from a(2) have "cell_at (heap st @ cs) a = Some (Arr exps)"
    by (rule cell_at_append_Some)
  ultimately have "section_array (st\<lparr>heap := heap st @ cs\<rparr>) ''experiences'' = Inr exps"
    by (simp add: section_array_def as_array_iff)
  moreover from e(2) have "\<forall>x \<in> set exps. good_entry (heap st @ cs) x"
    using evolves_append [of "heap st" cs] by (blast dest: evolves_entry)
  ultimately show ?thesis
    unfolding responsibilities_nonempty_iff by simp
qed

lemma set_drop_index: "set (drop_index i k xs) \<subseteq> set xs"
  by (induction xs arbitrary: i) auto


subsection \<open>The handlers of the experience editor\<close>

lemma cell_at_copy:
  assumes "a < length h"
  shows "cell_at ((h @ [c])[a := c']) (length h) = Some c"
  using assms by (simp add: cell_at_def nth_append)

lemma good_entry_fields:
  assumes "good_entry h (JRef e)" and "cell_at h e = Some (Obj m)"
  shows "\<exists>r rs. m ''responsibilities'' = Some (JRef r) \<and> cell_at h r = Some (Arr rs) \<and> rs \<noteq> []"
  using assms unfolding good_entry_iff by auto

lemma nonempty_handleExperienceChange:
  assumes inv: "responsibilities_nonempty st"
    and input: "nm \<noteq> ''responsibilities''"
    and res: "handleExperienceChange index nm value st = Inr st'"
  shows "responsibilities_nonempty st'"
proof -
  let ?n = "length (heap st)"
  from inv obtain exps where
    e: "section_array st ''experiences'' = Inr exps" "\<forall>x \<in> set exps. good_entry (heap st) x"
    unfolding responsibilities_nonempty_iff by blast
  let ?h1 = "heap st @ [Arr exps]"
  from e(1) res obtain entry m where
    o: "as_object ?h1 (elem exps index) = Inr (entry, m)"
    by (auto simp: handleExperienceChange_def section_array_def alloc_def split: sum.splits)
  let ?h2 = "?h1[entry := Obj (m(nm \<mapsto> JStr value))]"
  from e(1) res o have st': "st' = updateResumeData (Some ''experiences'') (JRef ?n)
      (st\<lparr>heap := ?h2\<rparr>)"
    by (simp add: handleExperienceChange_def section_array_def alloc_def)
  from o have c1: "cell_at ?h1 entry = Some (Obj m)" by (simp add: as_object_iff)
  from o have c: "cell_at (heap st) entry = Some (Obj m)"
    by (blast dest: as_object_fresh_array)
  then have lt: "entry < ?n" by (rule cell_at_length)
  have "evolves ?h1 ?h2"
  proof (rule evolves_set_obj [OF c1])
    assume "good_entry ?h1 (JRef entry)"
    from good_entry_fields [OF this c1] input
    show "\<exists>r rs. (m(nm \<mapsto> JStr value)) ''responsibilities'' = Some (JRef r)
        \<and> cell_at ?h1 r = Some (Arr rs) \<and> rs \<noteq> []"
      by simp
  qed
  with evolves_append [of "heap st" "[Arr exps]"] have "evolves (heap st) ?h2"
    by (rule evolves_trans)
  with e(2) have "\<forall>x \<in> set exps. good_entry ?h2 x"
    by (blast dest: evolves_entry)
  moreover from lt have "cell_at ?h2 ?n = Some (Arr exps)" by (rule cell_at_copy)
  ultimately show ?thesis
    unfolding st' by (intro responsibilities_nonempty_update)
qed


lemma elem_ref_in_set: "elem xs i = JRef a \<Longrightarrow> JRef a \<in> set xs"
  by (cases "i < length xs") (auto simp: elem_def dest: nth_mem)

text \<open>
  A handler that copies the array of experiences and then replaces, in place, the
  responsibilities of one entry by a sequence that is not empty.
\<close>

lemma nonempty_array_change:
  assumes inv: "responsibilities_nonempty st"
    and e: "section_array st ''experiences'' = Inr exps"
    and o: "as_object (heap st @ [Arr exps]) (elem exps i) = Inr (entry, m)"
    and r: "as_array_ref (heap st @ [Arr exps]) (obj_get m ''responsibilities'') = Inr (r, rs)"
    and ne: "rs' \<noteq> []"
  shows "responsibilities_nonempty
     (updateResumeData (Some ''experiences'') (JRef (length (heap st)))
        (st\<lparr>heap := (heap st @ [Arr exps])[r := Arr rs']\<rparr>))"
proof -
  let ?n = "length (heap st)" and ?h1 = "heap st @ [Arr exps]"
  from inv e have good: "\<forall>x \<in> set exps. good_entry (heap st) x"
    unfolding responsibilities_nonempty_iff by simp
  from o have c: "cell_at (heap st) entry = Some (Obj m)" "elem exps i = JRef entry"
    by (blast dest: as_object_fresh_array)+
  from c(2) have "JRef entry \<in> set exps" by (rule elem_ref_in_set)
  with good have "good_entry (heap st) (JRef entry)" by blast
  from good_entry_fields [OF this c(1)] obtain r0 rs0 where
    r0: "m ''responsibilities'' = Some (JRef r0)" "cell_at (heap st) r0 = Some (Arr rs0)"
    by blast
  from r have r1: "obj_get m ''responsibilities'' = JRef r" "cell_at ?h1 r = Some (Arr rs)"
    by (simp_all add: as_array_ref_iff)
  from r1(1) r0(1) have "r = r0" by (simp add: obj_get_def)
  with r0(2) have lt: "r < ?n" by (blast dest: cell_at_length)
  from ne have "evolves ?h1 (?h1[r := Arr rs'])"
    by (intro evolves_set_arr [OF r1(2)])
  with evolves_append [of "heap st" "[Arr exps]"] have "evolves (heap st) (?h1[r := Arr rs'])"
    by (rule evolves_trans)
  with good have "\<forall>x \<in> set exps. good_entry (?h1[r := Arr rs']) x"
    by (blast dest: evolves_entry)
  moreover from lt have "cell_at (?h1[r := Arr rs']) ?n = Some (Arr exps)" by (rule cell_at_copy)
  ultimately show ?thesis
    by (intro responsibilities_nonempty_update)
qed

lemma set_elem_nonempty: "set_elem xs i v \<noteq> []"
  by (cases "i < length xs") (auto simp: set_elem_def)

lemma nonempty_handleResponsibilityChange:
  assumes inv: "responsibilities_nonempty st"
    and res: "handleResponsibilityChange i j value st = Inr st'"
  shows "responsibilities_nonempty st'"
proof -
  from inv obtain exps where e: "section_array st ''experiences'' = Inr exps"
    unfolding responsibilities_nonempty_iff by blast
  from e res obtain entry m where
    o: "as_object (heap st @ [Arr exps]) (elem exps i) = Inr (entry, m)"
    by (auto simp: handleResponsibilityChange_def section_array_def alloc_def split: sum.splits)
  with e res obtain r rs where
    r: "as_array_ref (heap st @ [Arr exps]) (obj_get m ''responsibilities'') = Inr (r, rs)"
    by (auto simp: handleResponsibilityChange_def section_array_def alloc_def split: sum.splits)
  from e res o r have "st' = updateResumeData (Some ''experiences'') (JRef (length (heap st)))
      (st\<lparr>heap := (heap st @ [Arr exps])[r := Arr (set_elem rs j (JStr value))]\<rparr>)"
    by (simp add: handleResponsibilityChange_def section_array_def alloc_def)
  with nonempty_array_change [OF inv e o r set_elem_nonempty] show ?thesis
    by simp
qed

lemma nonempty_addResponsibility:
  assumes inv: "responsibilities_nonempty st"
    and res: "addResponsibility i st = Inr st'"
  shows "responsibilities_nonempty st'"
proof -
  from inv obtain exps where e: "section_array st ''experiences'' = Inr exps"
    unfolding responsibilities_nonempty_iff by blast
  from e res obtain entry m where
    o: "as_object (heap st @ [Arr exps]) (elem exps i) = Inr (entry, m)"
    by (auto simp: addResponsibility_def section_array_def alloc_def split: sum.splits)
  with e res obtain r rs where
    r: "as_array_ref (heap st @ [Arr exps]) (obj_get m ''responsibilities'') = Inr (r, rs)"
    by (auto simp: addResponsibility_def section_array_def alloc_def split: sum.splits)
  from e res o r have "st' = updateResumeData (Some ''experiences'') (JRef (length (heap st)))
      (st\<lparr>heap := (heap st @ [Arr exps])[r := Arr (rs @ [JStr ''''])]\<rparr>)"
    by (simp add: addResponsibility_def section_array_def alloc_def)
  moreover have "rs @ [JStr ''''] \<noteq> []" by simp
  ultimately show ?thesis
    using nonempty_array_change [OF inv e o r] by simp
qed

lemma nonempty_addExperience:
  assumes inv: "responsibilities_nonempty st"
    and res: "addExperience st = Inr st'"
  shows "responsibilities_nonempty st'"
proof -
  let ?n = "length (heap st)"
  let ?entry = "Obj [''company'' \<mapsto> JStr '''', ''position'' \<mapsto> JStr '''',
               ''duration'' \<mapsto> JStr '''', ''responsibilities'' \<mapsto> JRef ?n]"
  from inv obtain exps where
    e: "section_array st ''experiences'' = Inr exps" "\<forall>x \<in> set exps. good_entry (heap st) x"
    unfolding responsibilities_nonempty_iff by blast
  let ?cs = "[Arr [JStr ''''], ?entry, Arr (exps @ [JRef (Suc ?n)])]"
  let ?h = "heap st @ ?cs"
  from res have st': "st' = updateResumeData (Some ''experiences'') (JRef (Suc (Suc ?n)))
      (st\<lparr>heap := ?h\<rparr>)"
    by (simp add: addExperience_result [OF e(1)])
  have cells: "cell_at ?h ?n = Some (Arr [JStr ''''])" "cell_at ?h (Suc ?n) = Some ?entry"
    "cell_at ?h (Suc (Suc ?n)) = Some (Arr (exps @ [JRef (Suc ?n)]))"
    by (simp_all add: cell_at_def nth_append)
  have "good_entry ?h (JRef (Suc ?n))"
    unfolding good_entry_iff using cells(1,2) by simp
  moreover from e(2) have "\<forall>x \<in> set exps. good_entry ?h x"
    using evolves_append [of "heap st" ?cs] by (blast dest: evolves_entry)
  ultimately have "\<forall>x \<in> set (exps @ [JRef (Suc ?n)]). good_entry ?h x"
    by simp
  with cells(3) show ?thesis
    unfolding st' by (intro responsibilities_nonempty_update)
qed

lemma nonempty_resp_removeExperience:
  assumes inv: "responsibilities_nonempty st"
    and res: "removeExperience i st = Inr st'"
  shows "responsibilities_nonempty st'"
proof -
  let ?n = "length (heap st)"
  from inv obtain exps where
    e: "section_array st ''experiences'' = Inr exps" "\<forall>x \<in> set exps. good_entry (heap st) x"
    unfolding responsibilities_nonempty_iff by blast
  show ?thesis
  proof (cases "1 < length exps")
    case True
    let ?h = "heap st @ [Arr (drop_index 0 i exps)]"
    from True e(1) res have st': "st' = updateResumeData (Some ''experiences'')
        (JRef ?n) (st\<lparr>heap := ?h\<rparr>)"
      by (simp add: removeExperience_many)
    from e(2) have "\<forall>x \<in> set exps. good_entry ?h x"
      using evolves_append [of "heap st" "[Arr (drop_index 0 i exps)]"]
      by (blast dest: evolves_entry)
    with set_drop_index [of 0 i exps] have "\<forall>x \<in> set (drop_index 0 i exps). good_entry ?h x"
      by blast
    moreover have "cell_at ?h ?n = Some (Arr (drop_index 0 i exps))"
      by (simp add: cell_at_fresh)
    ultimately show ?thesis
      unfolding st' by (intro responsibilities_nonempty_update)
  next
    case False
    with e(1) res have "st' = st" by (simp add: removeExperience_single)
    with inv show ?thesis by simp
  qed
qed

lemma nonempty_resp_removeResponsibility:
  assumes inv: "responsibilities_nonempty st"
    and res: "removeResponsibility i j st = Inr st'"
  shows "responsibilities_nonempty st'"
proof -
  let ?n = "length (heap st)"
  from inv obtain exps where
    e: "section_array st ''experiences'' = Inr exps" "\<forall>x \<in> set exps. good_entry (heap st) x"
    unfolding responsibilities_nonempty_iff by blast
  from e(1) res show ?thesis
  proof (cases rule: removeResponsibility_cases)
    case single
    with inv show ?thesis by (simp add: responsibilities_nonempty_append)
  next
    case (many entry m rs)
    let ?filt = "drop_index 0 j rs"
    let ?h2 = "heap st @ [Arr exps, Arr ?filt]"
    let ?m' = "m(''responsibilities'' \<mapsto> JRef (Suc ?n))"
    from many(2) have c2: "cell_at ?h2 entry = Some (Obj m)" by (rule cell_at_append_Some)
    from many(2) have lt: "entry < ?n" by (rule cell_at_length)
    have f: "cell_at ?h2 (Suc ?n) = Some (Arr ?filt)" by (simp add: cell_at_def nth_append)
    from many(4) have fne: "?filt \<noteq> []" by (rule drop_index_nonempty)
    have "evolves ?h2 (?h2[entry := Obj ?m'])"
    proof (rule evolves_set_obj [OF c2])
      from f fne show "\<exists>r rs. ?m' ''responsibilities'' = Some (JRef r)
          \<and> cell_at ?h2 r = Some (Arr rs) \<and> rs \<noteq> []"
        by simp
    qed
    with evolves_append [of "heap st" "[Arr exps, Arr ?filt]"]
    have "evolves (heap st) (?h2[entry := Obj ?m'])"
      by (rule evolves_trans)
    with e(2) have "\<forall>x \<in> set exps. good_entry (?h2[entry := Obj ?m']) x"
      by (blast dest: evolves_entry)
    moreover from lt have "cell_at (?h2[entry := Obj ?m']) ?n = Some (Arr exps)"
      by (simp add: cell_at_def nth_append)
    ultimately show ?thesis
      unfolding many(5) removed_def by (intro responsibilities_nonempty_update)
  qed
qed

lemma input_name: "nm \<in> {''company'', ''position'', ''duration''} \<Longrightarrow> nm \<noteq> ''responsibilities''"
  by auto

lemma experience_edits_nonempty:
  "experience_edits st st' \<Longrightarrow> responsibilities_nonempty st \<Longrightarrow> responsibilities_nonempty st'"
proof (induction rule: experience_edits.induct)
  case (edits_none st)
  then show ?case .
next
  case (edits_change st st1 nm i "value" st2)
  from edits_change.hyps(2) have n: "nm \<noteq> ''responsibilities''" by (rule input_name)
  from edits_change.IH edits_change.prems have "responsibilities_nonempty st1" .
  then show ?case using n edits_change.hyps(3) by (rule nonempty_handleExperienceChange)
next
  case (edits_responsibility st st1 i j "value" st2)
  from edits_responsibility.IH edits_responsibility.prems have "responsibilities_nonempty st1" .
  then show ?case using edits_responsibility.hyps(2) by (rule nonempty_handleResponsibilityChange)
next
  case (edits_add st st1 st2)
  from edits_add.IH edits_add.prems have "responsibilities_nonempty st1" .
  then show ?case using edits_add.hyps(2) by (rule nonempty_addExperience)
next
  case (edits_add_responsibility st st1 i st2)
  from edits_add_responsibility.IH edits_add_responsibility.prems
  have "responsibilities_nonempty st1" .
  then show ?case using edits_add_responsibility.hyps(2) by (rule nonempty_addResponsibility)
next
  case (edits_remove st st1 i st2)
  from edits_remove.IH edits_remove.prems have "responsibilities_nonempty st1" .
  then show ?case using edits_remove.hyps(2) by (rule nonempty_resp_removeExperience)
next
  case (edits_remove_responsibility st st1 i j st2)
  from edits_remove_responsibility.IH edits_remove_responsibility.prems
  have "responsibilities_nonempty st1" .
  then show ?case using edits_remove_responsibility.hyps(2)
    by (rule nonempty_resp_removeResponsibility)
qed

lemma initial_responsibilities:
  "responsibilities_of initial_app 0 = Inr [JStr '''']"
  by (simp add: responsibilities_of_def initial_sections elem_def)
    (simp add: initial_app_def cell_at_def as_object_def as_array_def obj_get_def)

lemma initial_nonempty: "responsibilities_nonempty initial_app"
  by (simp add: responsibilities_nonempty_def initial_sections initial_responsibilities)

lemma initial_nonempty_sections: "nonempty_sections initial_app"
  by (simp add: nonempty_sections_def initial_sections)

lemma initial_cells:
  "cell_at (heap initial_app) 0 = Some (Arr [JStr ''''])"
  "cell_at (heap initial_app) (Suc 0) =
     Some (Obj [''company'' \<mapsto> JStr '''', ''position'' \<mapsto> JStr '''',
              ''duration'' \<mapsto> JStr '''', ''responsibilities'' \<mapsto> JRef 0])"
  "length (heap initial_app) = 7"
  by (simp_all add: initial_app_def cell_at_def)

lemma add_initial: "\<exists>st'. addResponsibility 0 initial_app = Inr st'"
  by (simp add: addResponsibility_def initial_sections [unfolded section_array_def] alloc_def
       elem_def as_object_def as_array_ref_def obj_get_def cell_at_append initial_cells
       split: sum.splits)

lemma add_experience_initial: "\<exists>st'. addExperience initial_app = Inr st'"
  by (simp add: addExperience_result [OF initial_sections(1)])


lemma section_array_update_append:
  assumes "section_array st k = Inr ys" and "cell_at (heap st @ cs) a = Some (Arr xs)"
  shows "section_array (updateResumeData (Some s) (JRef a) (st\<lparr>heap := heap st @ cs\<rparr>)) k
         = Inr (if k = s then xs else ys)"
proof (cases "k = s")
  case True
  from assms(2) have "cell_at ((heap st @ cs) @ [Obj m]) a = Some (Arr xs)" for m
    by (rule cell_at_append_Some)
  with True show ?thesis
    by (simp add: section_array_def data_field_update heap_update as_array_iff)
next
  case False
  from assms(1) have "section_array (st\<lparr>heap := heap st @ cs\<rparr>) k = Inr ys"
    by (rule section_array_heap_append)
  then have "as_array ((heap st @ cs) @ [Obj m])
      (data_field (st\<lparr>heap := heap st @ cs\<rparr>) k) = Inr ys" for m
    unfolding section_array_def by (simp add: as_array_append del: append_assoc)
  with False show ?thesis
    by (simp add: section_array_def data_field_update heap_update)
qed

lemma nonempty_addExperience_sections:
  assumes "nonempty_sections st" and "addExperience st = Inr st'"
  shows "nonempty_sections st'"
proof -
  from assms(1) obtain xs ys where
    xs: "section_array st ''experiences'' = Inr xs" and
    ys: "section_array st ''education'' = Inr ys" "ys \<noteq> []"
    by (auto simp: nonempty_sections_def split: sum.splits)
  let ?n = "length (heap st)"
  let ?cs = "[Arr [JStr ''''],
          Obj [''company'' \<mapsto> JStr '''', ''position'' \<mapsto> JStr '''',
               ''duration'' \<mapsto> JStr '''', ''responsibilities'' \<mapsto> JRef ?n],
          Arr (xs @ [JRef (Suc ?n)])]"
  from assms(2) have st': "st' = updateResumeData (Some ''experiences'') (JRef (Suc (Suc ?n)))
       (st\<lparr>heap := heap st @ ?cs\<rparr>)"
    by (simp add: addExperience_result [OF xs])
  have c: "cell_at (heap st @ ?cs) (Suc (Suc ?n)) = Some (Arr (xs @ [JRef (Suc ?n)]))"
    by (simp add: cell_at_def nth_append)
  from xs ys show ?thesis
    unfolding st' nonempty_sections_def
    by (simp add: section_array_update_append [OF _ c])
qed

subsection \<open>Adding skills\<close>

lemma suggestions_trimmed: "\<forall>s \<in> set suggestions. trim s = s \<and> s \<noteq> ''''"
  by (simp add: suggestions_def skillCategories_def trim_def js_space_def)

lemma props_heap_append_eq:
  assumes "props st k = Some v"
  shows "props (st\<lparr>heap := heap st @ cs\<rparr>) = props st"
proof -
  from assms obtain P where "cell_at (heap st) (resumeData st) = Some (Obj P)"
    by (auto simp: props_def split: option.splits cell.splits)
  moreover from this have "cell_at (heap st @ cs) (resumeData st) = Some (Obj P)"
    by (rule cell_at_append_Some)
  ultimately show ?thesis by (simp add: props_def)
qed

lemma section_array_props:
  "section_array st k = Inr xs \<Longrightarrow> \<exists>a. props st k = Some (JRef a)"
  by (auto simp: section_array_def as_array_iff data_field_def split: option.splits)

lemma props_update:
  "props (updateResumeData (Some s) v st) = (props st)(s \<mapsto> v)"
  by (simp add: updateResumeData_def props_setResumeData)

lemma append_section:
  fixes st :: app and s :: string and ys :: "jsval list"
  assumes "section_array st s = Inr xs"
  defines "st' \<equiv> updateResumeData (Some s) (JRef (length (heap st)))
                    (st\<lparr>heap := heap st @ [Arr ys]\<rparr>)"
  shows "section_array st' s = Inr ys" and "\<forall>k. k \<noteq> s \<longrightarrow> props st' k = props st k"
proof -
  have "cell_at (heap st @ [Arr ys]) (length (heap st)) = Some (Arr ys)"
    by (rule cell_at_fresh)
  from section_array_update_append [OF assms(1) this, of s] show "section_array st' s = Inr ys"
    by (simp add: st'_def)
  from assms(1) obtain a where "props st s = Some (JRef a)"
    by (blast dest: section_array_props)
  then have "props (st\<lparr>heap := heap st @ [Arr ys]\<rparr>) = props st"
    by (rule props_heap_append_eq)
  then show "\<forall>k. k \<noteq> s \<longrightarrow> props st' k = props st k"
    by (simp add: st'_def props_update)
qed

section \<open>The floors of the list-shaped sections and the insertion of skills\<close>

text \<open>
  C2. When the document's \<^verbatim>\<open>experiences\<close> has length 1, \<^verbatim>\<open>removeExperience\<close> returns
  the state as it was, and so does \<^verbatim>\<open>removeEducation\<close> when \<^verbatim>\<open>education\<close> has length
  1: nothing is created and \<^verbatim>\<open>updateData\<close> is not called. Hence no run of remove
  operations of the editors (\<^verbatim>\<open>removeExperience\<close>, \<^verbatim>\<open>removeEducation\<close>,
  \<^verbatim>\<open>removeResponsibility\<close>, \<^verbatim>\<open>handleRemoveSkill\<close>) that starts where both sequences are
  non-empty arrays leads to a state where one of them is empty.
\<close>

theorem remove_entry_floor:
  "(section_array st ''experiences'' = Inr xs \<and> length xs = 1 \<longrightarrow> removeExperience i st = Inr st)
   \<and> (section_array st ''education'' = Inr ys \<and> length ys = 1 \<longrightarrow> removeEducation i st = Inr st)
   \<and> (nonempty_sections st \<and> removals st st' \<longrightarrow> nonempty_sections st')"
  by (auto simp: removeExperience_single removeEducation_single removals_nonempty)

theorem remove_entry_floor_witness:
  "removeExperience 0 initial_app = Inr initial_app
   \<and> removeEducation 0 initial_app = Inr initial_app
   \<and> removals (projr (addExperience initial_app))
        (projr (removeExperience 0 (projr (addExperience initial_app))))
   \<and> nonempty_sections (projr (removeExperience 0 (projr (addExperience initial_app))))"
proof -
  obtain st1 where st1: "addExperience initial_app = Inr st1"
    using add_experience_initial by blast
  with initial_nonempty_sections have n1: "nonempty_sections st1"
    by (rule nonempty_addExperience_sections)
  then obtain xs where xs: "section_array st1 ''experiences'' = Inr xs"
    by (auto simp: nonempty_sections_def split: sum.splits)
  have "\<exists>st2. removeExperience 0 st1 = Inr st2"
    using xs removeExperience_single [of st1 xs 0] removeExperience_many [of st1 xs 0]
    by (cases "1 < length xs") auto
  then obtain st2 where st2: "removeExperience 0 st1 = Inr st2" by blast
  have r: "removals st1 st2"
    using removals_none st2 by (rule removals_experience)
  have len: "length [JRef 1 :: jsval] = 1" "length [JRef 3 :: jsval] = 1" by simp_all
  from remove_entry_floor [of initial_app "[JRef 1]" 0 "[JRef 3]" initial_app]
    initial_sections len
  have a: "removeExperience 0 initial_app = Inr initial_app"
    "removeEducation 0 initial_app = Inr initial_app"
    by blast+
  from remove_entry_floor [of st1 xs 0 "[]" st2] n1 r have "nonempty_sections st2"
    by blast
  with a r st1 st2 show ?thesis by simp
qed

text \<open>
  C3. An attempt to insert a skill. With the text \<open>newSkill\<close> of the input,
  \<^verbatim>\<open>handleAddSkill\<close> leaves the document and the input as they are when the trimmed text
  is empty or is an element of \<^verbatim>\<open>data.skills\<close> (equality of strings, case-sensitive);
  otherwise the new \<^verbatim>\<open>skills\<close> is the old sequence followed by the trimmed text, the
  input is cleared, and every other property of the document is the one it was.
  \<^verbatim>\<open>addSuggestion\<close> is called with the suggestions of the component, which are trimmed
  and not empty, and does the same with them.
\<close>

theorem add_skill:
  "section_array st ''skills'' = Inr sks \<longrightarrow>
     (trim (newSkill ui) = '''' \<or> JStr (trim (newSkill ui)) \<in> set sks \<longrightarrow>
        handleAddSkill ui st = Inr (ui, st))
     \<and> (trim (newSkill ui) \<noteq> '''' \<and> JStr (trim (newSkill ui)) \<notin> set sks \<longrightarrow>
          (\<exists>st'. handleAddSkill ui st = Inr (ui\<lparr>newSkill := '''', showSuggestions := False\<rparr>, st')
             \<and> section_array st' ''skills'' = Inr (sks @ [JStr (trim (newSkill ui))])
             \<and> (\<forall>k. k \<noteq> ''skills'' \<longrightarrow> props st' k = props st k)))
     \<and> (s \<in> set suggestions \<longrightarrow>
          trim s = s \<and> s \<noteq> ''''
          \<and> (JStr s \<in> set sks \<longrightarrow> addSuggestion s st = Inr st)
          \<and> (JStr s \<notin> set sks \<longrightarrow>
               (\<exists>st'. addSuggestion s st = Inr st'
                  \<and> section_array st' ''skills'' = Inr (sks @ [JStr s])
                  \<and> (\<forall>k. k \<noteq> ''skills'' \<longrightarrow> props st' k = props st k))))"
proof (intro impI conjI)
  assume sk: "section_array st ''skills'' = Inr sks"
  {
    assume "trim (newSkill ui) = '''' \<or> JStr (trim (newSkill ui)) \<in> set sks"
    with sk show "handleAddSkill ui st = Inr (ui, st)"
      by (auto simp: handleAddSkill_def section_array_def Let_def)
  next
    assume "trim (newSkill ui) \<noteq> '''' \<and> JStr (trim (newSkill ui)) \<notin> set sks"
    with sk have "handleAddSkill ui st =
        Inr (ui\<lparr>newSkill := '''', showSuggestions := False\<rparr>,
             updateResumeData (Some ''skills'') (JRef (length (heap st)))
               (st\<lparr>heap := heap st @ [Arr (sks @ [JStr (trim (newSkill ui))])]\<rparr>))"
      by (simp add: handleAddSkill_def section_array_def Let_def alloc_def)
    with append_section [OF sk, of "sks @ [JStr (trim (newSkill ui))]"]
    show "\<exists>st'. handleAddSkill ui st = Inr (ui\<lparr>newSkill := '''', showSuggestions := False\<rparr>, st')
             \<and> section_array st' ''skills'' = Inr (sks @ [JStr (trim (newSkill ui))])
             \<and> (\<forall>k. k \<noteq> ''skills'' \<longrightarrow> props st' k = props st k)"
      by blast
  next
    assume "s \<in> set suggestions"
    with suggestions_trimmed show "trim s = s" "s \<noteq> ''''" by blast+
  next
    assume "JStr s \<in> set sks"
    with sk show "addSuggestion s st = Inr st"
      by (simp add: addSuggestion_def section_array_def)
  next
    assume "JStr s \<notin> set sks"
    with sk have "addSuggestion s st =
        Inr (updateResumeData (Some ''skills'') (JRef (length (heap st)))
               (st\<lparr>heap := heap st @ [Arr (sks @ [JStr s])]\<rparr>))"
      by (simp add: addSuggestion_def section_array_def alloc_def)
    with append_section [OF sk, of "sks @ [JStr s]"]
    show "\<exists>st'. addSuggestion s st = Inr st'
                  \<and> section_array st' ''skills'' = Inr (sks @ [JStr s])
                  \<and> (\<forall>k. k \<noteq> ''skills'' \<longrightarrow> props st' k = props st k)"
      by blast
  }
qed

theorem add_skill_witness:
  "section_array initial_app ''skills'' = Inr []
   \<and> handleAddSkill \<lparr>newSkill = ''   '', showSuggestions = True\<rparr> initial_app
        = Inr (\<lparr>newSkill = ''   '', showSuggestions = True\<rparr>, initial_app)
   \<and> ''React'' \<in> set suggestions
   \<and> (\<exists>st'. handleAddSkill \<lparr>newSkill = '' React '', showSuggestions = True\<rparr> initial_app
                = Inr (\<lparr>newSkill = '''', showSuggestions = False\<rparr>, st')
          \<and> section_array st' ''skills'' = Inr [JStr ''React'']
          \<and> handleAddSkill \<lparr>newSkill = ''React  '', showSuggestions = True\<rparr> st'
                = Inr (\<lparr>newSkill = ''React  '', showSuggestions = True\<rparr>, st')
          \<and> addSuggestion ''React'' st' = Inr st')
   \<and> (\<exists>st'. addSuggestion ''React'' initial_app = Inr st'
          \<and> section_array st' ''skills'' = Inr [JStr ''React''])"
proof -
  let ?blank = "\<lparr>newSkill = ''   '', showSuggestions = True\<rparr>"
  let ?typed = "\<lparr>newSkill = '' React '', showSuggestions = True\<rparr>"
  let ?again = "\<lparr>newSkill = ''React  '', showSuggestions = True\<rparr>"
  have t: "trim (newSkill ?blank) = ''''" "trim (newSkill ?typed) = ''React''"
    "trim (newSkill ?again) = ''React''"
    by (simp_all add: trim_def js_space_def)
  have s: "''React'' \<in> set suggestions"
    by (simp add: suggestions_def skillCategories_def)
  note init = initial_sections(3)
  from add_skill [of initial_app "[]" ?blank "''React''"] init t(1)
  have a: "handleAddSkill ?blank initial_app = Inr (?blank, initial_app)"
    by simp
  from add_skill [of initial_app "[]" ?typed "''React''"] init t(2) s
  obtain st1 where st1:
    "handleAddSkill ?typed initial_app = Inr (?typed\<lparr>newSkill := '''', showSuggestions := False\<rparr>, st1)"
    "section_array st1 ''skills'' = Inr [JStr ''React'']"
    by auto
  from add_skill [of initial_app "[]" ?typed "''React''"] init s
  obtain st2 where st2: "addSuggestion ''React'' initial_app = Inr st2"
    "section_array st2 ''skills'' = Inr [JStr ''React'']"
    by auto
  from add_skill [of st1 "[JStr ''React'']" ?again "''React''"] st1(2) t(3) s
  have b: "handleAddSkill ?again st1 = Inr (?again, st1)" "addSuggestion ''React'' st1 = Inr st1"
    by simp_all
  from st1 have "handleAddSkill ?typed initial_app
      = Inr (\<lparr>newSkill = '''', showSuggestions = False\<rparr>, st1)"
    by simp
  with init a s st1(2) st2 b show ?thesis by blast
qed

text \<open>
  C10. When the responsibilities of the experience entry \<open>i\<close> have length 1,
  \<^verbatim>\<open>removeResponsibility\<close> does not call \<^verbatim>\<open>updateData\<close> and changes no object of the
  document: the state variable is the same and the store only gains the shallow copy
  \<^verbatim>\<open>newExperiences\<close>, to which nothing refers. Hence no run of handlers of the experience
  editor that starts where every entry has responsibilities leads to a state where an entry
  has none.
\<close>

theorem responsibility_floor:
  "(section_array st ''experiences'' = Inr exps \<and> responsibilities_of st i = Inr rs
      \<and> length rs = 1 \<longrightarrow>
        removeResponsibility i j st = Inr (st\<lparr>heap := heap st @ [Arr exps]\<rparr>))
   \<and> (responsibilities_nonempty st \<and> experience_edits st st' \<longrightarrow> responsibilities_nonempty st')"
  by (auto simp: removeResponsibility_single experience_edits_nonempty)

theorem responsibility_floor_witness:
  "removeResponsibility 0 0 initial_app
     = Inr (initial_app\<lparr>heap := heap initial_app @ [Arr [JRef 1]]\<rparr>)
   \<and> experience_edits initial_app (projr (addResponsibility 0 initial_app))
   \<and> responsibilities_nonempty (projr (addResponsibility 0 initial_app))"
proof -
  obtain st1 where st1: "addResponsibility 0 initial_app = Inr st1"
    using add_initial by blast
  have e: "experience_edits initial_app st1"
    using edits_none st1 by (rule edits_add_responsibility)
  have len: "length [JStr ''''] = 1" by simp
  from responsibility_floor [of initial_app "[JRef 1]" 0 "[JStr '''']" 0 st1]
    initial_sections(1) initial_responsibilities len initial_nonempty e
  have "removeResponsibility 0 0 initial_app
          = Inr (initial_app\<lparr>heap := heap initial_app @ [Arr [JRef 1]]\<rparr>)"
    "responsibilities_nonempty st1"
    by blast+
  with e st1 show ?thesis by simp
qed

section \<open>Properties of the persistence gateway\<close>

lemma fst_apiRequest: "fst (apiRequest net endpoint meth payload log)
    = log @ [\<lparr>http_method = meth, url = API_BASE_URL @ endpoint, body = payload\<rparr>]"
  by (simp add: apiRequest_def Let_def)

lemma saveResume_guard:
  "\<not> truthy (map_of d ''name'') \<or> \<not> truthy (map_of d ''email'') \<Longrightarrow>
   saveResume net d log = (log, Inl ''Name and email are required fields'')"
  by (auto simp: saveResume_def)

lemma saveResume_sends:
  "truthy (map_of d ''name'') \<Longrightarrow> truthy (map_of d ''email'') \<Longrightarrow>
   fst (saveResume net d log)
     = log @ [\<lparr>http_method = ''POST'', url = API_BASE_URL @ ''/resumes'', body = Some (JsonObj d)\<rparr>]"
  by (simp add: saveResume_def apiRequest_def Let_def split: sum.splits option.splits json.splits reply.splits)

lemma handleSave_guard:
  "\<not> truthy (map_of d ''name'') \<or> \<not> truthy (map_of d ''email'') \<Longrightarrow>
   handleSave codec net stamp d p = p\<lparr>saveMessage := ''Name and email are required to save''\<rparr>"
  by (auto simp: handleSave_def)

text \<open>With a name and an email the handler issues exactly one request.\<close>

lemma handleSave_sends:
  assumes "truthy (map_of d ''name'')" and "truthy (map_of d ''email'')"
  shows "requests (handleSave codec net stamp d p) =
     requests p @
       [case resumeId p of
          None \<Rightarrow> \<lparr>http_method = ''POST'', url = API_BASE_URL @ ''/resumes'', body = Some (JsonObj d)\<rparr>
        | Some rid \<Rightarrow>
            if rid = '''' then
              \<lparr>http_method = ''POST'', url = API_BASE_URL @ ''/resumes'', body = Some (JsonObj d)\<rparr>
            else \<lparr>http_method = ''PUT'', url = API_BASE_URL @ ''/resumes/'' @ rid,
                   body = Some (JsonObj d)\<rparr>]"
  using assms
  by (auto simp: handleSave_def saveResume_def updateResume_def apiRequest_def Let_def
        save_failed_def
      split: sum.splits option.splits json.splits reply.splits prod.splits)

subsection \<open>Reading back a serialised value\<close>

lemma consume_Parsed: "consume c k (Parsed (s, n)) = Parsed (c # s, n + k)"
  by (simp add: consume_def)

lemma hex_digit_value:
  assumes "k < 16"
  shows "hex_value (''0123456789abcdef'' ! k) = Some k"
proof -
  have "\<forall>k \<in> set [0 ..< 16]. hex_value (''0123456789abcdef'' ! k) = Some k"
    by code_simp
  with assms show ?thesis by simp
qed

lemma hex4_small:
  assumes "n < 256"
  shows "hex4 n = [CHR ''0'', CHR ''0'', ''0123456789abcdef'' ! (n div 16),
                   ''0123456789abcdef'' ! (n mod 16)]"
proof -
  from assms have "n div 4096 = 0" "n div 256 = 0" "n div 16 mod 16 = n div 16"
    by simp_all
  then show ?thesis by (simp add: hex4_def)
qed

lemma scan_unicode_escape:
  assumes "hex_value a = Some x" "hex_value b = Some y"
  shows "scan_string (CHR 0x5C # CHR ''u'' # CHR ''0'' # CHR ''0'' # a # b # t)
           = consume (char_of (16 * x + y)) 6 (scan_string t)"
proof -
  have "hex_value CHR ''0'' = Some 0"
    by (simp add: hex_value_def digit_def)
  with assms show ?thesis by simp
qed

lemma scan_escape:
  "scan_string (escape c @ t) = consume c (length (escape c)) (scan_string t)"
proof -
  consider (short) "c \<in> {CHR 0x22, CHR 0x5C, CHR 0x08, CHR 0x0C, CHR 0x0A, CHR 0x0D, CHR 0x09}"
    | (control) "c \<notin> {CHR 0x22, CHR 0x5C, CHR 0x08, CHR 0x0C, CHR 0x0A, CHR 0x0D, CHR 0x09}"
        "of_char c < (32 :: nat)"
    | (plain) "c \<notin> {CHR 0x22, CHR 0x5C, CHR 0x08, CHR 0x0C, CHR 0x0A, CHR 0x0D, CHR 0x09}"
        "\<not> of_char c < (32 :: nat)"
    by blast
  then show ?thesis
  proof cases
    case short
    then show ?thesis
      by (elim insertE emptyE) (simp_all add: escape_def unescape_def eval_nat_numeral)
  next
    case control
    let ?n = "of_char c :: nat"
    from control have e: "escape c = [CHR 0x5C, CHR ''u''] @ hex4 ?n"
      by (simp add: escape_def)
    from control have h: "hex4 ?n = [CHR ''0'', CHR ''0'', ''0123456789abcdef'' ! (?n div 16),
                   ''0123456789abcdef'' ! (?n mod 16)]"
      by (intro hex4_small) simp
    from control have d: "hex_value (''0123456789abcdef'' ! (?n div 16)) = Some (?n div 16)"
      "hex_value (''0123456789abcdef'' ! (?n mod 16)) = Some (?n mod 16)"
      by (simp_all add: hex_digit_value)
    have c: "char_of (16 * (?n div 16) + ?n mod 16) = c"
      by simp
    have "scan_string (escape c @ t)
        = scan_string (CHR 0x5C # CHR ''u'' # CHR ''0'' # CHR ''0''
            # ''0123456789abcdef'' ! (?n div 16) # ''0123456789abcdef'' ! (?n mod 16) # t)"
      by (simp only: e h append.simps)
    also have "\<dots> = consume c 6 (scan_string t)"
      by (simp only: scan_unicode_escape [OF d] c)
    also have "6 = length (escape c)"
      by (simp only: e h) simp
    finally show ?thesis .
  next
    case plain
    then show ?thesis
      by (simp add: escape_def unescape_def)
  qed
qed

lemma scan_escaped:
  "scan_string (concat (map escape str) @ CHR 0x22 # t)
     = Parsed (str, Suc (length (concat (map escape str))))"
proof (induction str)
  case Nil
  show ?case by simp
next
  case (Cons c str)
  have "scan_string (concat (map escape (c # str)) @ CHR 0x22 # t)
      = scan_string (escape c @ (concat (map escape str) @ CHR 0x22 # t))"
    by simp
  also have "\<dots> = consume c (length (escape c)) (scan_string (concat (map escape str) @ CHR 0x22 # t))"
    by (rule scan_escape)
  finally show ?case
    by (simp add: Cons.IH consume_Parsed)
qed


lemma digit_facts:
  assumes "n < 10"
  shows "digit (char_of (48 + n))"
    and "(of_char (char_of (48 + n)) :: int) - 48 = int n"
    and "char_of (48 + n) = CHR ''0'' \<longrightarrow> n = 0"
proof -
  have "\<forall>n \<in> set [0 ..< 10]. digit (char_of (48 + n))
      \<and> (of_char (char_of (48 + n)) :: int) - 48 = int n
      \<and> (char_of (48 + n) = CHR ''0'' \<longrightarrow> n = 0)"
    by code_simp
  with assms show "digit (char_of (48 + n))"
    and "(of_char (char_of (48 + n)) :: int) - 48 = int n"
    and "char_of (48 + n) = CHR ''0'' \<longrightarrow> n = 0"
    by simp_all
qed

lemma dec_nonempty: "dec n \<noteq> []"
  by (subst dec.simps) simp

lemma dec_digits: "c \<in> set (dec n) \<Longrightarrow> digit c"
proof (induction n arbitrary: c rule: dec.induct)
  case (1 n)
  show ?case
  proof (cases "n < 10")
    case True
    with "1.prems" show ?thesis
      by (subst (asm) dec.simps) (simp add: digit_facts)
  next
    case False
    with "1.prems" have "c \<in> set (dec (n div 10)) \<or> c = char_of (48 + n mod 10)"
      by (subst (asm) dec.simps) auto
    with False "1.IH" show ?thesis
      by (auto simp: digit_facts)
  qed
qed

lemma digits_value_snoc:
  "digits_value (ds @ [c]) = 10 * digits_value ds + (of_char c - 48)"
  by (simp add: digits_value_def)

lemma dec_value: "digits_value (dec n) = int n"
proof (induction n rule: dec.induct)
  case (1 n)
  show ?case
  proof (cases "n < 10")
    case True
    then show ?thesis
      by (subst dec.simps) (simp add: digits_value_def digit_facts)
  next
    case False
    then have "digits_value (dec n)
        = 10 * digits_value (dec (n div 10)) + (of_char (char_of (48 + n mod 10)) - 48)"
      by (subst dec.simps) (simp add: digits_value_snoc)
    also have "\<dots> = 10 * int (n div 10) + int (n mod 10)"
      using False by (simp add: "1.IH" digit_facts)
    also have "\<dots> = int n"
      by (simp add: zdiv_int zmod_int)
    finally show ?thesis .
  qed
qed

lemma dec_leading_zero: "hd (dec n) = CHR ''0'' \<Longrightarrow> n = 0"
proof (induction n rule: dec.induct)
  case (1 n)
  show ?case
  proof (cases "n < 10")
    case True
    with "1.prems" show ?thesis
      by (subst (asm) dec.simps) (simp add: digit_facts)
  next
    case False
    with "1.prems" have "hd (dec (n div 10)) = CHR ''0''"
      by (subst (asm) dec.simps) (simp add: dec_nonempty)
    with False "1.IH" have "n div 10 = 0" by simp
    with False show ?thesis by simp
  qed
qed

lemma dec_zero: "dec 0 = ''0''"
  by code_simp

lemma takeWhile_digits:
  assumes "\<forall>c \<in> set ds. digit c" "follow t"
  shows "takeWhile digit (ds @ t) = ds" "dropWhile digit (ds @ t) = t"
proof -
  from assms(2) have "t = [] \<or> \<not> digit (hd t)"
    by (auto simp: follow_def digit_def)
  then have "takeWhile digit t = []" "dropWhile digit t = t"
    by (cases t; auto)+
  with assms(1) show "takeWhile digit (ds @ t) = ds" "dropWhile digit (ds @ t) = t"
    by (simp_all add: takeWhile_append2 dropWhile_append2)
qed

lemma scan_digits:
  assumes "int m < 2 ^ 53" "follow t"
  shows "scan_number (dec m @ t) = Parsed (int m, length (dec m))"
proof -
  have d: "\<forall>c \<in> set (dec m). digit c" by (simp add: dec_digits)
  have h: "hd (dec m @ t) \<noteq> CHR ''-''"
    using dec_digits [of "hd (dec m)" m] dec_nonempty [of m]
    by (auto simp: digit_def)
  have z: "\<not> (hd (dec m) = CHR ''0'' \<and> 1 < length (dec m))"
    using dec_leading_zero [of m] by (auto simp: dec_zero)
  from assms(2) have a: "\<not> (t \<noteq> [] \<and> hd t \<in> set ''.eE'')"
    by (auto simp: follow_def)
  show ?thesis
    using assms(1) h z a
    by (simp add: scan_number_def Let_def takeWhile_digits [OF d assms(2)] dec_nonempty dec_value)
qed

lemma scan_negative:
  assumes "0 < m" "int m < 2 ^ 53" "follow t"
  shows "scan_number (CHR ''-'' # dec m @ t) = Parsed (- int m, Suc (length (dec m)))"
proof -
  have d: "\<forall>c \<in> set (dec m). digit c" by (simp add: dec_digits)
  have z: "\<not> (hd (dec m) = CHR ''0'' \<and> 1 < length (dec m))"
    using dec_leading_zero [of m] by (auto simp: dec_zero)
  from assms(3) have a: "\<not> (t \<noteq> [] \<and> hd t \<in> set ''.eE'')"
    by (auto simp: follow_def)
  show ?thesis
    using assms(1,2) z a
    by (simp add: scan_number_def Let_def takeWhile_digits [OF d assms(3)] dec_nonempty dec_value)
qed

lemma scan_show_int:
  assumes "\<bar>n\<bar> < 2 ^ 53" "follow t"
  shows "scan_number (show_int n @ t) = Parsed (n, length (show_int n))"
proof (cases "n < 0")
  case True
  with assms show ?thesis
    using scan_negative [of "nat (- n)" t] by (simp add: show_int_def)
next
  case False
  with assms show ?thesis
    using scan_digits [of "nat n" t] by (simp add: show_int_def)
qed

lemma follow_simps [simp]:
  "follow []" "follow (CHR '','' # s)" "follow (CHR '']'' # s)" "follow (CHR ''}'' # s)"
  by (simp_all add: follow_def)


lemma parse_literals:
  "parse_json Value fs (''null'' @ t) = parse_json (Done JsonNull) fs t"
  "parse_json Value fs (''true'' @ t) = parse_json (Done (JsonBool True)) fs t"
  "parse_json Value fs (''false'' @ t) = parse_json (Done (JsonBool False)) fs t"
  by (simp_all add: parse_json.simps ws_def digit_def)


lemma parse_string:
  "parse_json Value fs (quote str @ t) = parse_json (Done (JsonStr str)) fs t"
  by (simp add: quote_def parse_json.simps ws_def scan_escaped)


lemma show_int_head:
  "\<exists>c s. show_int n = c # s \<and> (c = CHR ''-'' \<or> digit c)"
proof (cases "n < 0")
  case True
  then show ?thesis by (simp add: show_int_def)
next
  case False
  obtain c s where cs: "dec (nat n) = c # s"
    using dec_nonempty [of "nat n"] by (cases "dec (nat n)") auto
  then have "digit c" using dec_digits [of c "nat n"] by simp
  with False cs show ?thesis by (simp add: show_int_def)
qed


lemma digit_not_special:
  assumes "c = CHR ''-'' \<or> digit c"
  shows "\<not> ws c" "c \<noteq> CHR ''[''" "c \<noteq> CHR ''{''" "c \<noteq> CHR 0x22" "c \<noteq> CHR '']''" "c \<noteq> CHR ''}''"
  using assms by (auto simp: ws_def digit_def)


lemma parse_number:
  assumes "\<bar>n\<bar> < 2 ^ 53" "follow t"
  shows "parse_json Value fs (show_int n @ t) = parse_json (Done (JsonNum n)) fs t"
proof -
  obtain c s where cs: "show_int n = c # s" and c: "c = CHR ''-'' \<or> digit c"
    using show_int_head by blast
  have scan: "scan_number (c # s @ t) = Parsed (n, Suc (length s))"
    using scan_show_int [OF assms] by (simp add: cs)
  have "parse_json Value fs (c # s @ t) = parse_json (Done (JsonNum n)) fs (drop (Suc (length s) - 1) (s @ t))"
    using c digit_not_special [OF c] by (subst parse_json.simps) (simp add: scan)
  then show ?thesis by (simp add: cs)
qed


lemma parse_done:
  "parse_json (Done v) (InArr acc # fs) (CHR '','' # s) = parse_json Value (InArr (acc @ [v]) # fs) s"
  "parse_json (Done v) (InArr acc # fs) (CHR '']'' # s) = parse_json (Done (JsonArr (acc @ [v]))) fs s"
  "parse_json (Done v) (InObj ps k # fs) (CHR '','' # s) = parse_json (Key (set_prop k v ps)) fs s"
  "parse_json (Done v) (InObj ps k # fs) (CHR ''}'' # s) = parse_json (Done (JsonObj (set_prop k v ps))) fs s"
  by (simp_all add: parse_json.simps ws_def)


lemma parse_open:
  "parse_json Value fs (CHR ''['' # s) = parse_json ArrOpen fs s"
  "parse_json Value fs (CHR ''{'' # s) = parse_json ObjOpen fs s"
  "parse_json ArrOpen fs (CHR '']'' # s) = parse_json (Done (JsonArr [])) fs s"
  "parse_json ObjOpen fs (CHR ''}'' # s) = parse_json (Done (JsonObj [])) fs s"
  by (simp_all add: parse_json.simps ws_def)


lemma parse_first:
  assumes "\<not> ws c" "c \<noteq> CHR '']''" "c \<noteq> CHR ''}''"
  shows "parse_json ArrOpen fs (c # s) = parse_json Value (InArr [] # fs) (c # s)"
    and "parse_json ObjOpen fs (c # s) = parse_json (Key []) fs (c # s)"
  using assms by (simp_all add: parse_json.simps(2) [of _ _ c s])


lemma parse_key:
  assumes "\<not> numeral_key k"
  shows "parse_json (Key ps) fs (quote k @ CHR '':'' # s) = parse_json Value (InObj ps k # fs) s"
  using assms by (simp add: quote_def parse_json.simps ws_def scan_escaped)


lemma stringify_head:
  "\<exists>c s. JSON_stringify v = c # s \<and> \<not> ws c \<and> c \<noteq> CHR '']'' \<and> c \<noteq> CHR ''}''"
proof (cases v)
  case JsonNull
  then show ?thesis by (simp add: ws_def)
next
  case (JsonBool b)
  then show ?thesis by (simp add: ws_def)
next
  case (JsonNum n)
  obtain c s where "show_int n = c # s" "c = CHR ''-'' \<or> digit c"
    using show_int_head by blast
  with JsonNum digit_not_special [of c] show ?thesis by simp
next
  case (JsonStr s)
  then show ?thesis by (simp add: ws_def quote_def)
next
  case (JsonArr xs)
  then show ?thesis by (simp add: ws_def)
next
  case (JsonObj ps)
  then show ?thesis by (simp add: ws_def)
qed

lemma set_prop_fresh: "k \<notin> fst ` set ps \<Longrightarrow> set_prop k v ps = ps @ [(k, v)]"
  by (induction ps) auto

lemma join_Cons:
  "join sep (x # xs) = (if xs = [] then x else x @ sep @ join sep xs)"
  by (cases xs) simp_all

lemma parse_elements:
  assumes "\<And>x fs t. x \<in> set (y # ys) \<Longrightarrow> follow t \<Longrightarrow>
             parse_json Value fs (JSON_stringify x @ t) = parse_json (Done x) fs t"
  shows "parse_json Value (InArr acc # fs) (join '','' (map JSON_stringify (y # ys)) @ CHR '']'' # t)
           = parse_json (Done (JsonArr (acc @ y # ys))) fs t"
  using assms
proof (induction ys arbitrary: y acc)
  case Nil
  then show ?case by (simp add: parse_done)
next
  case (Cons z zs)
  have "parse_json Value (InArr acc # fs)
          (join '','' (map JSON_stringify (y # z # zs)) @ CHR '']'' # t)
      = parse_json Value (InArr acc # fs)
          (JSON_stringify y @ CHR '','' # join '','' (map JSON_stringify (z # zs)) @ CHR '']'' # t)"
    by simp
  also have "\<dots> = parse_json (Done y) (InArr acc # fs)
          (CHR '','' # join '','' (map JSON_stringify (z # zs)) @ CHR '']'' # t)"
    by (rule Cons.prems) simp_all
  also have "\<dots> = parse_json Value (InArr (acc @ [y]) # fs)
          (join '','' (map JSON_stringify (z # zs)) @ CHR '']'' # t)"
    by (rule parse_done)
  also have "\<dots> = parse_json (Done (JsonArr ((acc @ [y]) @ z # zs))) fs t"
    by (rule Cons.IH) (simp add: Cons.prems)
  finally show ?case by simp
qed

lemma parse_members:
  assumes "\<And>v fs t. v \<in> snd ` set (p # ps) \<Longrightarrow> follow t \<Longrightarrow>
             parse_json Value fs (JSON_stringify v @ t) = parse_json (Done v) fs t"
    and "distinct (map fst (acc @ p # ps))"
    and "\<forall>q \<in> set (p # ps). \<not> numeral_key (fst q)"
  shows "parse_json (Key acc) fs
           (join '','' (map (\<lambda>(k, v). quote k @ '':'' @ JSON_stringify v) (p # ps)) @ CHR ''}'' # t)
         = parse_json (Done (JsonObj (acc @ p # ps))) fs t"
  using assms
proof (induction ps arbitrary: p acc)
  case Nil
  obtain k v where p: "p = (k, v)" by (cases p)
  from Nil.prems(2) p have fresh: "set_prop k v acc = acc @ [(k, v)]"
    by (intro set_prop_fresh) auto
  have "parse_json (Key acc) fs (quote k @ CHR '':'' # JSON_stringify v @ CHR ''}'' # t)
      = parse_json Value (InObj acc k # fs) (JSON_stringify v @ CHR ''}'' # t)"
    using Nil.prems(3) p by (intro parse_key) simp
  also have "\<dots> = parse_json (Done v) (InObj acc k # fs) (CHR ''}'' # t)"
    using p by (intro Nil.prems(1)) simp_all
  also have "\<dots> = parse_json (Done (JsonObj (acc @ [(k, v)]))) fs t"
    by (simp add: parse_done fresh)
  finally show ?case by (simp add: p)
next
  case (Cons q qs)
  obtain k v where p: "p = (k, v)" by (cases p)
  from Cons.prems(2) p have fresh: "set_prop k v acc = acc @ [(k, v)]"
    by (intro set_prop_fresh) auto
  let ?rest = "join '','' (map (\<lambda>(k, v). quote k @ '':'' @ JSON_stringify v) (q # qs)) @ CHR ''}'' # t"
  have "parse_json (Key acc) fs
          (join '','' (map (\<lambda>(k, v). quote k @ '':'' @ JSON_stringify v) (p # q # qs)) @ CHR ''}'' # t)
      = parse_json (Key acc) fs (quote k @ CHR '':'' # JSON_stringify v @ CHR '','' # ?rest)"
    by (simp add: p)
  also have "\<dots> = parse_json Value (InObj acc k # fs) (JSON_stringify v @ CHR '','' # ?rest)"
    using Cons.prems(3) p by (intro parse_key) simp
  also have "\<dots> = parse_json (Done v) (InObj acc k # fs) (CHR '','' # ?rest)"
    using p by (intro Cons.prems(1)) simp_all
  also have "\<dots> = parse_json (Key (acc @ [(k, v)])) fs ?rest"
    by (simp add: parse_done fresh)
  also have "\<dots> = parse_json (Done (JsonObj ((acc @ [(k, v)]) @ q # qs))) fs t"
  proof (rule Cons.IH)
    show "parse_json Value fs (JSON_stringify v @ t) = parse_json (Done v) fs t"
      if "v \<in> snd ` set (q # qs)" "follow t" for v fs t
      using that by (intro Cons.prems(1)) auto
    show "distinct (map fst ((acc @ [(k, v)]) @ q # qs))"
      using Cons.prems(2) p by simp
    show "\<forall>q \<in> set (q # qs). \<not> numeral_key (fst q)"
      using Cons.prems(3) by simp
  qed
  finally show ?case by (simp add: p)
qed

lemma parse_value:
  "proper v \<Longrightarrow> follow t \<Longrightarrow> parse_json Value fs (JSON_stringify v @ t) = parse_json (Done v) fs t"
proof (induction v arbitrary: fs t)
  case JsonNull
  show ?case using parse_literals(1) by simp
next
  case (JsonBool b)
  show ?case using parse_literals(2,3) by (cases b) simp_all
next
  case (JsonNum n)
  then show ?case by (simp add: parse_number)
next
  case (JsonStr s)
  show ?case by (simp add: parse_string)
next
  case (JsonArr xs)
  show ?case
  proof (cases xs)
    case Nil
    then show ?thesis by (simp add: parse_open)
  next
    case (Cons y ys)
    obtain c s where head: "JSON_stringify y = c # s" "\<not> ws c" "c \<noteq> CHR '']''" "c \<noteq> CHR ''}''"
      using stringify_head by blast
    let ?text = "join '','' (map JSON_stringify (y # ys)) @ CHR '']'' # t"
    from head obtain s' where tx: "?text = c # s'"
      by (cases ys) simp_all
    have "parse_json Value fs (JSON_stringify (JsonArr xs) @ t) = parse_json ArrOpen fs ?text"
      by (simp add: Cons parse_open)
    also have "\<dots> = parse_json Value (InArr [] # fs) ?text"
      unfolding tx using head by (intro parse_first)
    also have "\<dots> = parse_json (Done (JsonArr ([] @ y # ys))) fs t"
    proof (rule parse_elements)
      show "parse_json Value fs (JSON_stringify x @ t) = parse_json (Done x) fs t"
        if "x \<in> set (y # ys)" "follow t" for x fs t
        using that JsonArr.prems(1) Cons by (intro JsonArr.IH) auto
    qed
    finally show ?thesis by (simp add: Cons)
  qed
next
  case (JsonObj ps)
  show ?case
  proof (cases ps)
    case Nil
    then show ?thesis by (simp add: parse_open)
  next
    case (Cons q qs)
    let ?text = "join '','' (map (\<lambda>(k, v). quote k @ '':'' @ JSON_stringify v) (q # qs)) @ CHR ''}'' # t"
    obtain s' where tx: "?text = CHR 0x22 # s'"
      by (cases q; cases qs) (simp_all add: quote_def)
    have "parse_json Value fs (JSON_stringify (JsonObj ps) @ t) = parse_json ObjOpen fs ?text"
      by (simp add: Cons parse_open)
    also have "\<dots> = parse_json (Key []) fs ?text"
      unfolding tx by (intro parse_first) (simp_all add: ws_def)
    also have "\<dots> = parse_json (Done (JsonObj ([] @ q # qs))) fs t"
    proof (rule parse_members)
      show "parse_json Value fs (JSON_stringify v @ t) = parse_json (Done v) fs t"
        if "v \<in> snd ` set (q # qs)" "follow t" for v fs t
      proof -
        from that(1) obtain p where p: "p \<in> set ps" "v = snd p"
          unfolding Cons by blast
        have "snd p \<in> Basic_BNFs.snds p"
          by (cases p) simp
        with p have "v \<in> Basic_BNFs.snds p"
          by simp
        moreover from p JsonObj.prems(1) have "proper v"
          by simp
        ultimately show ?thesis
          using p that(2) by (intro JsonObj.IH)
      qed
      show "distinct (map fst ([] @ q # qs))"
        using JsonObj.prems(1) Cons by simp
      show "\<forall>p \<in> set (q # qs). \<not> numeral_key (fst p)"
        using JsonObj.prems(1) Cons by simp
    qed
    finally show ?thesis by (simp add: Cons)
  qed
qed

lemma parse_stringify: "proper v \<Longrightarrow> JSON_parse (JSON_stringify v) = Parsed v"
  using parse_value [of v "[]" "[]"] by (simp add: JSON_parse_def parse_json.simps)

text \<open>Some texts and what they are read as.\<close>

lemma JSON_examples:
  "JSON_stringify (JsonObj [(''name'', JsonStr ''Ada''),
                            (''skills'', JsonArr [JsonStr ''C'', JsonStr [CHR 0x22, CHR 0x0A, CHR 0x01]]),
                            (''n'', JsonNum (- 12))])
     = ''{\"name\":\"Ada\",\"skills\":[\"C\",\"'' @ [CHR 0x5C, CHR 0x22, CHR 0x5C]
       @ ''n'' @ [CHR 0x5C] @ ''u0001\"],\"n\":-12}''"
  "JSON_parse '' { \"a\" : [ 1 , true , null ] } ''
     = Parsed (JsonObj [(''a'', JsonArr [JsonNum 1, JsonBool True, JsonNull])])"
  "JSON_parse ''{\"a\":1,\"b\":[],\"a\":2}''
     = Parsed (JsonObj [(''a'', JsonNum 2), (''b'', JsonArr [])])"
  "JSON_parse ([CHR 0x22, CHR 0x5C] @ ''u0041'' @ [CHR 0x5C] @ ''/'' @ [CHR 0x22])
     = Parsed (JsonStr ''A/'')"
  "JSON_parse ''[1,]'' = SyntaxError"
  "JSON_parse ''01'' = SyntaxError"
  "JSON_parse ''{name:'' = SyntaxError"
  "JSON_parse '''' = SyntaxError"
  "JSON_parse ''1.5'' = OutOfRange"
  "JSON_parse ''{\"0\":1}'' = OutOfRange"
  by code_simp+

subsection \<open>Local storage\<close>

lemma map_of_set_prop: "map_of (set_prop k v ps) = (map_of ps)(k \<mapsto> v)"
  by (induction ps) (auto simp: fun_eq_iff)

lemma saveToLocalStorage_accepted:
  "accepts ls (storage_key key) (stringify codec (JsonObj (set_prop ''lastSaved'' (JsonStr stamp) d))) \<Longrightarrow>
   items (saveToLocalStorage codec stamp d key ls)
     = (items ls)(storage_key key \<mapsto> stringify codec (JsonObj (set_prop ''lastSaved'' (JsonStr stamp) d)))"
  by (simp add: saveToLocalStorage_def setItem_def Let_def)

lemma saveToLocalStorage_refused:
  "\<not> accepts ls (storage_key key) (stringify codec (JsonObj (set_prop ''lastSaved'' (JsonStr stamp) d))) \<Longrightarrow>
   saveToLocalStorage codec stamp d key ls = ls"
  by (simp add: saveToLocalStorage_def setItem_def Let_def)

lemma set_prop_keys: "fst ` set (set_prop k v ps) = insert k (fst ` set ps)"
  by (induction ps) auto

lemma set_prop_distinct: "distinct (map fst ps) \<Longrightarrow> distinct (map fst (set_prop k v ps))"
proof (induction ps)
  case Nil
  show ?case by simp
next
  case (Cons p ps)
  have "fst ` set (set_prop k v ps) = insert k (fst ` set ps)"
    by (rule set_prop_keys)
  with Cons show ?case by auto
qed

lemma set_prop_members: "p \<in> set (set_prop k v ps) \<Longrightarrow> p = (k, v) \<or> p \<in> set ps"
  by (induction ps) (auto split: if_splits)

lemma proper_payload:
  assumes "proper (JsonObj d)"
  shows "proper (JsonObj (set_prop ''lastSaved'' (JsonStr stamp) d))"
proof -
  have n: "\<not> numeral_key ''lastSaved''"
    by (simp add: numeral_key_def digit_def)
  have "\<not> numeral_key (fst p) \<and> proper (snd p)"
    if "p \<in> set (set_prop ''lastSaved'' (JsonStr stamp) d)" for p
  proof -
    from that have "p = (''lastSaved'', JsonStr stamp) \<or> p \<in> set d"
      by (rule set_prop_members)
    with n assms show ?thesis by auto
  qed
  with assms show ?thesis
    by (simp add: set_prop_distinct)
qed

lemma load_after_save:
  assumes "proper (JsonObj d)"
    and "accepts ls (storage_key key)
           (JSON_stringify (JsonObj (set_prop ''lastSaved'' (JsonStr stamp) d)))"
  shows "loadFromLocalStorage JSON key (saveToLocalStorage JSON stamp d key ls)
           = Inr (JsonObj (set_prop ''lastSaved'' (JsonStr stamp) d))"
proof -
  let ?payload = "JsonObj (set_prop ''lastSaved'' (JsonStr stamp) d)"
  from assms(2) have "items (saveToLocalStorage JSON stamp d key ls)
      = (items ls)(storage_key key \<mapsto> JSON_stringify ?payload)"
    using saveToLocalStorage_accepted [of ls key JSON stamp d] by (simp add: JSON_def)
  then have stored: "getItem (storage_key key) (saveToLocalStorage JSON stamp d key ls)
      = Some (JSON_stringify ?payload)"
    by (simp add: getItem_def)
  have nonempty: "JSON_stringify ?payload \<noteq> ''''"
    by simp
  have "JSON_parse (JSON_stringify ?payload) = Parsed ?payload"
    using assms(1) by (intro parse_stringify proper_payload)
  with stored nonempty show ?thesis
    by (simp add: loadFromLocalStorage_def JSON_def)
qed

subsection \<open>Creating a document\<close>

lemma new_Resume_name: "name (new_Resume t i b) = map_option trim (name b)"
  "email (new_Resume t i b) = map_option trim (email b)"
  by (simp_all add: new_Resume_def Let_def cast_resume_def)

lemma trim_empty: "trim '''' = ''''"
  by (simp add: trim_def)

lemma join_append:
  "join sep (xs @ y # ys)
     = (if xs = [] then '''' else join sep xs @ sep) @ y
       @ (if ys = [] then '''' else sep @ join sep ys)"
proof (induction xs)
  case Nil
  show ?case by (cases ys) simp_all
next
  case (Cons x xs)
  then show ?case by (cases xs) simp_all
qed

lemma rendered_reports:
  assumes "p \<in> set ps"
  shows "\<exists>before after. rendered heading ps = before @ report p @ after"
proof -
  from assms obtain xs ys where ps: "ps = xs @ p # ys"
    by (auto simp: in_set_conv_decomp)
  let ?rs = "map report xs" and ?ts = "map report ys"
  have "rendered heading ps
      = (heading @ '': '' @ (if ?rs = [] then '''' else join '', '' ?rs @ '', '')) @ report p
        @ (if ?ts = [] then '''' else '', '' @ join '', '' ?ts)"
    unfolding rendered_def ps map_append list.map join_append by simp
  then show ?thesis by blast
qed

lemma entries_not_email:
  "''email'' \<notin> set (entries_errors experience_errors xs)"
  "''email'' \<notin> set (entries_errors education_errors ys)"
  by (auto simp: entries_errors_def experience_errors_def education_errors_def left_out_def left_empty_def
      split: option.splits)

section \<open>Properties of the Store\<close>

subsection \<open>Updating a document\<close>

lemma update_first_absent:
  "\<forall>d \<in> set db. oid d \<noteq> i \<Longrightarrow> update_first i f db = (None, db)"
  by (induction db) auto

lemma update_first_present:
  "d \<in> set db \<Longrightarrow> oid d = i \<Longrightarrow> distinct (map oid db) \<Longrightarrow>
   update_first i f db = (Some (f d), map (\<lambda>x. if oid x = i then f d else x) db)"
proof (induction db)
  case Nil
  then show ?case by simp
next
  case (Cons x db)
  show ?case
  proof (cases "oid x = i")
    case True
    with Cons.prems have "x = d" by (auto simp: image_iff)
    moreover from Cons.prems True have "\<forall>y \<in> set db. oid y \<noteq> i" by (auto simp: image_iff)
    then have "map (\<lambda>y. if oid y = i then f d else y) db = db"
      by (induction db) auto
    ultimately show ?thesis using True by simp
  next
    case False
    with Cons show ?thesis by auto
  qed
qed

lemma put_resume_cast_error:
  "to_object_id ident = None \<Longrightarrow>
   put_resume t ident b db =
     ((400, \<lparr>success = False, message = Some ''Failed to update resume'',
             error = Some (Thrown (cast_error_message ident)), data = None\<rparr>), db)"
  by (simp add: put_resume_def findByIdAndUpdate_def)

lemma put_resume_invalid:
  "to_object_id ident = Some i \<Longrightarrow> update_errors (cast_resume (b\<lparr>updatedAt := Some t\<rparr>)) \<noteq> [] \<Longrightarrow>
   put_resume t ident b db =
     ((400, \<lparr>success = False, message = Some ''Failed to update resume'',
             error = Some (ValidationError ''Validation failed''
                            (set (update_errors (cast_resume (b\<lparr>updatedAt := Some t\<rparr>))))),
             data = None\<rparr>), db)"
  by (simp add: put_resume_def findByIdAndUpdate_def Let_def)

lemma put_resume_not_found:
  "to_object_id ident = Some i \<Longrightarrow> update_errors (cast_resume (b\<lparr>updatedAt := Some t\<rparr>)) = [] \<Longrightarrow>
   \<forall>d \<in> set db. oid d \<noteq> i \<Longrightarrow>
   put_resume t ident b db =
     ((404, \<lparr>success = False, message = Some ''Resume not found'', error = None, data = None\<rparr>),
      db)"
  by (simp add: put_resume_def findByIdAndUpdate_def Let_def update_first_absent)

lemma put_resume_found:
  "to_object_id ident = Some i \<Longrightarrow> update_errors (cast_resume (b\<lparr>updatedAt := Some t\<rparr>)) = [] \<Longrightarrow>
   d \<in> set db \<Longrightarrow> oid d = i \<Longrightarrow> distinct (map oid db) \<Longrightarrow>
   put_resume t ident b db =
     ((200, \<lparr>success = True, message = Some ''Resume updated successfully'', error = None,
             data = Some (apply_update (cast_resume (b\<lparr>updatedAt := Some t\<rparr>)) d)\<rparr>),
      map (\<lambda>x. if oid x = i then apply_update (cast_resume (b\<lparr>updatedAt := Some t\<rparr>)) d else x) db)"
  by (simp add: put_resume_def findByIdAndUpdate_def Let_def update_first_present)


lemma update_errors_updatedAt:
  "update_errors (cast_resume (b\<lparr>updatedAt := u\<rparr>)) = update_errors (cast_resume b)"
  by (simp add: update_errors_def cast_resume_def)

subsection \<open>Listing the documents\<close>

lemma map_of_filter_key:
  "map_of (filter (\<lambda>(k, v). Q k) ps) k = (if Q k then map_of ps k else None)"
  by (induction ps) auto

lemma select_paths_keys:
  "select_paths paths d = JsonObj ps \<Longrightarrow> fst ` set ps \<subseteq> insert ''_id'' (set paths)"
  by (auto simp: select_paths_def)

lemma select_paths_values:
  "select_paths paths d = JsonObj ps \<Longrightarrow> k = ''_id'' \<or> k \<in> set paths \<Longrightarrow>
   map_of ps k = map_of (stored_fields d) k"
  using map_of_filter_key [of "\<lambda>k. k = ''_id'' \<or> k \<in> set paths" "stored_fields d" k]
  by (auto simp: select_paths_def)

lemma select_paths_id:
  "select_paths paths d = JsonObj ps \<Longrightarrow> map_of ps ''_id'' = Some (JsonStr (oid d))"
  using select_paths_values [of paths d ps "''_id''"] by (simp add: stored_fields_def)

lemma sorted_desc_nth:
  assumes "i < j" "j < length db"
    and "updatedAt (sort_updatedAt_desc db ! i) = Some ti"
    and "updatedAt (sort_updatedAt_desc db ! j) = Some tj"
  shows "tj \<le> ti"
proof -
  let ?key = "\<lambda>d. case updatedAt d of Some t \<Rightarrow> - int t | None \<Rightarrow> 1"
  let ?xs = "sort_updatedAt_desc db"
  have s: "sorted (map ?key ?xs)"
    unfolding sort_updatedAt_desc_def by (rule sorted_sort_key)
  have len: "length ?xs = length db"
    by (simp add: sort_updatedAt_desc_def)
  from assms(1,2) len have "map ?key ?xs ! i \<le> map ?key ?xs ! j"
    using s by (intro sorted_nth_mono) simp_all
  with assms len show ?thesis by simp
qed

lemma validation_new_Resume:
  "validation_errors (resume.truncate (new_Resume t i b)) = validation_errors (cast_resume b)"
  by (simp add: validation_errors_def new_Resume_def Let_def resume.truncate_def
      entries_errors_def split: option.splits)

lemma post_resumes_valid:
  "validation_errors (cast_resume b) = [] \<Longrightarrow>
   post_resumes t_new t_save new_id b db =
     ((201, \<lparr>success = True, message = Some ''Resume saved successfully'', error = None,
             data = Some ((new_Resume t_new new_id b)\<lparr>updatedAt := Some t_save\<rparr>)\<rparr>),
      db @ [(new_Resume t_new new_id b)\<lparr>updatedAt := Some t_save\<rparr>])"
  by (simp add: post_resumes_def Let_def validation_new_Resume)

lemma post_resumes_invalid:
  "validation_errors (cast_resume b) \<noteq> [] \<Longrightarrow>
   post_resumes t_new t_save new_id b db =
     ((400, \<lparr>success = False, message = Some ''Failed to save resume'',
             error = Some (ValidationError ''Resume validation failed''
                            (set (validation_errors (cast_resume b)))),
             data = None\<rparr>),
      db)"
  by (simp add: post_resumes_def Let_def validation_new_Resume)

lemma sort_two:
  "updatedAt a = Some ta \<Longrightarrow> updatedAt b = Some tb \<Longrightarrow> ta < tb \<Longrightarrow>
   sort_updatedAt_desc [a, b] = [b, a]"
  by (simp add: sort_updatedAt_desc_def)

lemma trim_examples:
  "trim ''Ada'' = ''Ada''" "trim ''ada@example.org'' = ''ada@example.org''"
  "trim ''Bob'' = ''Bob''" "trim ''bob@example.org'' = ''bob@example.org''"
  "trim ''Engineer'' = ''Engineer''"
  by (simp_all add: trim_def js_space_def)

lemma ada_valid: "validation_errors (cast_resume ada) = []" "update_errors (cast_resume ada) = []"
  by (simp_all add: ada_def empty_body_def cast_resume_def validation_errors_def update_errors_def
      left_out_def left_empty_def missing_def entries_errors_def trim_examples)

lemma bob_valid: "validation_errors (cast_resume bob) = []" "update_errors (cast_resume bob) = []"
  by (simp_all add: bob_def empty_body_def cast_resume_def validation_errors_def update_errors_def
      left_out_def left_empty_def missing_def entries_errors_def trim_examples)

lemma object_id_examples:
  "to_object_id ''nonexistent-id'' = None"
  "to_object_id ''64b7f0c2a1d3e4f5a6b7c8d9'' = Some ''64b7f0c2a1d3e4f5a6b7c8d9''"
  "to_object_id ''64B7F0C2A1D3E4F5A6B7C8D9'' = Some ''64b7f0c2a1d3e4f5a6b7c8d9''"
  by (simp_all add: to_object_id_def hex_digit_def lower_def)

subsection \<open>Timestamps\<close>






lemma saved_ada_paths:
  "oid saved_ada = ''64b7f0c2a1d3e4f5a6b7c8d9''" "updatedAt saved_ada = Some 1001"
  "createdAt saved_ada = Some 1000"
  by (simp_all add: saved_ada_def new_Resume_def Let_def cast_resume_def ada_def empty_body_def)

lemma saved_bob_paths:
  "oid saved_bob = ''64b7f0c2a1d3e4f5a6b7c8da''" "updatedAt saved_bob = Some 2001"
  by (simp_all add: saved_bob_def new_Resume_def Let_def)

lemma object_id_zero: "to_object_id ''0123456789abcdef01234567'' = Some ''0123456789abcdef01234567''"
  by (simp add: to_object_id_def hex_digit_def lower_def)

section \<open>The contract of saving, listing and the local fallback\<close>

text \<open>
  C4. A document whose \<^verbatim>\<open>name\<close> or \<^verbatim>\<open>email\<close> is empty (or missing, or otherwise
  falsy) is not sent to the Store: \<^verbatim>\<open>handleSave\<close> returns before the branch on
  \<^verbatim>\<open>resumeId\<close>, so with or without an identifier it issues no request and writes no
  local backup, and \<^verbatim>\<open>saveResume\<close> throws before its request.
\<close>

theorem save_guard:
  "\<not> truthy (map_of d ''name'') \<or> \<not> truthy (map_of d ''email'') \<longrightarrow>
     requests (handleSave codec net stamp d p) = requests p
     \<and> storage (handleSave codec net stamp d p) = storage p
     \<and> saveResume net d log = (log, Inl ''Name and email are required fields'')"
  by (auto simp: handleSave_guard saveResume_guard)

theorem save_guard_witness:
  "\<not> truthy (map_of nameless ''name'')
   \<and> requests (handleSave JSON offline ''2026-11-03T10:00:00.000Z'' nameless initial_preview) = []
   \<and> requests (handleSave JSON offline ''2026-11-03T10:00:00.000Z'' nameless
        (initial_preview\<lparr>resumeId := Some ''64b7f0c2a1d3e4f5a6b7c8d9''\<rparr>)) = []
   \<and> saveResume offline nameless [] = ([], Inl ''Name and email are required fields'')"
proof -
  have n: "\<not> truthy (map_of nameless ''name'')" by (simp add: nameless_def)
  from save_guard [of nameless JSON offline "''2026-11-03T10:00:00.000Z''"
      initial_preview "[]"] n
  have 1: "requests (handleSave JSON offline ''2026-11-03T10:00:00.000Z'' nameless
      initial_preview) = []"
    "saveResume offline nameless [] = ([], Inl ''Name and email are required fields'')"
    by (simp_all add: initial_preview_def)
  from save_guard [of nameless JSON offline "''2026-11-03T10:00:00.000Z''"
      "initial_preview\<lparr>resumeId := Some ''64b7f0c2a1d3e4f5a6b7c8d9''\<rparr>" "[]"] n
  have 2: "requests (handleSave JSON offline ''2026-11-03T10:00:00.000Z'' nameless
      (initial_preview\<lparr>resumeId := Some ''64b7f0c2a1d3e4f5a6b7c8d9''\<rparr>)) = []"
    by (simp add: initial_preview_def)
  from n 1 2 show ?thesis by simp
qed

text \<open>
  C5. Creating a document with an empty name fails with a validation error that names
  \<^verbatim>\<open>name\<close>: \<^verbatim>\<open>saveResume\<close> throws \<^verbatim>\<open>Name and email are required fields\<close> and issues no
  request, and \<^verbatim>\<open>POST /api/resumes\<close> answers 400, stores nothing, and its \<^verbatim>\<open>error\<close> is
  the message of Mongoose's validation error for the document: \<^verbatim>\<open>name\<close> is among the
  failing paths, \<^verbatim>\<open>email\<close> is not among them when the email is not empty, and in
  whatever order the failing paths are listed, the message holds the report
  \<^verbatim>\<open>name: Path `name` is required.\<close>
\<close>

theorem create_requires_name:
  "(map_of d ''name'' = Some (JsonStr '''') \<longrightarrow>
      saveResume net d log = (log, Inl ''Name and email are required fields''))
   \<and> (name b = Some '''' \<longrightarrow>
        post_resumes t_new t_save new_id b db
          = ((400, \<lparr>success = False, message = Some ''Failed to save resume'',
                    error = Some (ValidationError ''Resume validation failed''
                                   (set (validation_errors (cast_resume b)))),
                    data = None\<rparr>), db)
        \<and> ''name'' \<in> set (validation_errors (cast_resume b))
        \<and> (\<not> missing (map_option trim (email b)) \<longrightarrow>
             ''email'' \<notin> set (validation_errors (cast_resume b)))
        \<and> (\<forall>ps. set ps = set (validation_errors (cast_resume b)) \<longrightarrow>
             (\<exists>before after. rendered ''Resume validation failed'' ps
                = before @ ''name: Path `name` is required.'' @ after)))"
proof (rule conjI; rule impI)
  assume "map_of d ''name'' = Some (JsonStr '''')"
  then show "saveResume net d log = (log, Inl ''Name and email are required fields'')"
    by (simp add: saveResume_guard)
next
  assume b: "name b = Some ''''"
  then have n: "''name'' \<in> set (validation_errors (cast_resume b))"
    by (simp add: validation_errors_def cast_resume_def left_out_def left_empty_def missing_def trim_empty)
  then have "validation_errors (cast_resume b) \<noteq> []"
    by auto
  then have post: "post_resumes t_new t_save new_id b db
      = ((400, \<lparr>success = False, message = Some ''Failed to save resume'',
                error = Some (ValidationError ''Resume validation failed''
                               (set (validation_errors (cast_resume b)))),
                data = None\<rparr>), db)"
    by (rule post_resumes_invalid)
  have r: "report ''name'' = ''name: Path `name` is required.''"
    by (simp add: report_def leaf_def)
  have e: "\<not> missing (map_option trim (email b)) \<longrightarrow>
      ''email'' \<notin> set (validation_errors (cast_resume b))"
    using entries_not_email
    by (auto simp: validation_errors_def cast_resume_def left_out_def left_empty_def
        missing_def split: option.splits if_splits)
  have m: "\<forall>ps. set ps = set (validation_errors (cast_resume b)) \<longrightarrow>
             (\<exists>before after. rendered ''Resume validation failed'' ps
                = before @ ''name: Path `name` is required.'' @ after)"
  proof (intro allI impI)
    fix ps
    assume "set ps = set (validation_errors (cast_resume b))"
    with n have "''name'' \<in> set ps" by simp
    then have "\<exists>before after. rendered ''Resume validation failed'' ps
        = before @ report ''name'' @ after"
      by (rule rendered_reports)
    then show "\<exists>before after. rendered ''Resume validation failed'' ps
        = before @ ''name: Path `name` is required.'' @ after"
      unfolding r .
  qed
  from post n e m
  show "post_resumes t_new t_save new_id b db
          = ((400, \<lparr>success = False, message = Some ''Failed to save resume'',
                    error = Some (ValidationError ''Resume validation failed''
                                   (set (validation_errors (cast_resume b)))),
                    data = None\<rparr>), db)
        \<and> ''name'' \<in> set (validation_errors (cast_resume b))
        \<and> (\<not> missing (map_option trim (email b)) \<longrightarrow>
             ''email'' \<notin> set (validation_errors (cast_resume b)))
        \<and> (\<forall>ps. set ps = set (validation_errors (cast_resume b)) \<longrightarrow>
             (\<exists>before after. rendered ''Resume validation failed'' ps
                = before @ ''name: Path `name` is required.'' @ after))"
    by blast
qed

theorem create_requires_name_witness:
  "map_of nameless ''name'' = Some (JsonStr '''')
   \<and> saveResume offline nameless [] = ([], Inl ''Name and email are required fields'')
   \<and> name first_draft = Some ''''
   \<and> post_resumes 1000 1001 ''64b7f0c2a1d3e4f5a6b7c8d9'' first_draft []
       = ((400, \<lparr>success = False, message = Some ''Failed to save resume'',
                 error = Some (ValidationError ''Resume validation failed''
                   {''name'', ''experiences.0.company'', ''experiences.0.position'',
                    ''experiences.0.duration'', ''education.0.institution'',
                    ''education.0.degree'', ''education.0.year''}),
                 data = None\<rparr>), [])
   \<and> (\<exists>before after.
         rendered ''Resume validation failed''
           [''name'', ''experiences.0.company'', ''experiences.0.position'',
            ''experiences.0.duration'', ''education.0.institution'',
            ''education.0.degree'', ''education.0.year'']
         = before @ ''name: Path `name` is required.'' @ after)
   \<and> rendered ''Resume validation failed''
         (validation_errors (cast_resume (empty_body\<lparr>name := Some ''''\<rparr>)))
       = ''Resume validation failed: email: Path `email` is required., ''
         @ ''name: Path `name` is required.''
   \<and> rendered ''Resume validation failed'' [''experiences.0.company'']
       = ''Resume validation failed: experiences.0.company: Path `company` is required.''"
proof -
  have n: "map_of nameless ''name'' = Some (JsonStr '''')" by (simp add: nameless_def)
  have b: "name first_draft = Some ''''" by (simp add: first_draft_def)
  have d: "dec 0 = ''0''" by code_simp
  have t: "trim ''a@b.com'' = ''a@b.com''" by (simp add: trim_def js_space_def)
  have v: "set (validation_errors (cast_resume first_draft))
      = {''name'', ''experiences.0.company'', ''experiences.0.position'',
         ''experiences.0.duration'', ''education.0.institution'',
         ''education.0.degree'', ''education.0.year''}"
    by (simp add: validation_errors_def cast_resume_def first_draft_def left_out_def left_empty_def
        missing_def trim_empty entries_errors_def experience_errors_def education_errors_def
        cast_experience_def cast_education_def enumerate_eq_zip d t)
  have l: "set [''name'', ''experiences.0.company'', ''experiences.0.position'',
            ''experiences.0.duration'', ''education.0.institution'',
            ''education.0.degree'', ''education.0.year'']
      = set (validation_errors (cast_resume first_draft))"
    unfolding v by simp
  have r: "rendered ''Resume validation failed''
         (validation_errors (cast_resume (empty_body\<lparr>name := Some ''''\<rparr>)))
       = ''Resume validation failed: email: Path `email` is required., ''
         @ ''name: Path `name` is required.''"
    "rendered ''Resume validation failed'' [''experiences.0.company'']
       = ''Resume validation failed: experiences.0.company: Path `company` is required.''"
    by (simp_all add: rendered_def report_def leaf_def validation_errors_def cast_resume_def
        empty_body_def left_out_def left_empty_def entries_errors_def trim_empty)
  from create_requires_name [of nameless offline "[]" first_draft 1000 1001
      "''64b7f0c2a1d3e4f5a6b7c8d9''" "[]"] n b
  have 1: "saveResume offline nameless [] = ([], Inl ''Name and email are required fields'')"
    and 2: "post_resumes 1000 1001 ''64b7f0c2a1d3e4f5a6b7c8d9'' first_draft []
       = ((400, \<lparr>success = False, message = Some ''Failed to save resume'',
                 error = Some (ValidationError ''Resume validation failed''
                                (set (validation_errors (cast_resume first_draft)))),
                 data = None\<rparr>), [])"
    and 3: "\<forall>ps. set ps = set (validation_errors (cast_resume first_draft)) \<longrightarrow>
             (\<exists>before after. rendered ''Resume validation failed'' ps
                = before @ ''name: Path `name` is required.'' @ after)"
    by blast+
  from 3 l have 4: "\<exists>before after.
         rendered ''Resume validation failed''
           [''name'', ''experiences.0.company'', ''experiences.0.position'',
            ''experiences.0.duration'', ''education.0.institution'',
            ''education.0.degree'', ''education.0.year'']
         = before @ ''name: Path `name` is required.'' @ after"
    by blast
  from n b 1 2 4 r show ?thesis unfolding v by blast
qed

text \<open>
  C6, as stated: an update with an identifier that matches no stored record answers 404,
  for instance with the identifier \<^verbatim>\<open>nonexistent-id\<close>. It does not: that string is not
  an \<^verbatim>\<open>ObjectId\<close>, \<^verbatim>\<open>findByIdAndUpdate\<close> throws, and the handler answers 400.
\<close>

theorem put_missing_counterexample:
  "put_resume 1000 ''nonexistent-id'' ada [] =
     ((400, \<lparr>success = False, message = Some ''Failed to update resume'',
             error = Some (Thrown (cast_error_message ''nonexistent-id'')), data = None\<rparr>), [])
   \<and> fst (fst (put_resume 1000 ''nonexistent-id'' ada [])) \<noteq> 404"
  by (simp add: put_resume_def findByIdAndUpdate_def object_id_examples)

text \<open>
  C6, amended. \<^verbatim>\<open>PUT /api/resumes/:id\<close> answers 400 when the identifier is not an
  \<^verbatim>\<open>ObjectId\<close>; it answers 404 and leaves the collection as it is when the identifier is
  one, the body passes the validation of the update and no stored record has the
  identifier; and when a record has it, the answer is 200 with the record after the
  update, and the collection holds this record in place of the old one. In the record
  after the update every path that the body has holds the value of the body as the schema
  casts it (strings trimmed), every path that the body does not have holds what the stored
  record had, the identifier is the same and \<^verbatim>\<open>updatedAt\<close> is the instant of the update.
\<close>

theorem put_contract:
  "(to_object_id ident = None \<longrightarrow>
      put_resume t ident b db =
        ((400, \<lparr>success = False, message = Some ''Failed to update resume'',
                error = Some (Thrown (cast_error_message ident)), data = None\<rparr>), db))
   \<and> (to_object_id ident = Some i \<and> update_errors (cast_resume b) = []
        \<and> (\<forall>d \<in> set db. oid d \<noteq> i) \<longrightarrow>
      put_resume t ident b db =
        ((404, \<lparr>success = False, message = Some ''Resume not found'', error = None,
                data = None\<rparr>), db))
   \<and> (to_object_id ident = Some i \<and> update_errors (cast_resume b) = []
        \<and> d \<in> set db \<and> oid d = i \<and> distinct (map oid db) \<longrightarrow>
      (\<exists>d'. put_resume t ident b db =
          ((200, \<lparr>success = True, message = Some ''Resume updated successfully'', error = None,
                  data = Some d'\<rparr>),
           map (\<lambda>x. if oid x = i then d' else x) db)
        \<and> oid d' = oid d
        \<and> name d' = (case name b of None \<Rightarrow> name d | Some v \<Rightarrow> Some (trim v))
        \<and> title d' = (case title b of None \<Rightarrow> title d | Some v \<Rightarrow> Some (trim v))
        \<and> phone d' = (case phone b of None \<Rightarrow> phone d | Some v \<Rightarrow> Some (trim v))
        \<and> email d' = (case email b of None \<Rightarrow> email d | Some v \<Rightarrow> Some (trim v))
        \<and> location d' = (case location b of None \<Rightarrow> location d | Some v \<Rightarrow> Some (trim v))
        \<and> website d' = (case website b of None \<Rightarrow> website d | Some v \<Rightarrow> Some (trim v))
        \<and> summary d' = (case summary b of None \<Rightarrow> summary d | Some v \<Rightarrow> Some (trim v))
        \<and> experiences d' =
            (case experiences b of
               None \<Rightarrow> experiences d
             | Some xs \<Rightarrow>
                 Some (map (\<lambda>e. \<lparr>company = map_option trim (company e),
                                  position = map_option trim (position e),
                                  duration = map_option trim (duration e),
                                  responsibilities = map trim (responsibilities e)\<rparr>) xs))
        \<and> education d' =
            (case education b of
               None \<Rightarrow> education d
             | Some xs \<Rightarrow>
                 Some (map (\<lambda>e. \<lparr>institution = map_option trim (institution e),
                                  degree = map_option trim (degree e),
                                  year = map_option trim (year e)\<rparr>) xs))
        \<and> skills d' = (case skills b of None \<Rightarrow> skills d | Some xs \<Rightarrow> Some (map trim xs))
        \<and> createdAt d' = (case createdAt b of None \<Rightarrow> createdAt d | Some c \<Rightarrow> Some c)
        \<and> updatedAt d' = Some t))"
proof (intro conjI impI)
  assume "to_object_id ident = None"
  then show "put_resume t ident b db =
        ((400, \<lparr>success = False, message = Some ''Failed to update resume'',
                error = Some (Thrown (cast_error_message ident)), data = None\<rparr>), db)"
    by (rule put_resume_cast_error)
next
  assume "to_object_id ident = Some i \<and> update_errors (cast_resume b) = []
        \<and> (\<forall>d \<in> set db. oid d \<noteq> i)"
  then show "put_resume t ident b db =
        ((404, \<lparr>success = False, message = Some ''Resume not found'', error = None,
                data = None\<rparr>), db)"
    by (simp add: put_resume_not_found update_errors_updatedAt)
next
  let ?d = "apply_update (cast_resume (b\<lparr>updatedAt := Some t\<rparr>)) d"
  assume a: "to_object_id ident = Some i \<and> update_errors (cast_resume b) = []
        \<and> d \<in> set db \<and> oid d = i \<and> distinct (map oid db)"
  then have put: "put_resume t ident b db =
          ((200, \<lparr>success = True, message = Some ''Resume updated successfully'', error = None,
                  data = Some ?d\<rparr>),
           map (\<lambda>x. if oid x = i then ?d else x) db)"
    by (simp add: put_resume_found update_errors_updatedAt)
  have strings: "oid ?d = oid d"
    "name ?d = (case name b of None \<Rightarrow> name d | Some v \<Rightarrow> Some (trim v))"
    "title ?d = (case title b of None \<Rightarrow> title d | Some v \<Rightarrow> Some (trim v))"
    "phone ?d = (case phone b of None \<Rightarrow> phone d | Some v \<Rightarrow> Some (trim v))"
    "email ?d = (case email b of None \<Rightarrow> email d | Some v \<Rightarrow> Some (trim v))"
    "location ?d = (case location b of None \<Rightarrow> location d | Some v \<Rightarrow> Some (trim v))"
    "website ?d = (case website b of None \<Rightarrow> website d | Some v \<Rightarrow> Some (trim v))"
    "summary ?d = (case summary b of None \<Rightarrow> summary d | Some v \<Rightarrow> Some (trim v))"
    by (simp_all add: apply_update_def cast_resume_def set_path_def split: option.splits)
  have arrays: "experiences ?d =
            (case experiences b of
               None \<Rightarrow> experiences d
             | Some xs \<Rightarrow>
                 Some (map (\<lambda>e. \<lparr>company = map_option trim (company e),
                                  position = map_option trim (position e),
                                  duration = map_option trim (duration e),
                                  responsibilities = map trim (responsibilities e)\<rparr>) xs))"
    "education ?d =
            (case education b of
               None \<Rightarrow> education d
             | Some xs \<Rightarrow>
                 Some (map (\<lambda>e. \<lparr>institution = map_option trim (institution e),
                                  degree = map_option trim (degree e),
                                  year = map_option trim (year e)\<rparr>) xs))"
    "skills ?d = (case skills b of None \<Rightarrow> skills d | Some xs \<Rightarrow> Some (map trim xs))"
    by (simp_all add: apply_update_def cast_resume_def set_path_def cast_experience_def
        cast_education_def split: option.splits)
  have stamps: "createdAt ?d = (case createdAt b of None \<Rightarrow> createdAt d | Some c \<Rightarrow> Some c)"
    "updatedAt ?d = Some t"
    by (simp_all add: apply_update_def cast_resume_def set_path_def split: option.splits)
  show "\<exists>d'. put_resume t ident b db =
          ((200, \<lparr>success = True, message = Some ''Resume updated successfully'', error = None,
                  data = Some d'\<rparr>),
           map (\<lambda>x. if oid x = i then d' else x) db)
        \<and> oid d' = oid d
        \<and> name d' = (case name b of None \<Rightarrow> name d | Some v \<Rightarrow> Some (trim v))
        \<and> title d' = (case title b of None \<Rightarrow> title d | Some v \<Rightarrow> Some (trim v))
        \<and> phone d' = (case phone b of None \<Rightarrow> phone d | Some v \<Rightarrow> Some (trim v))
        \<and> email d' = (case email b of None \<Rightarrow> email d | Some v \<Rightarrow> Some (trim v))
        \<and> location d' = (case location b of None \<Rightarrow> location d | Some v \<Rightarrow> Some (trim v))
        \<and> website d' = (case website b of None \<Rightarrow> website d | Some v \<Rightarrow> Some (trim v))
        \<and> summary d' = (case summary b of None \<Rightarrow> summary d | Some v \<Rightarrow> Some (trim v))
        \<and> experiences d' =
            (case experiences b of
               None \<Rightarrow> experiences d
             | Some xs \<Rightarrow>
                 Some (map (\<lambda>e. \<lparr>company = map_option trim (company e),
                                  position = map_option trim (position e),
                                  duration = map_option trim (duration e),
                                  responsibilities = map trim (responsibilities e)\<rparr>) xs))
        \<and> education d' =
            (case education b of
               None \<Rightarrow> education d
             | Some xs \<Rightarrow>
                 Some (map (\<lambda>e. \<lparr>institution = map_option trim (institution e),
                                  degree = map_option trim (degree e),
                                  year = map_option trim (year e)\<rparr>) xs))
        \<and> skills d' = (case skills b of None \<Rightarrow> skills d | Some xs \<Rightarrow> Some (map trim xs))
        \<and> createdAt d' = (case createdAt b of None \<Rightarrow> createdAt d | Some c \<Rightarrow> Some c)
        \<and> updatedAt d' = Some t"
    apply (rule exI [of _ ?d])
    apply (intro conjI)
    apply (rule put)
    apply (rule strings arrays stamps)+
    done
qed

theorem put_contract_witness:
  "fst (fst (put_resume 3000 ''nonexistent-id'' ada [saved_ada, saved_bob])) = 400
   \<and> put_resume 3000 ''0123456789abcdef01234567'' ada [saved_ada, saved_bob] =
       ((404, \<lparr>success = False, message = Some ''Resume not found'', error = None,
               data = None\<rparr>), [saved_ada, saved_bob])
   \<and> (\<exists>d'. put_resume 3000 ''64B7F0C2A1D3E4F5A6B7C8DA'' ada [saved_ada, saved_bob] =
         ((200, \<lparr>success = True, message = Some ''Resume updated successfully'', error = None,
                 data = Some d'\<rparr>), [saved_ada, d'])
        \<and> oid d' = ''64b7f0c2a1d3e4f5a6b7c8da''
        \<and> name d' = Some ''Ada'' \<and> email d' = Some ''ada@example.org''
        \<and> title d' = Some ''Engineer'' \<and> phone d' = None
        \<and> experiences d' = Some [] \<and> education d' = Some [] \<and> skills d' = Some []
        \<and> createdAt d' = Some 2000 \<and> updatedAt d' = Some 3000)"
proof -
  have ids: "to_object_id ''64B7F0C2A1D3E4F5A6B7C8DA'' = Some ''64b7f0c2a1d3e4f5a6b7c8da''"
    by (simp add: to_object_id_def hex_digit_def lower_def)
  have ada: "name ada = Some ''Ada''" "email ada = Some ''ada@example.org''" "title ada = None"
    "phone ada = None" "experiences ada = None" "education ada = None" "skills ada = None"
    "createdAt ada = None"
    by (simp_all add: ada_def empty_body_def)
  have bob: "title saved_bob = Some ''Engineer''" "phone saved_bob = None"
    "experiences saved_bob = Some []" "education saved_bob = Some []"
    "skills saved_bob = Some []" "createdAt saved_bob = Some 2000"
    by (simp_all add: saved_bob_def new_Resume_def Let_def cast_resume_def bob_def
        empty_body_def trim_examples)
  have dist: "distinct (map oid [saved_ada, saved_bob])"
    by (simp add: saved_ada_paths saved_bob_paths)
  from put_contract [of "''nonexistent-id''" 3000 ada "[saved_ada, saved_bob]"]
    object_id_examples(1)
  have 1: "fst (fst (put_resume 3000 ''nonexistent-id'' ada [saved_ada, saved_bob])) = 400"
    by simp
  from put_contract [of "''0123456789abcdef01234567''" 3000 ada "[saved_ada, saved_bob]"
      "''0123456789abcdef01234567''"] object_id_zero ada_valid(2) saved_ada_paths(1)
    saved_bob_paths(1)
  have 2: "put_resume 3000 ''0123456789abcdef01234567'' ada [saved_ada, saved_bob] =
       ((404, \<lparr>success = False, message = Some ''Resume not found'', error = None,
               data = None\<rparr>), [saved_ada, saved_bob])"
    by simp
  from put_contract [of "''64B7F0C2A1D3E4F5A6B7C8DA''" 3000 ada "[saved_ada, saved_bob]"
      "''64b7f0c2a1d3e4f5a6b7c8da''" saved_bob] ids ada_valid(2) saved_bob_paths(1) dist
  obtain d' where d': "put_resume 3000 ''64B7F0C2A1D3E4F5A6B7C8DA'' ada [saved_ada, saved_bob] =
         ((200, \<lparr>success = True, message = Some ''Resume updated successfully'', error = None,
                 data = Some d'\<rparr>),
          map (\<lambda>x. if oid x = ''64b7f0c2a1d3e4f5a6b7c8da'' then d' else x)
            [saved_ada, saved_bob])"
    "oid d' = oid saved_bob"
    "name d' = (case name ada of None \<Rightarrow> name saved_bob | Some v \<Rightarrow> Some (trim v))"
    "title d' = (case title ada of None \<Rightarrow> title saved_bob | Some v \<Rightarrow> Some (trim v))"
    "phone d' = (case phone ada of None \<Rightarrow> phone saved_bob | Some v \<Rightarrow> Some (trim v))"
    "email d' = (case email ada of None \<Rightarrow> email saved_bob | Some v \<Rightarrow> Some (trim v))"
    "experiences d' =
            (case experiences ada of
               None \<Rightarrow> experiences saved_bob
             | Some xs \<Rightarrow>
                 Some (map (\<lambda>e. \<lparr>company = map_option trim (company e),
                                  position = map_option trim (position e),
                                  duration = map_option trim (duration e),
                                  responsibilities = map trim (responsibilities e)\<rparr>) xs))"
    "education d' =
            (case education ada of
               None \<Rightarrow> education saved_bob
             | Some xs \<Rightarrow>
                 Some (map (\<lambda>e. \<lparr>institution = map_option trim (institution e),
                                  degree = map_option trim (degree e),
                                  year = map_option trim (year e)\<rparr>) xs))"
    "skills d' = (case skills ada of None \<Rightarrow> skills saved_bob | Some xs \<Rightarrow> Some (map trim xs))"
    "createdAt d' = (case createdAt ada of None \<Rightarrow> createdAt saved_bob | Some c \<Rightarrow> Some c)"
    "updatedAt d' = Some 3000"
    by auto
  then have 3: "\<exists>d'. put_resume 3000 ''64B7F0C2A1D3E4F5A6B7C8DA'' ada [saved_ada, saved_bob] =
         ((200, \<lparr>success = True, message = Some ''Resume updated successfully'', error = None,
                 data = Some d'\<rparr>), [saved_ada, d'])
        \<and> oid d' = ''64b7f0c2a1d3e4f5a6b7c8da''
        \<and> name d' = Some ''Ada'' \<and> email d' = Some ''ada@example.org''
        \<and> title d' = Some ''Engineer'' \<and> phone d' = None
        \<and> experiences d' = Some [] \<and> education d' = Some [] \<and> skills d' = Some []
        \<and> createdAt d' = Some 2000 \<and> updatedAt d' = Some 3000"
    by (intro exI [of _ d'])
      (simp add: ada bob saved_ada_paths saved_bob_paths trim_examples)
  from 1 2 3 show ?thesis by blast
qed

text \<open>
  C7, as stated: every element of the list has the properties \<^verbatim>\<open>name\<close>,
  \<^verbatim>\<open>title\<close>, \<^verbatim>\<open>email\<close>, \<^verbatim>\<open>createdAt\<close>, \<^verbatim>\<open>updatedAt\<close> only. It also has
  \<^verbatim>\<open>_id\<close>, as the list after one creation shows.
\<close>

theorem list_id_counterexample:
  "get_resumes (snd (post_resumes 1000 1001 ''64b7f0c2a1d3e4f5a6b7c8d9'' ada [])) =
     (200, \<lparr>success = True, message = None, error = None,
            data = Some [JsonObj [(''_id'', JsonStr ''64b7f0c2a1d3e4f5a6b7c8d9''),
                                  (''name'', JsonStr ''Ada''), (''email'', JsonStr ''ada@example.org''),
                                  (''createdAt'', JsonNum 1000), (''updatedAt'', JsonNum 1001)]]\<rparr>)
   \<and> ''_id'' \<notin> {''name'', ''title'', ''email'', ''createdAt'', ''updatedAt''}"
  by (simp add: post_resumes_valid ada_valid get_resumes_def sort_updatedAt_desc_def)
    (simp add: select_paths_def stored_fields_def opt_field_def new_Resume_def Let_def
      cast_resume_def ada_def empty_body_def trim_examples summary_paths_def)

text \<open>
  C7, amended. \<^verbatim>\<open>GET /api/resumes\<close> answers 200 with the summaries of all stored
  documents (a permutation of the collection, nothing cut off), latest \<^verbatim>\<open>updatedAt\<close>
  first; a summary has the identifier \<^verbatim>\<open>_id\<close> and, of the other properties of the
  document, those among \<^verbatim>\<open>name\<close>, \<^verbatim>\<open>title\<close>, \<^verbatim>\<open>email\<close>, \<^verbatim>\<open>createdAt\<close>,
  \<^verbatim>\<open>updatedAt\<close>, with the values of the document. After creating a valid A and then a
  valid B with a later \<^verbatim>\<open>updatedAt\<close> in an empty collection, the list is the summary of
  B followed by that of A.
\<close>

theorem list_contract:
  "get_resumes db =
     (200, \<lparr>success = True, message = None, error = None,
            data = Some (map (select_paths summary_paths) (sort_updatedAt_desc db))\<rparr>)
   \<and> mset (sort_updatedAt_desc db) = mset db
   \<and> (i < j \<and> j < length db \<and> updatedAt (sort_updatedAt_desc db ! i) = Some ti
        \<and> updatedAt (sort_updatedAt_desc db ! j) = Some tj \<longrightarrow> tj \<le> ti)
   \<and> (select_paths summary_paths d = JsonObj ps \<longrightarrow>
        fst ` set ps \<subseteq> {''_id'', ''name'', ''title'', ''email'', ''createdAt'', ''updatedAt''}
        \<and> map_of ps ''_id'' = Some (JsonStr (oid d))
        \<and> (\<forall>k \<in> set summary_paths. map_of ps k = map_of (stored_fields d) k))
   \<and> (validation_errors (cast_resume a) = [] \<and> validation_errors (cast_resume b) = []
        \<and> t1 < t2 \<longrightarrow>
        get_resumes (snd (post_resumes n2 t2 id2 b (snd (post_resumes n1 t1 id1 a [])))) =
          (200, \<lparr>success = True, message = None, error = None,
                 data = Some [select_paths summary_paths ((new_Resume n2 id2 b)\<lparr>updatedAt := Some t2\<rparr>),
                              select_paths summary_paths ((new_Resume n1 id1 a)\<lparr>updatedAt := Some t1\<rparr>)]\<rparr>))"
proof (intro conjI impI)
  show "get_resumes db =
     (200, \<lparr>success = True, message = None, error = None,
            data = Some (map (select_paths summary_paths) (sort_updatedAt_desc db))\<rparr>)"
    by (simp add: get_resumes_def)
  show "mset (sort_updatedAt_desc db) = mset db"
    by (simp add: sort_updatedAt_desc_def)
next
  assume "i < j \<and> j < length db \<and> updatedAt (sort_updatedAt_desc db ! i) = Some ti
        \<and> updatedAt (sort_updatedAt_desc db ! j) = Some tj"
  then show "tj \<le> ti" by (blast intro: sorted_desc_nth)
next
  assume s: "select_paths summary_paths d = JsonObj ps"
  from select_paths_keys [OF s]
  show "fst ` set ps \<subseteq> {''_id'', ''name'', ''title'', ''email'', ''createdAt'', ''updatedAt''}"
    by (simp add: summary_paths_def)
  from s show "map_of ps ''_id'' = Some (JsonStr (oid d))" by (rule select_paths_id)
  from s show "\<forall>k \<in> set summary_paths. map_of ps k = map_of (stored_fields d) k"
    by (blast intro: select_paths_values)
next
  assume v: "validation_errors (cast_resume a) = [] \<and> validation_errors (cast_resume b) = []
        \<and> t1 < t2"
  let ?A = "(new_Resume n1 id1 a)\<lparr>updatedAt := Some t1\<rparr>"
  let ?B = "(new_Resume n2 id2 b)\<lparr>updatedAt := Some t2\<rparr>"
  from v have "snd (post_resumes n2 t2 id2 b (snd (post_resumes n1 t1 id1 a []))) = [?A, ?B]"
    by (simp add: post_resumes_valid)
  moreover from v have "sort_updatedAt_desc [?A, ?B] = [?B, ?A]"
    by (intro sort_two [of _ t1 _ t2]) simp_all
  ultimately show "get_resumes (snd (post_resumes n2 t2 id2 b (snd (post_resumes n1 t1 id1 a [])))) =
          (200, \<lparr>success = True, message = None, error = None,
                 data = Some [select_paths summary_paths ?B, select_paths summary_paths ?A]\<rparr>)"
    by (simp add: get_resumes_def)
qed

theorem list_contract_witness:
  "get_resumes (snd (post_resumes 2000 2001 ''64b7f0c2a1d3e4f5a6b7c8da'' bob
       (snd (post_resumes 1000 1001 ''64b7f0c2a1d3e4f5a6b7c8d9'' ada [])))) =
     (200, \<lparr>success = True, message = None, error = None,
            data = Some [select_paths summary_paths saved_bob,
                         select_paths summary_paths saved_ada]\<rparr>)
   \<and> sort_updatedAt_desc [saved_ada, saved_bob] = [saved_bob, saved_ada]
   \<and> (1001 :: nat) \<le> 2001
   \<and> select_paths summary_paths saved_ada =
        JsonObj [(''_id'', JsonStr ''64b7f0c2a1d3e4f5a6b7c8d9''), (''name'', JsonStr ''Ada''),
                 (''email'', JsonStr ''ada@example.org''), (''createdAt'', JsonNum 1000),
                 (''updatedAt'', JsonNum 1001)]
   \<and> fst ` set [(''_id'', JsonStr ''64b7f0c2a1d3e4f5a6b7c8d9''), (''name'', JsonStr ''Ada''),
                 (''email'', JsonStr ''ada@example.org''), (''createdAt'', JsonNum 1000),
                 (''updatedAt'', JsonNum (1001 :: int))]
        \<subseteq> {''_id'', ''name'', ''title'', ''email'', ''createdAt'', ''updatedAt''}"
proof -
  let ?ps = "[(''_id'', JsonStr ''64b7f0c2a1d3e4f5a6b7c8d9''), (''name'', JsonStr ''Ada''),
                 (''email'', JsonStr ''ada@example.org''), (''createdAt'', JsonNum 1000),
                 (''updatedAt'', JsonNum 1001)]"
  have sel: "select_paths summary_paths saved_ada = JsonObj ?ps"
    by (simp add: select_paths_def stored_fields_def opt_field_def saved_ada_def new_Resume_def
        Let_def cast_resume_def ada_def empty_body_def trim_examples summary_paths_def)
  have srt: "sort_updatedAt_desc [saved_ada, saved_bob] = [saved_bob, saved_ada]"
    using saved_ada_paths(2) saved_bob_paths(2) by (intro sort_two [of _ 1001 _ 2001]) simp_all
  note lc = list_contract [of "[saved_ada, saved_bob]" 0 1 2001 1001 saved_ada ?ps ada bob
      1001 2001 2000 "''64b7f0c2a1d3e4f5a6b7c8da''" 1000 "''64b7f0c2a1d3e4f5a6b7c8d9''"]
  from lc srt saved_ada_paths(2) saved_bob_paths(2) have a: "(1001 :: nat) \<le> 2001"
    by simp
  from lc sel have b: "fst ` set ?ps
        \<subseteq> {''_id'', ''name'', ''title'', ''email'', ''createdAt'', ''updatedAt''}"
    by blast
  from lc ada_valid(1) bob_valid(1)
  have c: "get_resumes (snd (post_resumes 2000 2001 ''64b7f0c2a1d3e4f5a6b7c8da'' bob
       (snd (post_resumes 1000 1001 ''64b7f0c2a1d3e4f5a6b7c8d9'' ada [])))) =
     (200, \<lparr>success = True, message = None, error = None,
            data = Some [select_paths summary_paths saved_bob,
                         select_paths summary_paths saved_ada]\<rparr>)"
    by (simp add: saved_ada_def saved_bob_def)
  from a b c sel srt show ?thesis by blast
qed




text \<open>
  C9, as stated: for every document, \<^verbatim>\<open>loadFromLocalStorage\<close> after
  \<^verbatim>\<open>saveToLocalStorage\<close> returns the document with \<^verbatim>\<open>lastSaved\<close>. It does not when the
  browser refuses the write: \<^verbatim>\<open>setItem\<close> throws, the \<^verbatim>\<open>catch\<close> block of lines 403-405
  logs the exception, nothing is stored, and the load returns \<^verbatim>\<open>null\<close>.
\<close>

theorem local_refused_counterexample:
  "loadFromLocalStorage JSON None
     (saveToLocalStorage JSON ''2026-11-03T10:00:00.000Z'' [(''name'', JsonStr ''Ada'')]
        None exhausted)
     = Inr JsonNull
   \<and> loadFromLocalStorage JSON None
       (saveToLocalStorage JSON ''2026-11-03T10:00:00.000Z'' [(''name'', JsonStr ''Ada'')]
          None exhausted)
     \<noteq> Inr (JsonObj [(''name'', JsonStr ''Ada''),
                       (''lastSaved'', JsonStr ''2026-11-03T10:00:00.000Z'')])"
  by (simp add: saveToLocalStorage_def setItem_def exhausted_def loadFromLocalStorage_def
      getItem_def)

text \<open>
  C9, amended. For every document of JavaScript data (\<open>proper\<close>): when the browser
  accepts the write, \<^verbatim>\<open>loadFromLocalStorage\<close> after \<^verbatim>\<open>saveToLocalStorage\<close> with the same
  key returns the payload that was saved, which is the document with \<^verbatim>\<open>lastSaved\<close> set
  to the time of the save (added at the end when the document has no such property) and
  every other property as it is. When the browser refuses the write,
  \<^verbatim>\<open>saveToLocalStorage\<close> leaves the storage as it is. \<^verbatim>\<open>loadFromLocalStorage\<close> returns
  \<^verbatim>\<open>null\<close>, without throwing, when nothing is stored under the key, when the stored text
  is empty and when it does not parse.
\<close>

theorem local_round_trip:
  "(proper (JsonObj d)
      \<and> accepts ls (storage_key key)
           (JSON_stringify (JsonObj (set_prop ''lastSaved'' (JsonStr stamp) d))) \<longrightarrow>
        loadFromLocalStorage JSON key (saveToLocalStorage JSON stamp d key ls)
          = Inr (JsonObj (set_prop ''lastSaved'' (JsonStr stamp) d))
        \<and> map_of (set_prop ''lastSaved'' (JsonStr stamp) d) ''lastSaved'' = Some (JsonStr stamp)
        \<and> (\<forall>k. k \<noteq> ''lastSaved'' \<longrightarrow>
              map_of (set_prop ''lastSaved'' (JsonStr stamp) d) k = map_of d k)
        \<and> (''lastSaved'' \<notin> fst ` set d \<longrightarrow>
              set_prop ''lastSaved'' (JsonStr stamp) d = d @ [(''lastSaved'', JsonStr stamp)]))
   \<and> (\<not> accepts ls (storage_key key)
           (stringify codec (JsonObj (set_prop ''lastSaved'' (JsonStr stamp) d))) \<longrightarrow>
        saveToLocalStorage codec stamp d key ls = ls)
   \<and> (getItem (storage_key key) ls = None \<longrightarrow> loadFromLocalStorage codec key ls = Inr JsonNull)
   \<and> (getItem (storage_key key) ls = Some s \<and> (s = '''' \<or> parse codec s = SyntaxError) \<longrightarrow>
         loadFromLocalStorage codec key ls = Inr JsonNull)"
proof (intro conjI)
  show "proper (JsonObj d)
      \<and> accepts ls (storage_key key)
           (JSON_stringify (JsonObj (set_prop ''lastSaved'' (JsonStr stamp) d))) \<longrightarrow>
        loadFromLocalStorage JSON key (saveToLocalStorage JSON stamp d key ls)
          = Inr (JsonObj (set_prop ''lastSaved'' (JsonStr stamp) d))
        \<and> map_of (set_prop ''lastSaved'' (JsonStr stamp) d) ''lastSaved'' = Some (JsonStr stamp)
        \<and> (\<forall>k. k \<noteq> ''lastSaved'' \<longrightarrow>
              map_of (set_prop ''lastSaved'' (JsonStr stamp) d) k = map_of d k)
        \<and> (''lastSaved'' \<notin> fst ` set d \<longrightarrow>
              set_prop ''lastSaved'' (JsonStr stamp) d = d @ [(''lastSaved'', JsonStr stamp)])"
    by (simp add: load_after_save map_of_set_prop set_prop_fresh)
  show "\<not> accepts ls (storage_key key)
           (stringify codec (JsonObj (set_prop ''lastSaved'' (JsonStr stamp) d))) \<longrightarrow>
        saveToLocalStorage codec stamp d key ls = ls"
    by (simp add: saveToLocalStorage_refused)
  show "getItem (storage_key key) ls = None \<longrightarrow> loadFromLocalStorage codec key ls = Inr JsonNull"
    by (simp add: loadFromLocalStorage_def)
  show "getItem (storage_key key) ls = Some s \<and> (s = '''' \<or> parse codec s = SyntaxError) \<longrightarrow>
         loadFromLocalStorage codec key ls = Inr JsonNull"
    by (auto simp: loadFromLocalStorage_def)
qed

theorem local_round_trip_witness:
  "proper (JsonObj session_document)
   \<and> loadFromLocalStorage JSON None
       (saveToLocalStorage JSON ''2026-11-03T10:00:00.000Z'' session_document None online)
     = Inr (JsonObj (session_document @ [(''lastSaved'', JsonStr ''2026-11-03T10:00:00.000Z'')]))
   \<and> saveToLocalStorage JSON ''2026-11-03T10:00:00.000Z'' session_document None exhausted
     = exhausted
   \<and> loadFromLocalStorage JSON None online = Inr JsonNull
   \<and> loadFromLocalStorage JSON None (online\<lparr>items := [''resumeBackup'' \<mapsto> ''{name:'']\<rparr>)
     = Inr JsonNull"
proof -
  let ?stamp = "''2026-11-03T10:00:00.000Z''"
  have p: "proper (JsonObj session_document)"
    by (simp add: session_document_def numeral_key_def digit_def)
  have f: "''lastSaved'' \<notin> fst ` set session_document"
    by (simp add: session_document_def)
  have a: "accepts online (storage_key None)
      (JSON_stringify (JsonObj (set_prop ''lastSaved'' (JsonStr ?stamp) session_document)))"
    "getItem (storage_key None) online = None"
    by (simp_all add: online_def getItem_def)
  have r: "\<not> accepts exhausted (storage_key None)
      (stringify JSON (JsonObj (set_prop ''lastSaved'' (JsonStr ?stamp) session_document)))"
    by (simp add: exhausted_def)
  have c: "getItem (storage_key None) (online\<lparr>items := [''resumeBackup'' \<mapsto> ''{name:'']\<rparr>)
      = Some ''{name:''"
    "parse JSON ''{name:'' = SyntaxError"
    by (simp_all add: getItem_def storage_key_def JSON_def JSON_parse_def parse_json.simps ws_def)
  from local_round_trip [of session_document online None ?stamp JSON "''{name:''"] p f a
  have 1: "loadFromLocalStorage JSON None
       (saveToLocalStorage JSON ?stamp session_document None online)
     = Inr (JsonObj (session_document @ [(''lastSaved'', JsonStr ?stamp)]))"
    "loadFromLocalStorage JSON None online = Inr JsonNull"
    by simp_all
  from local_round_trip [of session_document exhausted None ?stamp JSON "''{name:''"] r
  have 2: "saveToLocalStorage JSON ?stamp session_document None exhausted = exhausted"
    by blast
  from local_round_trip [of session_document
      "online\<lparr>items := [''resumeBackup'' \<mapsto> ''{name:'']\<rparr>" None ?stamp JSON "''{name:''"] c
  have 3: "loadFromLocalStorage JSON None
      (online\<lparr>items := [''resumeBackup'' \<mapsto> ''{name:'']\<rparr>) = Inr JsonNull"
    by blast
  from p 1 2 3 show ?thesis by simp
qed

end
